theory Spec2Isabelle
  imports Complex_Main
begin

section \<open>The crowdfunding front-end: data model\<close>

text \<open>
  The repository holds one page component in three iterations:
  \<^item> \<open>src/app/page.tsx\<close>, the current page (plain names below);
  \<^item> the first iteration, kept twice with different comments: \<open>unnamed/part_000\<close> and
    the first file of \<open>unnamed/part_001\<close> (suffix \<open>_it1\<close>);
  \<^item> the iteration refactored into hooks with memoized callbacks, the second file of
    \<open>unnamed/part_001\<close> (suffix \<open>_memo\<close>).
  A JavaScript string is modelled as the UTF-8 bytes of its source literal. Every awaited
  call into the wallet extension or the blockchain client library is a field of the
  environment: its outcome is a thrown value or a result.
  \<open>console.log\<close> output is not modelled; \<open>console.warn\<close> and
  \<open>console.error\<close> are recorded without their arguments.
\<close>

type_synonym pubkey = string

text \<open>
  A thrown value. JavaScript throws any value: \<open>null\<close> or \<open>undefined\<close> (\<open>Nullish\<close>), another
  falsy value such as \<open>0\<close>, the empty string, \<open>false\<close> or \<open>NaN\<close> (\<open>Falsy\<close>), or a truthy
  value (\<open>Object\<close>) with the properties the handlers read: \<open>message\<close>, \<open>name\<close>,
  \<open>error.code\<close> and \<open>error.name\<close>, each possibly undefined (a thrown non-empty string
  has none of them). A message that is defined is taken to be a string.
\<close>

record error_object =
  message :: "string option"
  err_name :: "string option"
  error_code :: "int option"
  error_name :: "string option"

datatype js_error = Nullish | Falsy | Object error_object

definition Error :: "string \<Rightarrow> js_error" where
  "Error m =
     Object \<lparr>message = Some m, err_name = Some ''Error'', error_code = None, error_name = None\<rparr>"

text \<open>
  Reading a property of \<open>null\<close> or \<open>undefined\<close> throws a \<open>TypeError\<close>, whose message text
  depends on the engine; no property below depends on that text.
\<close>

definition TypeError :: js_error where
  "TypeError =
     Object \<lparr>message = Some ''Cannot read properties of null'', err_name = Some ''TypeError'',
             error_code = None, error_name = None\<rparr>"

definition truthy_value :: "js_error \<Rightarrow> bool" where
  "truthy_value e = (case e of Object x \<Rightarrow> True | _ \<Rightarrow> False)"

record wallet =
  isPhantom :: "bool option"
  isConnected :: "bool option"
  solana_publicKey :: "string option"

datatype jsval = JUndefined | JNull | JString string | JNumber int | JBool bool | JObject

record idl_js =
  idl_address :: jsval
  idl_instructions :: bool
  idl_accounts :: bool
  idl_types :: bool

record campaignData =
  admin :: pubkey
  campaign_name :: string
  description :: string
  amountDonated :: int

record campaignAccount =
  account_publicKey :: pubkey
  account :: campaignData

record state =
  walletStatus :: "string option"
  isWalletConnected :: bool
  publicKey :: "string option"
  campaigns :: "campaignAccount list"
  loading :: bool
  creatingCampaign :: bool
  donatingCampaign :: "string option"
  donationAmount :: string
  campaignName :: string
  campaignDescription :: string

definition initialState :: state where
  "initialState =
     \<lparr>walletStatus = None, isWalletConnected = False, publicKey = None, campaigns = [],
      loading = False, creatingCampaign = False, donatingCampaign = None,
      donationAmount = ''0.1'', campaignName = [], campaignDescription = []\<rparr>"

text \<open>
  What a handler does, in order: the state setters it calls and the external calls it
  awaits. A handler reads the state of the render that created it (its snapshot) and
  writes through the setters; \<open>commit\<close> applies the setter calls to the stored state.
  The effects that take the program identifier carry it: \<open>new Program(idl, id, provider)\<close>,
  \<open>findProgramAddress(seeds, id)\<close>, \<open>getAccountInfo(id)\<close> and \<open>getProgramAccounts(id)\<close>.
\<close>

datatype effect =
    SetWalletStatus string
  | SetIsWalletConnected bool
  | SetPublicKey "string option"
  | SetCampaigns "campaignAccount list"
  | SetLoading bool
  | SetCreatingCampaign bool
  | SetDonatingCampaign "string option"
  | SetDonationAmount string
  | SetCampaignName string
  | SetCampaignDescription string
  | GetBalance
  | RequestAirdrop int
  | ConfirmTransaction
  | Timeout nat
  | NewProgram pubkey
  | FindProgramAddress pubkey
  | FetchNullable
  | BuildInstruction
  | GetLatestBlockhash
  | SimulateTransaction
  | SendAndConfirm string
  | RpcCreate
  | GetAccountInfo pubkey
  | GetProgramAccounts pubkey
  | FetchCampaign pubkey
  | ConsoleWarn
  | ConsoleError

fun apply_effect :: "effect \<Rightarrow> state \<Rightarrow> state" where
  "apply_effect (SetWalletStatus m) s = s\<lparr>walletStatus := Some m\<rparr>"
| "apply_effect (SetIsWalletConnected b) s = s\<lparr>isWalletConnected := b\<rparr>"
| "apply_effect (SetPublicKey k) s = s\<lparr>publicKey := k\<rparr>"
| "apply_effect (SetCampaigns cs) s = s\<lparr>campaigns := cs\<rparr>"
| "apply_effect (SetLoading b) s = s\<lparr>loading := b\<rparr>"
| "apply_effect (SetCreatingCampaign b) s = s\<lparr>creatingCampaign := b\<rparr>"
| "apply_effect (SetDonatingCampaign c) s = s\<lparr>donatingCampaign := c\<rparr>"
| "apply_effect (SetDonationAmount a) s = s\<lparr>donationAmount := a\<rparr>"
| "apply_effect (SetCampaignName n) s = s\<lparr>campaignName := n\<rparr>"
| "apply_effect (SetCampaignDescription d) s = s\<lparr>campaignDescription := d\<rparr>"
| "apply_effect _ s = s"

definition commit :: "effect list \<Rightarrow> state \<Rightarrow> state" where
  "commit es s = fold apply_effect es s"

fun is_network :: "effect \<Rightarrow> bool" where
  "is_network GetBalance = True"
| "is_network (RequestAirdrop n) = True"
| "is_network ConfirmTransaction = True"
| "is_network GetLatestBlockhash = True"
| "is_network SimulateTransaction = True"
| "is_network (SendAndConfirm b) = True"
| "is_network RpcCreate = True"
| "is_network (GetAccountInfo p) = True"
| "is_network (GetProgramAccounts p) = True"
| "is_network (FetchCampaign k) = True"
| "is_network FetchNullable = True"
| "is_network _ = False"

text \<open>
  A JavaScript number is a double: a finite one (a rational number), an infinity or NaN.
  \<open>le_zero x\<close> is \<open>x <= 0\<close>, \<open>less_number a b\<close> is \<open>a < b\<close>; a comparison with NaN is false.
  The product and the quotient of two doubles are rounded by the engine, so they are fields
  of the environment, like \<open>parseFloat\<close> and the text of a number in a template literal.
\<close>

datatype number = NaN | Infinity | MinusInfinity | Finite rat

definition isNaN :: "number \<Rightarrow> bool" where
  "isNaN x = (x = NaN)"

definition le_zero :: "number \<Rightarrow> bool" where
  "le_zero x = (case x of Finite q \<Rightarrow> q \<le> 0 | MinusInfinity \<Rightarrow> True | _ \<Rightarrow> False)"

definition less_number :: "number \<Rightarrow> number \<Rightarrow> bool" where
  "less_number a b =
     (case a of
        Finite p \<Rightarrow> (case b of Finite q \<Rightarrow> p < q | Infinity \<Rightarrow> True | _ \<Rightarrow> False)
      | MinusInfinity \<Rightarrow> (case b of Finite q \<Rightarrow> True | Infinity \<Rightarrow> True | _ \<Rightarrow> False)
      | _ \<Rightarrow> False)"

definition Math_floor :: "number \<Rightarrow> number" where
  "Math_floor x = (case x of Finite q \<Rightarrow> Finite (of_int \<lfloor>q\<rfloor>) | _ \<Rightarrow> x)"

record env =
  window_solana :: "wallet option"
  idl_file :: idl_js
  new_PublicKey :: "string \<Rightarrow> js_error + pubkey"
  new_Program :: "js_error + unit"
  findProgramAddress :: "js_error + pubkey"
  fetchNullable :: "js_error + campaignData option"
  getBalance :: "nat \<Rightarrow> js_error + int"
  requestAirdrop :: "js_error + string"
  confirmTransaction :: "nat \<Rightarrow> js_error + unit"
  instruction :: "js_error + unit"
  getLatestBlockhash :: "nat \<Rightarrow> js_error + string"
  simulateTransaction :: "js_error + unit"
  sendAndConfirm :: "nat \<Rightarrow> js_error + string"
  rpc_create :: "nat \<Rightarrow> js_error + string"
  getAccountInfo :: "js_error + unit"
  getProgramAccounts :: "js_error + pubkey list"
  fetch :: "pubkey \<Rightarrow> js_error + campaignData"
  parseFloat :: "string \<Rightarrow> number"
  times :: "number \<Rightarrow> number \<Rightarrow> number"
  divide_by :: "number \<Rightarrow> number \<Rightarrow> number"
  numberToString :: "number \<Rightarrow> string"

subsection \<open>JavaScript values and strings\<close>

definition truthy :: "bool option \<Rightarrow> bool" where
  "truthy b = (b = Some True)"

definition truthy_str :: "string option \<Rightarrow> bool" where
  "truthy_str s = (case s of None \<Rightarrow> False | Some t \<Rightarrow> t \<noteq> [])"

fun str_includes :: "string \<Rightarrow> string \<Rightarrow> bool" where
  "str_includes [] sub = (sub = [])"
| "str_includes (c # cs) sub = (take (length sub) (c # cs) = sub \<or> str_includes cs sub)"

text \<open>
  \<open>String.prototype.trim\<close> removes white space and line terminators from both ends:
  TAB, LF, VT, FF, CR, SP, U+00A0, U+1680, U+2000 to U+200A, U+2028, U+2029, U+202F, U+205F,
  U+3000 and U+FEFF, here as their UTF-8 bytes.
\<close>

definition white_space :: "string list" where
  "white_space =
     [[CHR 0x09], [CHR 0x0A], [CHR 0x0B], [CHR 0x0C], [CHR 0x0D], [CHR 0x20],
      [CHR 0xC2, CHR 0xA0], [CHR 0xE1, CHR 0x9A, CHR 0x80],
      [CHR 0xE2, CHR 0x80, CHR 0x80], [CHR 0xE2, CHR 0x80, CHR 0x81],
      [CHR 0xE2, CHR 0x80, CHR 0x82], [CHR 0xE2, CHR 0x80, CHR 0x83],
      [CHR 0xE2, CHR 0x80, CHR 0x84], [CHR 0xE2, CHR 0x80, CHR 0x85],
      [CHR 0xE2, CHR 0x80, CHR 0x86], [CHR 0xE2, CHR 0x80, CHR 0x87],
      [CHR 0xE2, CHR 0x80, CHR 0x88], [CHR 0xE2, CHR 0x80, CHR 0x89],
      [CHR 0xE2, CHR 0x80, CHR 0x8A], [CHR 0xE2, CHR 0x80, CHR 0xA8],
      [CHR 0xE2, CHR 0x80, CHR 0xA9], [CHR 0xE2, CHR 0x80, CHR 0xAF],
      [CHR 0xE2, CHR 0x81, CHR 0x9F], [CHR 0xE3, CHR 0x80, CHR 0x80],
      [CHR 0xEF, CHR 0xBB, CHR 0xBF]]"

text \<open>
  \<open>strip ws n s\<close> removes from the front of \<open>s\<close> every byte sequence of \<open>ws\<close>, at most
  \<open>n\<close> of them; \<open>length s\<close> of them is all there can be.
\<close>

fun strip :: "string list \<Rightarrow> nat \<Rightarrow> string \<Rightarrow> string" where
  "strip ws 0 s = s"
| "strip ws (Suc n) s =
     (case find (\<lambda>w. take (length w) s = w) ws of
        None \<Rightarrow> s
      | Some w \<Rightarrow> strip ws n (drop (length w) s))"

definition trimStart :: "string \<Rightarrow> string" where
  "trimStart s = strip white_space (length s) s"

definition trimEnd :: "string \<Rightarrow> string" where
  "trimEnd s = rev (strip (map rev white_space) (length s) (rev s))"

definition trim :: "string \<Rightarrow> string" where
  "trim s = trimEnd (trimStart s)"

text \<open>\<open>(e as any)?.message || ''\<close>: the message, or the empty string.\<close>

definition message_or_empty :: "js_error \<Rightarrow> string" where
  "message_or_empty e =
     (case e of
        Object x \<Rightarrow> (case message x of None \<Rightarrow> [] | Some m \<Rightarrow> m)
      | _ \<Rightarrow> [])"

text \<open>
  \<open>(error as Error).message\<close> in a string concatenation: reading the property of \<open>null\<close>
  or \<open>undefined\<close> throws a TypeError; an undefined message reads "undefined".
\<close>

definition message_text :: "js_error \<Rightarrow> string" where
  "message_text e =
     (case e of
        Object x \<Rightarrow> (case message x of None \<Rightarrow> ''undefined'' | Some m \<Rightarrow> m)
      | _ \<Rightarrow> ''undefined'')"

definition read_message :: "js_error \<Rightarrow> js_error + string" where
  "read_message e = (case e of Nullish \<Rightarrow> Inl TypeError | _ \<Rightarrow> Inr (message_text e))"

subsection \<open>Sequencing, try/catch and finally\<close>

type_synonym 'a step = "(js_error + 'a) \<times> effect list"

definition emit :: "effect list \<Rightarrow> unit step" where
  "emit es = (Inr (), es)"

definition throw :: "js_error \<Rightarrow> 'a step" where
  "throw e = (Inl e, [])"

definition of_result :: "js_error + 'a \<Rightarrow> 'a step" where
  "of_result r = (r, [])"

definition call :: "effect \<Rightarrow> js_error + 'a \<Rightarrow> 'a step" where
  "call ev r = (r, [ev])"

definition prepend :: "effect list \<Rightarrow> 'a step \<Rightarrow> 'a step" where
  "prepend es m = (fst m, es @ snd m)"

definition andThen :: "'a step \<Rightarrow> ('a \<Rightarrow> 'b step) \<Rightarrow> 'b step" where
  "andThen m f =
     (case fst m of
        Inl e \<Rightarrow> (Inl e, snd m)
      | Inr x \<Rightarrow> (fst (f x), snd m @ snd (f x)))"

definition try_catch :: "'a step \<Rightarrow> (js_error \<Rightarrow> 'a step) \<Rightarrow> 'a step" where
  "try_catch m h =
     (case fst m of
        Inl e \<Rightarrow> (fst (h e), snd m @ snd (h e))
      | Inr x \<Rightarrow> m)"

definition try_finally :: "'a step \<Rightarrow> effect list \<Rightarrow> 'a step" where
  "try_finally m fin = (fst m, snd m @ fin)"


section \<open>Module level: the program identifier\<close>

definition FALLBACK_PROGRAM_ID :: string where
  "FALLBACK_PROGRAM_ID = ''GgEMjntpZKxcUxdkGkJzqkufYzdoSmezRJWHVTk3dr2h''"

definition LAMPORTS_PER_SOL :: int where
  "LAMPORTS_PER_SOL = 1000000000"

text \<open>
  \<open>programID\<close> starts as \<open>null\<close> and is assigned only when the IDL address is a
  non-empty string and the \<open>PublicKey\<close> constructor returns. A constructor error, and in
  \<open>page.tsx\<close> and the first iteration the later check of the IDL structure, end in a
  \<open>catch\<close> that only warns.
\<close>

definition programID :: "env \<Rightarrow> pubkey option" where
  "programID env =
     (case idl_address (idl_file env) of
        JString a \<Rightarrow>
          (if a \<noteq> [] then
             (case new_PublicKey env a of Inl e \<Rightarrow> None | Inr p \<Rightarrow> Some p)
           else None)
      | _ \<Rightarrow> None)"

text \<open>\<open>programID ?? new PublicKey(FALLBACK_PROGRAM_ID)\<close>, a value that may be null.\<close>

definition runtimeProgramID :: "env \<Rightarrow> js_error + pubkey option" where
  "runtimeProgramID env =
     (case programID env of
        Some p \<Rightarrow> Inr (Some p)
      | None \<Rightarrow>
          (case new_PublicKey env FALLBACK_PROGRAM_ID of
             Inl e \<Rightarrow> Inl e
           | Inr p \<Rightarrow> Inr (Some p)))"

text \<open>The same expression followed by the guard \<open>if (!runtimeProgramID) throw ...\<close>.\<close>

definition resolveProgramID :: "env \<Rightarrow> js_error + pubkey" where
  "resolveProgramID env =
     (case runtimeProgramID env of
        Inl e \<Rightarrow> Inl e
      | Inr None \<Rightarrow> Inl (Error ''Program ID is not available. Please check idl.js.'')
      | Inr (Some p) \<Rightarrow> Inr p)"

text \<open>The memoized iteration uses the expression without the guard.\<close>

definition runtimeProgramID_memo :: "env \<Rightarrow> js_error + pubkey" where
  "runtimeProgramID_memo env =
     (case programID env of
        Some p \<Rightarrow> Inr p
      | None \<Rightarrow> new_PublicKey env FALLBACK_PROGRAM_ID)"

section \<open>getProvider and ensureBalance\<close>

text \<open>The provider is represented by the public key of its wallet.\<close>

definition getProvider :: "env \<Rightarrow> js_error + pubkey" where
  "getProvider env =
     (case window_solana env of
        None \<Rightarrow> Inl (Error ''Phantom wallet not available. Please install Phantom Wallet.'')
      | Some w \<Rightarrow>
          if \<not> truthy (isPhantom w) then
            Inl (Error ''Phantom wallet not available. Please install Phantom Wallet.'')
          else if \<not> truthy (isConnected w) then
            Inl (Error ''Wallet is not connected. Please connect the wallet first.'')
          else
            (case solana_publicKey w of
               None \<Rightarrow> Inl (Error ''Wallet is not connected. Please connect the wallet first.'')
             | Some k \<Rightarrow> Inr k))"

text \<open>
  \<open>getBalance env 0\<close> is the outcome of the first balance request of a handler run,
  \<open>getBalance env 1\<close> that of the second one (the new balance after an airdrop).
  \<open>confirmTransaction env 0\<close> is the outcome of confirming the airdrop.
\<close>

definition ensureBalance :: "env \<Rightarrow> int \<Rightarrow> unit step" where
  "ensureBalance env minLamports =
     try_catch
       (andThen (call GetBalance (getBalance env 0)) (\<lambda>balance.
          if balance < minLamports then
            andThen (call (RequestAirdrop minLamports) (requestAirdrop env)) (\<lambda>sig.
            andThen (call ConfirmTransaction (confirmTransaction env 0)) (\<lambda>_.
            andThen (emit [Timeout 1000]) (\<lambda>_.
            andThen (call GetBalance (getBalance env 1)) (\<lambda>newBal.
            emit []))))
          else emit []))
       (\<lambda>e. emit [ConsoleWarn])"

definition ensureBalance_memo :: "env \<Rightarrow> int \<Rightarrow> unit step" where
  "ensureBalance_memo env minLamports =
     try_catch
       (andThen (call GetBalance (getBalance env 0)) (\<lambda>balance.
          if balance < minLamports then
            andThen (call (RequestAirdrop minLamports) (requestAirdrop env)) (\<lambda>sig.
            andThen (call ConfirmTransaction (confirmTransaction env 0)) (\<lambda>_.
            emit [Timeout 1000]))
          else emit []))
       (\<lambda>e. emit [ConsoleWarn])"

section \<open>getCampaigns\<close>

text \<open>The \<open>for\<close> loop of \<open>page.tsx\<close>: each account is fetched inside its own try/catch.\<close>

fun fetch_loop :: "env \<Rightarrow> pubkey list \<Rightarrow> campaignAccount list \<Rightarrow> (campaignAccount list) step" where
  "fetch_loop env [] campaignsData = (Inr campaignsData, [])"
| "fetch_loop env (pk # rest) campaignsData =
     (case fetch env pk of
        Inr a \<Rightarrow>
          prepend [FetchCampaign pk]
            (fetch_loop env rest (campaignsData @ [\<lparr>account_publicKey = pk, account = a\<rparr>]))
      | Inl e \<Rightarrow>
          prepend [FetchCampaign pk, ConsoleWarn] (fetch_loop env rest campaignsData))"

text \<open>
  The \<open>catch\<close> block logs the value and then reads its \<open>message\<close>; for \<open>null\<close> or
  \<open>undefined\<close> the read throws, out of the \<open>catch\<close> block.
\<close>

definition getCampaigns_catch :: "js_error \<Rightarrow> unit step" where
  "getCampaigns_catch err =
     andThen (emit [ConsoleError]) (\<lambda>_.
     andThen (of_result (read_message err)) (\<lambda>m.
     emit [SetWalletStatus (''Error fetching campaigns: '' @ m)]))"

definition getCampaigns :: "env \<Rightarrow> state \<Rightarrow> unit step" where
  "getCampaigns env r =
     (if \<not> isWalletConnected r then emit []
      else
        andThen (emit [SetLoading True]) (\<lambda>_.
          try_finally
            (try_catch
               (andThen (of_result (getProvider env)) (\<lambda>provider.
                andThen (of_result (resolveProgramID env)) (\<lambda>rid.
                andThen (call (NewProgram rid) (new_Program env)) (\<lambda>_.
                andThen (call (GetProgramAccounts rid) (getProgramAccounts env)) (\<lambda>campaignAccounts.
                andThen (fetch_loop env campaignAccounts []) (\<lambda>campaignsData.
                emit [SetCampaigns campaignsData]))))))
               getCampaigns_catch)
            [SetLoading False]))"

text \<open>
  The memoized iteration maps an async callback over the accounts and awaits
  \<open>Promise.all\<close> of the promises. \<open>map\<close> runs each callback up to its first \<open>await\<close>, so
  every fetch is issued, in the order of the accounts, before any of them settles; the
  \<open>catch\<close> of a callback runs when its fetch is rejected, and \<open>Promise.all\<close> resolves when
  all callbacks have returned. A callback returns \<open>null\<close> for an account whose fetch
  failed, and \<open>filter(Boolean)\<close> drops the nulls. The warnings carry no data here, so the
  order in which the rejections arrive does not show.
\<close>

definition fetch_or_null :: "env \<Rightarrow> pubkey \<Rightarrow> campaignAccount option" where
  "fetch_or_null env pk =
     (case fetch env pk of
        Inr a \<Rightarrow> Some \<lparr>account_publicKey = pk, account = a\<rparr>
      | Inl e \<Rightarrow> None)"

definition Promise_all :: "env \<Rightarrow> pubkey list \<Rightarrow> (campaignAccount option list) step" where
  "Promise_all env campaignAccounts =
     (Inr (map (fetch_or_null env) campaignAccounts),
      map FetchCampaign campaignAccounts
      @ map (\<lambda>pk. ConsoleWarn) (filter (\<lambda>pk. isl (fetch env pk)) campaignAccounts))"

fun filter_Boolean :: "'a option list \<Rightarrow> 'a list" where
  "filter_Boolean [] = []"
| "filter_Boolean (None # xs) = filter_Boolean xs"
| "filter_Boolean (Some x # xs) = x # filter_Boolean xs"

definition getCampaigns_memo :: "env \<Rightarrow> state \<Rightarrow> unit step" where
  "getCampaigns_memo env r =
     (if \<not> isWalletConnected r then emit []
      else
        andThen (emit [SetLoading True]) (\<lambda>_.
          try_finally
            (try_catch
               (andThen (of_result (getProvider env)) (\<lambda>provider.
                andThen (of_result (runtimeProgramID_memo env)) (\<lambda>rid.
                andThen (call (NewProgram rid) (new_Program env)) (\<lambda>_.
                andThen (call (GetProgramAccounts rid) (getProgramAccounts env)) (\<lambda>campaignAccounts.
                andThen (Promise_all env campaignAccounts) (\<lambda>campaignsData.
                emit [SetCampaigns (filter_Boolean campaignsData)]))))))
               getCampaigns_catch)
            [SetLoading False]))"


section \<open>createCampaign\<close>

definition maxAttempts :: nat where
  "maxAttempts = 4"

definition thresholdLamports :: int where
  "thresholdLamports = \<lfloor>(1 / 10 :: rat) * of_int LAMPORTS_PER_SOL\<rfloor>"

definition retriable :: "js_error \<Rightarrow> bool" where
  "retriable e =
     (str_includes (message_or_empty e) ''Blockhash not found''
      \<or> str_includes (message_or_empty e) ''blockhash expired'')"

text \<open>
  The retry loop of \<open>page.tsx\<close>. \<open>sendAndConfirm env k\<close> is the outcome of the \<open>k\<close>-th
  send, \<open>getLatestBlockhash env k\<close> that of the refresh after the \<open>k\<close>-th send failed
  (\<open>getLatestBlockhash env 0\<close>: the request before the loop). \<open>bh\<close> is the transaction's
  \<open>recentBlockhash\<close>. The refresh stands in the \<open>catch\<close> block with no handler of its
  own: its error leaves the loop.
\<close>

function send_loop :: "env \<Rightarrow> nat \<Rightarrow> js_error option \<Rightarrow> string \<Rightarrow> (js_error option) step" where
  "send_loop env attempt lastErr bh =
     (if attempt < maxAttempts then
        (case sendAndConfirm env (attempt + 1) of
           Inr signature \<Rightarrow> (Inr None, [SendAndConfirm bh])
         | Inl e \<Rightarrow>
             if retriable e then
               (case getLatestBlockhash env (attempt + 1) of
                  Inl e' \<Rightarrow> (Inl e', [SendAndConfirm bh, ConsoleWarn, GetLatestBlockhash])
                | Inr latest \<Rightarrow>
                    prepend [SendAndConfirm bh, ConsoleWarn, GetLatestBlockhash,
                             Timeout (800 * (attempt + 1))]
                      (send_loop env (attempt + 1) (Some e) latest))
             else (Inr (Some e), [SendAndConfirm bh, ConsoleWarn]))
      else (Inr lastErr, []))"
  by pat_completeness auto
termination
  by (relation "measure (\<lambda>(env, attempt, lastErr, bh). maxAttempts - attempt)") auto

text \<open>
  The loop from \<open>attempt = 0\<close>, \<open>lastErr = null\<close>, then \<open>if (lastErr) throw lastErr\<close>:
  a rejection with a falsy value is not thrown again.
\<close>

definition throw_if_truthy :: "js_error option \<Rightarrow> unit step" where
  "throw_if_truthy lastErr =
     (case lastErr of
        Some e \<Rightarrow> if truthy_value e then throw e else emit []
      | None \<Rightarrow> emit [])"

definition send_with_retry :: "env \<Rightarrow> string \<Rightarrow> unit step" where
  "send_with_retry env bh = andThen (send_loop env 0 None bh) throw_if_truthy"

definition isDeclaredMismatch :: "js_error \<Rightarrow> bool" where
  "isDeclaredMismatch e =
     (case e of
        Object x \<Rightarrow>
          error_code x = Some 4100
          \<or> (err_name x = Some ''AnchorError''
              \<and> (error_name x = Some ''DeclaredProgramIdMismatch''
                   \<or> str_includes (message_or_empty e) ''DeclaredProgramIdMismatch''))
      | _ \<Rightarrow> False)"

definition userRejected :: "js_error \<Rightarrow> bool" where
  "userRejected e =
     (str_includes (message_or_empty e) ''User rejected''
      \<or> str_includes (message_or_empty e) ''User rejected the request'')"

definition mismatch_status :: string where
  "mismatch_status =
     ''Error creating campaign: DeclaredProgramIdMismatch. Check '' @ [CHR 0x60] @ ''src/idl.js''
     @ [CHR 0x60] @ '' address or use the correct program id.''"

text \<open>
  The \<open>catch\<close> block of \<open>createCampaign\<close>. Its last branch reads \<open>(error as Error).message\<close>,
  which throws for \<open>null\<close> and \<open>undefined\<close>.
\<close>

definition create_catch :: "js_error \<Rightarrow> unit step" where
  "create_catch e =
     andThen (emit [ConsoleError]) (\<lambda>_.
       if isDeclaredMismatch e then emit [SetWalletStatus mismatch_status]
       else if userRejected e then
         emit [SetWalletStatus
                 ''Transaction cancelled by user. Please approve the transaction in your wallet.'']
       else
         andThen (of_result (read_message e)) (\<lambda>m.
         emit [SetWalletStatus (''Error creating campaign: '' @ m)]))"

definition idl_valid :: "idl_js \<Rightarrow> bool" where
  "idl_valid i = (idl_instructions i \<and> idl_accounts i \<and> idl_types i)"

text \<open>
  \<open>createCampaign\<close> of \<open>page.tsx\<close> in two parts. \<open>create_submit\<close> is what follows the
  \<open>ensureBalance\<close> call inside the \<open>try\<close>: build the instruction and the transaction,
  simulate, send with retry, report, clear the form and list the campaigns again.
\<close>

definition create_submit :: "env \<Rightarrow> state \<Rightarrow> unit step" where
  "create_submit env r =
     andThen (call BuildInstruction (instruction env)) (\<lambda>_.
     andThen (call GetLatestBlockhash (getLatestBlockhash env 0)) (\<lambda>latestBlockhash.
     andThen (call SimulateTransaction (simulateTransaction env)) (\<lambda>simulation.
     andThen (send_with_retry env latestBlockhash) (\<lambda>_.
     andThen (emit [SetWalletStatus ''Campaign created successfully!'',
                    SetCampaignName [], SetCampaignDescription []]) (\<lambda>_.
     getCampaigns env r)))))"

definition createCampaign :: "env \<Rightarrow> state \<Rightarrow> unit step" where
  "createCampaign env r =
     try_finally
       (try_catch
          (if \<not> isWalletConnected r \<or> \<not> truthy_str (publicKey r) then
             throw (Error ''Wallet is not connected. Please connect the wallet first.'')
           else if trim (campaignName r) = [] then
             emit [SetWalletStatus ''Please enter a campaign name'']
           else if \<not> idl_valid (idl_file env) then
             throw (Error ''Invalid IDL data. Please check idl.js.'')
           else
             andThen (emit [SetCreatingCampaign True]) (\<lambda>_.
             andThen (of_result (getProvider env)) (\<lambda>provider.
             andThen (of_result (resolveProgramID env)) (\<lambda>rid.
             andThen (call (NewProgram rid) (new_Program env)) (\<lambda>_.
             andThen (call (FindProgramAddress rid) (findProgramAddress env)) (\<lambda>campaign.
             andThen (call FetchNullable (fetchNullable env)) (\<lambda>campaignAccount.
               case campaignAccount of
                 Some a \<Rightarrow>
                   emit [SetWalletStatus ''Campaign already exists! Please try a different name.'',
                         SetCreatingCampaign False]
               | None \<Rightarrow>
                   andThen (ensureBalance env thresholdLamports) (\<lambda>_.
                   create_submit env r))))))))
          create_catch)
       [SetCreatingCampaign False]"

subsection \<open>The first iteration\<close>

text \<open>
  Here each attempt is a \<open>program.rpc.create\<close> call (\<open>rpc_create env k\<close> is the outcome of
  the \<open>k\<close>-th), and the refresh after a failed attempt is wrapped in a try/catch that
  ignores its error. \<open>confirmTransaction env k\<close> is the outcome of the confirmation in the
  refresh after the \<open>k\<close>-th attempt.
\<close>

definition refresh_it1 :: "env \<Rightarrow> nat \<Rightarrow> unit step" where
  "refresh_it1 env k =
     try_catch
       (andThen (call GetLatestBlockhash (getLatestBlockhash env k)) (\<lambda>latest.
        andThen (call ConfirmTransaction (confirmTransaction env k)) (\<lambda>_.
        emit [])))
       (\<lambda>inner. emit [])"

function rpc_loop :: "env \<Rightarrow> nat \<Rightarrow> js_error option \<Rightarrow> (js_error option) step" where
  "rpc_loop env attempt lastErr =
     (if attempt < maxAttempts then
        (case rpc_create env (attempt + 1) of
           Inr signature \<Rightarrow> (Inr None, [RpcCreate])
         | Inl e \<Rightarrow>
             if retriable e then
               prepend ([RpcCreate, ConsoleWarn] @ snd (refresh_it1 env (attempt + 1))
                        @ [Timeout (800 * (attempt + 1))])
                 (rpc_loop env (attempt + 1) (Some e))
             else (Inr (Some e), [RpcCreate, ConsoleWarn]))
      else (Inr lastErr, []))"
  by pat_completeness auto
termination
  by (relation "measure (\<lambda>(env, attempt, lastErr). maxAttempts - attempt)") auto

definition rpc_with_retry :: "env \<Rightarrow> unit step" where
  "rpc_with_retry env = andThen (rpc_loop env 0 None) throw_if_truthy"

definition diagnostics_it1 :: "env \<Rightarrow> pubkey \<Rightarrow> unit step" where
  "diagnostics_it1 env rid =
     try_catch
       (andThen (call (GetAccountInfo rid) (getAccountInfo env)) (\<lambda>pInfo. emit []))
       (\<lambda>diagErr. emit [ConsoleWarn])"

text \<open>
  The \<open>catch\<close> of the first iteration evaluates
  \<open>(programID ?? new PublicKey(FALLBACK_PROGRAM_ID)).toString()\<close> in its mismatch branch,
  outside any try.
\<close>

definition create_catch_it1 :: "env \<Rightarrow> js_error \<Rightarrow> unit step" where
  "create_catch_it1 env e =
     andThen (emit [ConsoleError]) (\<lambda>_.
       if isDeclaredMismatch e then
         andThen (emit [ConsoleError]) (\<lambda>_.
         andThen (of_result (runtimeProgramID env)) (\<lambda>usedRuntimeId.
         emit [SetWalletStatus mismatch_status]))
       else if userRejected e then
         emit [SetWalletStatus
                 ''Transaction cancelled by user. Please approve the transaction in your wallet.'']
       else
         andThen (of_result (read_message e)) (\<lambda>m.
         emit [SetWalletStatus (''Error creating campaign: '' @ m)]))"

text \<open>What follows the \<open>ensureBalance\<close> call: diagnostics, the retry loop, the report.\<close>

definition create_submit_it1 :: "env \<Rightarrow> pubkey \<Rightarrow> pubkey \<Rightarrow> unit step" where
  "create_submit_it1 env rid campaign =
     andThen (diagnostics_it1 env rid) (\<lambda>_.
     andThen (rpc_with_retry env) (\<lambda>_.
     emit [SetWalletStatus (''Campaign created successfully! Address: '' @ campaign)]))"

definition createCampaign_it1 :: "env \<Rightarrow> state \<Rightarrow> unit step" where
  "createCampaign_it1 env r =
     try_catch
       (if \<not> isWalletConnected r \<or> \<not> truthy_str (publicKey r) then
          throw (Error ''Wallet is not connected. Please connect the wallet first.'')
        else if \<not> idl_valid (idl_file env) then
          throw (Error ''Invalid IDL data. Please check idl.js.'')
        else
          andThen (of_result (getProvider env)) (\<lambda>provider.
          andThen (of_result (resolveProgramID env)) (\<lambda>rid.
          andThen (call (NewProgram rid) (new_Program env)) (\<lambda>_.
          andThen (call (FindProgramAddress rid) (findProgramAddress env)) (\<lambda>campaign.
          andThen (ensureBalance env thresholdLamports) (\<lambda>_.
          create_submit_it1 env rid campaign))))))
       (create_catch_it1 env)"


section \<open>donateToCampaign\<close>

text \<open>
  \<open>parseFloat env\<close> is JavaScript's \<open>parseFloat\<close>, \<open>times env\<close> and \<open>divide_by env\<close> the
  operators \<open>*\<close> and \<open>/\<close> on doubles, and \<open>numberToString env\<close> the text of a number in a
  template literal. \<open>instruction env\<close> is the outcome of building the instruction, the
  \<open>BN\<close> constructor included.
\<close>

definition lamports_of :: "env \<Rightarrow> number \<Rightarrow> number" where
  "lamports_of env amount = Math_floor (times env amount (Finite (of_int LAMPORTS_PER_SOL)))"

definition insufficient_balance :: "env \<Rightarrow> int \<Rightarrow> number \<Rightarrow> js_error" where
  "insufficient_balance env balance amount =
     Error (''Insufficient balance. You have ''
            @ numberToString env
                (divide_by env (Finite (of_int balance)) (Finite (of_int LAMPORTS_PER_SOL)))
            @ '' SOL but trying to donate '' @ numberToString env amount @ '' SOL'')"

definition donated_status :: "env \<Rightarrow> number \<Rightarrow> string" where
  "donated_status env amount =
     ''Successfully donated '' @ numberToString env amount @ '' SOL to campaign!''"

definition donate_catch :: "js_error \<Rightarrow> unit step" where
  "donate_catch e =
     andThen (emit [ConsoleError]) (\<lambda>_.
       if userRejected e then emit [SetWalletStatus ''Donation cancelled by user.'']
       else
         andThen (of_result (read_message e)) (\<lambda>m.
         emit [SetWalletStatus (''Error donating to campaign: '' @ m)]))"

definition donateToCampaign :: "env \<Rightarrow> state \<Rightarrow> pubkey \<Rightarrow> unit step" where
  "donateToCampaign env r campaignPubkey =
     try_finally
       (try_catch
          (if \<not> isWalletConnected r \<or> \<not> truthy_str (publicKey r) then
             throw (Error ''Wallet is not connected. Please connect the wallet first.'')
           else
             (let amount = parseFloat env (donationAmount r) in
                if isNaN amount \<or> le_zero amount then
                  emit [SetWalletStatus ''Please enter a valid donation amount'']
                else
                  andThen (emit [SetDonatingCampaign (Some campaignPubkey)]) (\<lambda>_.
                  andThen (of_result (getProvider env)) (\<lambda>provider.
                  andThen (of_result (resolveProgramID env)) (\<lambda>rid.
                  andThen (call (NewProgram rid) (new_Program env)) (\<lambda>_.
                  andThen (call GetBalance (getBalance env 0)) (\<lambda>balance.
                    if less_number (Finite (of_int balance)) (lamports_of env amount) then
                      throw (insufficient_balance env balance amount)
                    else
                      andThen (call BuildInstruction (instruction env)) (\<lambda>_.
                      andThen (call GetLatestBlockhash (getLatestBlockhash env 0)) (\<lambda>latestBlockhash.
                      andThen (call (SendAndConfirm latestBlockhash) (sendAndConfirm env 1)) (\<lambda>signature.
                      andThen (emit [SetWalletStatus (donated_status env amount)]) (\<lambda>_.
                      getCampaigns env r)))))))))))
          donate_catch)
       [SetDonatingCampaign None, SetDonationAmount ''0.1'']"

text \<open>
  In the memoized iteration the two validations return before the \<open>try\<close>, so the
  \<open>finally\<close> block does not run for them.
\<close>

definition donate_catch_memo :: "js_error \<Rightarrow> unit step" where
  "donate_catch_memo e =
     andThen (emit [ConsoleError]) (\<lambda>_.
       if str_includes (message_or_empty e) ''User rejected'' then
         emit [SetWalletStatus ''Donation cancelled by user.'']
       else
         andThen (of_result (read_message e)) (\<lambda>m.
         emit [SetWalletStatus (''Error donating to campaign: '' @ m)]))"

definition donateToCampaign_memo :: "env \<Rightarrow> state \<Rightarrow> pubkey \<Rightarrow> unit step" where
  "donateToCampaign_memo env r campaignPubkey =
     (if \<not> isWalletConnected r \<or> \<not> truthy_str (publicKey r) then
        emit [SetWalletStatus ''Wallet is not connected'']
      else
        (let amount = parseFloat env (donationAmount r) in
           if isNaN amount \<or> le_zero amount then
             emit [SetWalletStatus ''Please enter a valid donation amount'']
           else
             andThen (emit [SetDonatingCampaign (Some campaignPubkey)]) (\<lambda>_.
               try_finally
                 (try_catch
                    (andThen (of_result (getProvider env)) (\<lambda>provider.
                     andThen (of_result (runtimeProgramID_memo env)) (\<lambda>rid.
                     andThen (call (NewProgram rid) (new_Program env)) (\<lambda>_.
                     andThen (call GetBalance (getBalance env 0)) (\<lambda>balance.
                       if less_number (Finite (of_int balance)) (lamports_of env amount) then
                         throw (insufficient_balance env balance amount)
                       else
                         andThen (call BuildInstruction (instruction env)) (\<lambda>_.
                         andThen (call GetLatestBlockhash (getLatestBlockhash env 0)) (\<lambda>latestBlockhash.
                         andThen (call (SendAndConfirm latestBlockhash) (sendAndConfirm env 1)) (\<lambda>signature.
                         andThen (emit [SetWalletStatus (donated_status env amount)]) (\<lambda>_.
                         getCampaigns_memo env r)))))))))
                    donate_catch_memo)
                 [SetDonatingCampaign None, SetDonationAmount ''0.1''])))"

section \<open>checkIfWalletIsConnected\<close>

text \<open>
  The function runs in the browser, where \<open>window\<close> is defined; \<open>window_solana env\<close> is
  \<open>window.solana\<close>, and \<open>solana_publicKey\<close> the text of its public key when it has one.
  The ghost emoji of the status text is U+1F47B in \<open>page.tsx\<close> and in the memoized
  iteration; the literal of the first iteration holds the four characters U+00F0, U+0178,
  U+2018, U+00BB instead. Both are given as the UTF-8 bytes of the files.
\<close>

definition ghost :: string where
  "ghost = [CHR 0xF0, CHR 0x9F, CHR 0x91, CHR 0xBB]"

definition ghost_it1 :: string where
  "ghost_it1 = [CHR 0xC3, CHR 0xB0, CHR 0xC5, CHR 0xB8, CHR 0xE2, CHR 0x80, CHR 0x98, CHR 0xC2, CHR 0xBB]"

text \<open>
  In \<open>page.tsx\<close> the function is created by the effect of the render \<open>r\<close> and calls the
  \<open>getCampaigns\<close> of that render.
\<close>

definition checkIfWalletIsConnected :: "env \<Rightarrow> state \<Rightarrow> unit step" where
  "checkIfWalletIsConnected env r =
     try_catch
       (case window_solana env of
          None \<Rightarrow>
            emit [SetWalletStatus (''Phantom wallet not found. Please install Phantom Wallet '' @ ghost),
                  SetIsWalletConnected False]
        | Some solana \<Rightarrow>
            if truthy (isPhantom solana) then
              (if truthy (isConnected solana) \<and> solana_publicKey solana \<noteq> None then
                 andThen (emit [SetWalletStatus ''Phantom wallet found and connected!'',
                                SetIsWalletConnected True,
                                SetPublicKey (solana_publicKey solana)]) (\<lambda>_.
                 getCampaigns env r)
               else
                 emit [SetWalletStatus ''Phantom wallet found but not connected.'',
                       SetIsWalletConnected False])
            else
              emit [SetWalletStatus (''Phantom wallet not found. Please install Phantom Wallet '' @ ghost),
                    SetIsWalletConnected False])
       (\<lambda>error. emit [ConsoleError,
                        SetWalletStatus ''Error checking wallet connection. Please try again.'',
                        SetIsWalletConnected False])"

text \<open>The effect has no dependencies: it runs for the first render only.\<close>

definition useEffect_mount :: "env \<Rightarrow> unit step" where
  "useEffect_mount env = checkIfWalletIsConnected env initialState"

definition checkIfWalletIsConnected_it1 :: "env \<Rightarrow> unit step" where
  "checkIfWalletIsConnected_it1 env =
     try_catch
       (case window_solana env of
          None \<Rightarrow>
            emit [SetWalletStatus (''Phantom wallet not found. Please install Phantom Wallet '' @ ghost_it1),
                  SetIsWalletConnected False]
        | Some solana \<Rightarrow>
            if truthy (isPhantom solana) then
              (if truthy (isConnected solana) \<and> solana_publicKey solana \<noteq> None then
                 emit [SetWalletStatus ''Phantom wallet found and connected!'',
                       SetIsWalletConnected True, SetPublicKey (solana_publicKey solana)]
               else
                 emit [SetWalletStatus ''Phantom wallet found but not connected.'',
                       SetIsWalletConnected False])
            else
              emit [SetWalletStatus (''Phantom wallet not found. Please install Phantom Wallet '' @ ghost_it1),
                    SetIsWalletConnected False])
       (\<lambda>error. emit [ConsoleError,
                        SetWalletStatus ''Error checking wallet connection. Please try again.'',
                        SetIsWalletConnected False])"

definition checkIfWalletIsConnected_memo :: "env \<Rightarrow> unit step" where
  "checkIfWalletIsConnected_memo env =
     try_catch
       (case window_solana env of
          None \<Rightarrow>
            emit [SetWalletStatus (''Phantom wallet not found. Please install Phantom Wallet '' @ ghost),
                  SetIsWalletConnected False]
        | Some solana \<Rightarrow>
            if truthy (isPhantom solana) then
              (if truthy (isConnected solana) \<and> solana_publicKey solana \<noteq> None then
                 emit [SetWalletStatus ''Phantom wallet found and connected!'',
                       SetIsWalletConnected True, SetPublicKey (solana_publicKey solana)]
               else
                 emit [SetWalletStatus ''Phantom wallet found but not connected.'',
                       SetIsWalletConnected False])
            else
              emit [SetWalletStatus (''Phantom wallet not found. Please install Phantom Wallet '' @ ghost),
                    SetIsWalletConnected False])
       (\<lambda>error. emit [ConsoleError,
                        SetWalletStatus ''Error checking wallet connection. Please try again.'',
                        SetIsWalletConnected False])"

section \<open>Observations on a run\<close>

text \<open>The send attempts of a run and the waits it inserted.\<close>

fun is_attempt :: "effect \<Rightarrow> bool" where
  "is_attempt (SendAndConfirm b) = True"
| "is_attempt RpcCreate = True"
| "is_attempt _ = False"

definition attempts :: "effect list \<Rightarrow> nat" where
  "attempts t = length (filter is_attempt t)"

fun delays :: "effect list \<Rightarrow> nat list" where
  "delays [] = []"
| "delays (Timeout d # t) = d # delays t"
| "delays (x # t) = delays t"

text \<open>
  For each send attempt of a run, in order, the waits between that attempt and the next one
  (or the end of the run).
\<close>

fun waits_after :: "effect list \<Rightarrow> nat list list" where
  "waits_after [] = []"
| "waits_after (x # t) =
     (if is_attempt x then delays (takeWhile (\<lambda>y. \<not> is_attempt y) t) # waits_after t
      else waits_after t)"

text \<open>
  The \<open>k\<close>-th send failed with a stale-blockhash message: in \<open>page.tsx\<close>, and in the first
  iteration.
\<close>

definition stale_failure :: "env \<Rightarrow> nat \<Rightarrow> bool" where
  "stale_failure env k = (case sendAndConfirm env k of Inl e \<Rightarrow> retriable e | Inr s \<Rightarrow> False)"

definition stale_failure_it1 :: "env \<Rightarrow> nat \<Rightarrow> bool" where
  "stale_failure_it1 env k = (case rpc_create env k of Inl e \<Rightarrow> retriable e | Inr s \<Rightarrow> False)"

text \<open>The recent blockhashes of the transactions a run sent, in order.\<close>

fun sent_hashes :: "effect list \<Rightarrow> string list" where
  "sent_hashes [] = []"
| "sent_hashes (SendAndConfirm b # t) = b # sent_hashes t"
| "sent_hashes (x # t) = sent_hashes t"

text \<open>The program identifiers a run passed to the client library, in order.\<close>

fun program_ids :: "effect list \<Rightarrow> pubkey list" where
  "program_ids [] = []"
| "program_ids (NewProgram p # t) = p # program_ids t"
| "program_ids (FindProgramAddress p # t) = p # program_ids t"
| "program_ids (GetAccountInfo p # t) = p # program_ids t"
| "program_ids (GetProgramAccounts p # t) = p # program_ids t"
| "program_ids (x # t) = program_ids t"

text \<open>
  The status text that the \<open>catch\<close> block of \<open>createCampaign\<close> sets for a thrown value
  other than \<open>null\<close> and \<open>undefined\<close>, and the status texts a run set, in order.
\<close>

definition create_error_status :: "js_error \<Rightarrow> string" where
  "create_error_status e =
     (if isDeclaredMismatch e then mismatch_status
      else if userRejected e then
        ''Transaction cancelled by user. Please approve the transaction in your wallet.''
      else ''Error creating campaign: '' @ message_text e)"

fun statuses :: "effect list \<Rightarrow> string list" where
  "statuses [] = []"
| "statuses (SetWalletStatus m # t) = m # statuses t"
| "statuses (x # t) = statuses t"

text \<open>Some call that \<open>ensureBalance\<close> reached has failed.\<close>

definition ensure_failed :: "env \<Rightarrow> int \<Rightarrow> bool" where
  "ensure_failed env minLamports =
     (case getBalance env 0 of
        Inl e \<Rightarrow> True
      | Inr b \<Rightarrow>
          b < minLamports
          \<and> (isl (requestAirdrop env) \<or> isl (confirmTransaction env 0) \<or> isl (getBalance env 1)))"

text \<open>
  The accounts of a listing whose fetch succeeded, each with its data, in the order of the
  listing; the accounts a run fetched, in order; and what fetching the accounts does in the
  loop of \<open>page.tsx\<close>: one fetch per account, with a warning after a failed one.
\<close>

definition fetched_campaigns :: "env \<Rightarrow> pubkey list \<Rightarrow> campaignAccount list" where
  "fetched_campaigns env accs =
     concat (map (\<lambda>pk. case fetch env pk of
                          Inl e \<Rightarrow> []
                        | Inr a \<Rightarrow> [\<lparr>account_publicKey = pk, account = a\<rparr>]) accs)"

fun fetches :: "effect list \<Rightarrow> pubkey list" where
  "fetches [] = []"
| "fetches (FetchCampaign pk # t) = pk # fetches t"
| "fetches (x # t) = fetches t"

definition fetch_trace :: "env \<Rightarrow> pubkey list \<Rightarrow> effect list" where
  "fetch_trace env accs =
     concat (map (\<lambda>pk. if isl (fetch env pk) then [FetchCampaign pk, ConsoleWarn]
                         else [FetchCampaign pk]) accs)"

subsection \<open>Path conditions\<close>

text \<open>
  A run of \<open>createCampaign\<close> reaches the \<open>ensureBalance\<close> call (\<open>create_prepared\<close>), and
  in \<open>page.tsx\<close> goes on to the retry loop with the recent blockhash \<open>bh\<close>
  (\<open>create_reaches_send\<close>); a run of \<open>getCampaigns\<close> reaches the request for the program
  accounts; a call of \<open>donateToCampaign\<close> passes the validations of the wallet and of the
  amount.
\<close>

definition create_prepared :: "env \<Rightarrow> state \<Rightarrow> bool" where
  "create_prepared env r =
     (isWalletConnected r \<and> truthy_str (publicKey r) \<and> trim (campaignName r) \<noteq> []
      \<and> idl_valid (idl_file env) \<and> \<not> isl (getProvider env) \<and> \<not> isl (resolveProgramID env)
      \<and> \<not> isl (new_Program env) \<and> \<not> isl (findProgramAddress env)
      \<and> fetchNullable env = Inr None)"

definition create_prepared_it1 :: "env \<Rightarrow> state \<Rightarrow> bool" where
  "create_prepared_it1 env r =
     (isWalletConnected r \<and> truthy_str (publicKey r) \<and> idl_valid (idl_file env)
      \<and> \<not> isl (getProvider env) \<and> \<not> isl (resolveProgramID env)
      \<and> \<not> isl (new_Program env) \<and> \<not> isl (findProgramAddress env))"

definition create_reaches_send :: "env \<Rightarrow> state \<Rightarrow> string \<Rightarrow> bool" where
  "create_reaches_send env r bh =
     (create_prepared env r \<and> instruction env = Inr () \<and> getLatestBlockhash env 0 = Inr bh
      \<and> simulateTransaction env = Inr ())"

definition listing_reached :: "env \<Rightarrow> state \<Rightarrow> bool" where
  "listing_reached env r =
     (isWalletConnected r \<and> \<not> isl (getProvider env) \<and> \<not> isl (resolveProgramID env)
      \<and> \<not> isl (new_Program env))"

definition donate_validated :: "env \<Rightarrow> state \<Rightarrow> bool" where
  "donate_validated env r =
     (isWalletConnected r \<and> truthy_str (publicKey r)
      \<and> \<not> isNaN (parseFloat env (donationAmount r))
      \<and> \<not> le_zero (parseFloat env (donationAmount r)))"

subsection \<open>Sample environments\<close>

text \<open>
  An environment in which every external call succeeds but the fetch of account "B", and a
  render with a connected wallet. \<open>parseFloat\<close> and the number text are given at the
  texts the examples use ("0.25", "0.5", "0"), whose numbers, products and quotients are
  exact in doubles; the refreshed blockhashes are told apart by a growing suffix.
\<close>

definition sample_wallet :: wallet where
  "sample_wallet = \<lparr>isPhantom = Some True, isConnected = Some True, solana_publicKey = Some ''WalletKey''\<rparr>"

definition sample_idl :: idl_js where
  "sample_idl = \<lparr>idl_address = JString ''ProgramKey'', idl_instructions = True,
                  idl_accounts = True, idl_types = True\<rparr>"

definition sample_data :: campaignData where
  "sample_data = \<lparr>admin = ''WalletKey'', campaign_name = ''Park'', description = ''Trees'',
                   amountDonated = 0\<rparr>"

definition sample_env :: env where
  "sample_env =
     \<lparr>window_solana = Some sample_wallet,
      idl_file = sample_idl,
      new_PublicKey = (\<lambda>t. if t = [] then Inl (Error ''Invalid public key input'') else Inr t),
      new_Program = Inr (),
      findProgramAddress = Inr ''CampaignKey'',
      fetchNullable = Inr None,
      getBalance = (\<lambda>k. Inr 500000000),
      requestAirdrop = Inr ''airdrop'',
      confirmTransaction = (\<lambda>k. Inr ()),
      instruction = Inr (),
      getLatestBlockhash = (\<lambda>k. Inr (''hash'' @ replicate k (CHR ''+''))),
      simulateTransaction = Inr (),
      sendAndConfirm = (\<lambda>k. Inr ''signature''),
      rpc_create = (\<lambda>k. Inr ''signature''),
      getAccountInfo = Inr (),
      getProgramAccounts = Inr [''A'', ''B'', ''C''],
      fetch = (\<lambda>pk. if pk = ''B'' then Inl (Error ''Account does not exist'') else Inr sample_data),
      parseFloat =
        (\<lambda>t. if t = ''0.25'' then Finite (1 / 4) else if t = ''0.5'' then Finite (1 / 2)
             else if t = ''0'' then Finite 0 else NaN),
      times =
        (\<lambda>a b. case a of
                 Finite p \<Rightarrow> (case b of Finite q \<Rightarrow> Finite (p * q) | _ \<Rightarrow> NaN)
               | _ \<Rightarrow> NaN),
      divide_by =
        (\<lambda>a b. case a of
                 Finite p \<Rightarrow> (case b of Finite q \<Rightarrow> if q = 0 then NaN else Finite (p / q) | _ \<Rightarrow> NaN)
               | _ \<Rightarrow> NaN),
      numberToString =
        (\<lambda>x. if x = Finite (1 / 4) then ''0.25'' else if x = Finite (1 / 2) then ''0.5''
             else if x = Finite 0 then ''0'' else ''NaN'')\<rparr>"

definition sample_state :: state where
  "sample_state =
     \<lparr>walletStatus = None, isWalletConnected = True, publicKey = Some ''WalletKey'',
      campaigns = [], loading = False, creatingCampaign = False, donatingCampaign = None,
      donationAmount = ''0.25'', campaignName = ''Park'', campaignDescription = []\<rparr>"

text \<open>The wallet is empty and the faucet refuses the airdrop.\<close>

definition faucet_down_env :: env where
  "faucet_down_env =
     sample_env\<lparr>getBalance := (\<lambda>k. Inr 0),
                 requestAirdrop := Inl (Error ''429 Too Many Requests'')\<rparr>"

text \<open>
  Sends that fail with a stale blockhash: all of them, the first two only, and all of them
  with a blockhash refresh that fails as well.
\<close>

definition blockhash_error :: js_error where
  "blockhash_error = Error ''Blockhash not found''"

definition all_fail_env :: env where
  "all_fail_env =
     sample_env\<lparr>sendAndConfirm := (\<lambda>k. Inl blockhash_error),
                 rpc_create := (\<lambda>k. Inl blockhash_error)\<rparr>"

definition two_fail_env :: env where
  "two_fail_env =
     sample_env\<lparr>sendAndConfirm := (\<lambda>k. if k \<le> 2 then Inl blockhash_error else Inr ''signature''),
                 rpc_create := (\<lambda>k. if k \<le> 2 then Inl blockhash_error else Inr ''signature'')\<rparr>"

definition refresh_fail_env :: env where
  "refresh_fail_env =
     all_fail_env\<lparr>getLatestBlockhash :=
        (\<lambda>k. if k = 0 then Inr ''hash'' else Inl (Error ''429 Too Many Requests''))\<rparr>"

text \<open>Every send is rejected with \<open>undefined\<close>.\<close>

definition undefined_rejection_env :: env where
  "undefined_rejection_env =
     sample_env\<lparr>sendAndConfirm := (\<lambda>k. Inl Nullish), rpc_create := (\<lambda>k. Inl Nullish)\<rparr>"

text \<open>The user rejects the transaction in the wallet.\<close>

definition rejected_error :: js_error where
  "rejected_error = Error ''User rejected the request.''"

definition rejected_env :: env where
  "rejected_env =
     sample_env\<lparr>sendAndConfirm := (\<lambda>k. Inl rejected_error),
                 rpc_create := (\<lambda>k. Inl rejected_error)\<rparr>"

text \<open>
  A \<open>PublicKey\<close> constructor that accepts texts of 44 characters only (it rejects the
  address of the sample IDL); an IDL without address; a browser without wallet object.
\<close>

definition strict_env :: env where
  "strict_env =
     sample_env\<lparr>new_PublicKey :=
        (\<lambda>t. if length t = 44 then Inr t else Inl (Error ''Invalid public key input''))\<rparr>"

definition no_address_env :: env where
  "no_address_env = sample_env\<lparr>idl_file := sample_idl\<lparr>idl_address := JUndefined\<rparr>\<rparr>"

definition no_wallet_env :: env where
  "no_wallet_env = sample_env\<lparr>window_solana := None\<rparr>"

text \<open>
  The amount text "4.1" and a balance of 4099999999 lamports. The double next to 4.1 is
  2308094809027379 / 2^49, below 4.1, and its product with 10^9 is rounded to
  8598323199999999 / 2^21 = 4099999999.9999995.
\<close>

definition rounding_env :: env where
  "rounding_env =
     sample_env\<lparr>getBalance := (\<lambda>k. Inr 4099999999),
       parseFloat :=
         (\<lambda>t. if t = ''4.1'' then Finite (2308094809027379 / 562949953421312) else NaN),
       times :=
         (\<lambda>a b. if a = Finite (2308094809027379 / 562949953421312) \<and> b = Finite 1000000000
                then Finite (8598323199999999 / 2097152) else NaN),
       numberToString :=
         (\<lambda>x. if x = Finite (2308094809027379 / 562949953421312) then ''4.1'' else ''NaN'')\<rparr>"

section \<open>Properties\<close>

subsection \<open>Sequencing, state and counting lemmas\<close>

lemma fst_emit [simp]: "fst (emit es) = Inr ()" and snd_emit [simp]: "snd (emit es) = es"
  by (simp_all add: emit_def)

lemma fst_throw [simp]: "fst (throw e) = Inl e" and snd_throw [simp]: "snd (throw e) = []"
  by (simp_all add: throw_def)

lemma fst_of_result [simp]: "fst (of_result x) = x" and snd_of_result [simp]: "snd (of_result x) = []"
  by (simp_all add: of_result_def)

lemma fst_call [simp]: "fst (call ev x) = x" and snd_call [simp]: "snd (call ev x) = [ev]"
  by (simp_all add: call_def)

lemma fst_prepend [simp]: "fst (prepend es m) = fst m"
  and snd_prepend [simp]: "snd (prepend es m) = es @ snd m"
  by (simp_all add: prepend_def)

lemma fst_try_finally [simp]: "fst (try_finally m fin) = fst m"
  and snd_try_finally [simp]: "snd (try_finally m fin) = snd m @ fin"
  by (simp_all add: try_finally_def)

lemma fst_andThen: "fst (andThen m f) = (case fst m of Inl e \<Rightarrow> Inl e | Inr x \<Rightarrow> fst (f x))"
  by (simp add: andThen_def split: sum.splits)

lemma snd_andThen: "snd (andThen m f) = snd m @ (case fst m of Inl e \<Rightarrow> [] | Inr x \<Rightarrow> snd (f x))"
  by (simp add: andThen_def split: sum.splits)

lemma fst_try_catch: "fst (try_catch m h) = (case fst m of Inl e \<Rightarrow> fst (h e) | Inr x \<Rightarrow> Inr x)"
  by (simp add: try_catch_def split: sum.splits)

lemma snd_try_catch: "snd (try_catch m h) = snd m @ (case fst m of Inl e \<Rightarrow> snd (h e) | Inr x \<Rightarrow> [])"
  by (simp add: try_catch_def split: sum.splits)

lemma andThen_emit [simp]: "andThen (emit es) f = prepend es (f ())"
  by (simp add: andThen_def emit_def prepend_def)

lemma andThen_of_result_Inr [simp]: "andThen (of_result (Inr x)) f = f x"
  by (simp add: andThen_def of_result_def)

lemma andThen_of_result_Inl [simp]: "andThen (of_result (Inl e)) f = (Inl e, [])"
  by (simp add: andThen_def of_result_def)

lemma andThen_call_Inr [simp]: "andThen (call ev (Inr x)) f = prepend [ev] (f x)"
  by (simp add: andThen_def call_def prepend_def)

lemma andThen_call_Inl [simp]: "andThen (call ev (Inl e)) f = (Inl e, [ev])"
  by (simp add: andThen_def call_def)

lemma prepend_prepend [simp]: "prepend a (prepend b m) = prepend (a @ b) m"
  by (simp add: prepend_def)

lemma not_isl_Inr: "\<not> isl x \<Longrightarrow> \<exists>y. x = Inr y"
  by (cases x) simp_all

lemma commit_Nil [simp]: "commit [] s = s"
  by (simp add: commit_def)

lemma commit_Cons [simp]: "commit (x # t) s = commit t (apply_effect x s)"
  by (simp add: commit_def)

lemma commit_append [simp]: "commit (t @ u) s = commit u (commit t s)"
  by (simp add: commit_def)

lemma attempts_simps [simp]:
  "attempts [] = 0"
  "attempts (x # t) = (if is_attempt x then 1 else 0) + attempts t"
  "attempts (t @ u) = attempts t + attempts u"
  by (simp_all add: attempts_def)

lemma delays_append [simp]: "delays (t @ u) = delays t @ delays u"
  by (induction t rule: delays.induct) simp_all

lemma sent_hashes_append [simp]: "sent_hashes (t @ u) = sent_hashes t @ sent_hashes u"
  by (induction t rule: sent_hashes.induct) simp_all

lemma sent_hashes_quiet: "attempts t = 0 \<Longrightarrow> sent_hashes t = []"
  by (induction t rule: sent_hashes.induct) (simp_all split: if_splits)

lemma takeWhile_quiet: "attempts t = 0 \<Longrightarrow> takeWhile (\<lambda>y. \<not> is_attempt y) t = t"
  by (induction t) (simp_all split: if_splits)

lemma takeWhile_quiet_append:
  "attempts t = 0 \<Longrightarrow>
     takeWhile (\<lambda>y. \<not> is_attempt y) (t @ u) = t @ takeWhile (\<lambda>y. \<not> is_attempt y) u"
  by (induction t) (simp_all split: if_splits)

lemma waits_after_quiet: "attempts t = 0 \<Longrightarrow> waits_after t = []"
  by (induction t) (simp_all split: if_splits)

lemma waits_after_quiet_append: "attempts t = 0 \<Longrightarrow> waits_after (t @ u) = waits_after u"
  by (induction t) (simp_all split: if_splits)

lemma delays_Cons:
  "delays (x # t) = (case x of Timeout d \<Rightarrow> [d] | _ \<Rightarrow> []) @ delays t"
  by (cases x) simp_all

lemma delays_takeWhile_append_quiet:
  assumes "attempts u = 0" "delays u = []"
  shows "delays (takeWhile (\<lambda>y. \<not> is_attempt y) (t @ u))
           = delays (takeWhile (\<lambda>y. \<not> is_attempt y) t)"
  using assms by (induction t) (simp_all add: takeWhile_quiet delays_Cons)

lemma waits_after_append_quiet:
  assumes "attempts u = 0" "delays u = []"
  shows "waits_after (t @ u) = waits_after t"
  using assms
  by (induction t) (simp_all add: waits_after_quiet delays_takeWhile_append_quiet)

lemma trim_Park: "trim ''Park'' = ''Park''"
  by (simp add: trim_def trimStart_def trimEnd_def white_space_def)

subsection \<open>The catch blocks\<close>

lemma read_message_Nullish [simp]: "read_message Nullish = Inl TypeError"
  by (simp add: read_message_def)

lemma read_message_other [simp]: "e \<noteq> Nullish \<Longrightarrow> read_message e = Inr (message_text e)"
  by (cases e) (simp_all add: read_message_def)

lemma truthy_value_not_Nullish: "truthy_value e \<Longrightarrow> e \<noteq> Nullish"
  by (auto simp: truthy_value_def)

lemma retriable_truthy: "retriable e \<Longrightarrow> truthy_value e"
  by (cases e) (simp_all add: retriable_def message_or_empty_def truthy_value_def)

lemma getCampaigns_catch_Nullish: "getCampaigns_catch Nullish = (Inl TypeError, [ConsoleError])"
  by (simp add: getCampaigns_catch_def prod_eq_iff)

lemma getCampaigns_catch_other:
  "e \<noteq> Nullish \<Longrightarrow>
     getCampaigns_catch e =
       (Inr (), [ConsoleError, SetWalletStatus (''Error fetching campaigns: '' @ message_text e)])"
  by (simp add: getCampaigns_catch_def prod_eq_iff)

lemma create_catch_Nullish: "create_catch Nullish = (Inl TypeError, [ConsoleError])"
  by (simp add: create_catch_def prod_eq_iff isDeclaredMismatch_def userRejected_def
      message_or_empty_def)

lemma create_catch_other:
  "e \<noteq> Nullish \<Longrightarrow>
     create_catch e = (Inr (), [ConsoleError, SetWalletStatus (create_error_status e)])"
  by (simp add: create_catch_def create_error_status_def prod_eq_iff)

lemma donate_catch_Nullish: "donate_catch Nullish = (Inl TypeError, [ConsoleError])"
  by (simp add: donate_catch_def prod_eq_iff userRejected_def message_or_empty_def)

lemma donate_catch_memo_Nullish: "donate_catch_memo Nullish = (Inl TypeError, [ConsoleError])"
  by (simp add: donate_catch_memo_def prod_eq_iff message_or_empty_def)

lemma catch_traces:
  "snd (getCampaigns_catch e) = [ConsoleError] \<or> (\<exists>m. snd (getCampaigns_catch e) = [ConsoleError, SetWalletStatus m])"
  "snd (create_catch e) = [ConsoleError] \<or> (\<exists>m. snd (create_catch e) = [ConsoleError, SetWalletStatus m])"
  "snd (donate_catch e) = [ConsoleError] \<or> (\<exists>m. snd (donate_catch e) = [ConsoleError, SetWalletStatus m])"
  "snd (donate_catch_memo e) = [ConsoleError] \<or> (\<exists>m. snd (donate_catch_memo e) = [ConsoleError, SetWalletStatus m])"
  by (cases "e = Nullish";
      simp add: getCampaigns_catch_def create_catch_def donate_catch_def donate_catch_memo_def)+

lemma create_catch_it1_trace:
  "snd (create_catch_it1 env e) = [ConsoleError]
   \<or> snd (create_catch_it1 env e) = [ConsoleError, ConsoleError]
   \<or> (\<exists>m. snd (create_catch_it1 env e) = [ConsoleError, SetWalletStatus m])
   \<or> (\<exists>m. snd (create_catch_it1 env e) = [ConsoleError, ConsoleError, SetWalletStatus m])"
  by (cases "e = Nullish"; cases "runtimeProgramID env")
     (simp_all add: create_catch_it1_def)

lemma attempts_catch [simp]:
  "attempts (snd (getCampaigns_catch e)) = 0"
  "attempts (snd (create_catch e)) = 0"
  "attempts (snd (donate_catch e)) = 0"
  "attempts (snd (donate_catch_memo e)) = 0"
  "attempts (snd (create_catch_it1 env e)) = 0"
  using catch_traces [of e] create_catch_it1_trace [of env e] by auto

lemma delays_catch [simp]:
  "delays (snd (getCampaigns_catch e)) = []"
  "delays (snd (create_catch e)) = []"
  "delays (snd (create_catch_it1 env e)) = []"
  using catch_traces [of e] create_catch_it1_trace [of env e] by auto

lemma program_ids_catch [simp]:
  "program_ids (snd (getCampaigns_catch e)) = []"
  "program_ids (snd (create_catch e)) = []"
  "program_ids (snd (donate_catch e)) = []"
  "program_ids (snd (donate_catch_memo e)) = []"
  "program_ids (snd (create_catch_it1 env e)) = []"
  using catch_traces [of e] create_catch_it1_trace [of env e] by auto

lemma program_ids_append [simp]: "program_ids (t @ u) = program_ids t @ program_ids u"
  by (induction t rule: program_ids.induct) simp_all

lemma statuses_append [simp]: "statuses (t @ u) = statuses t @ statuses u"
  by (induction t rule: statuses.induct) simp_all

subsection \<open>The program identifier\<close>

lemma runtimeProgramID_not_null: "runtimeProgramID env \<noteq> Inr None"
  by (simp add: runtimeProgramID_def split: option.splits sum.splits)

lemma resolveProgramID_memo: "resolveProgramID env = runtimeProgramID_memo env"
  by (simp add: resolveProgramID_def runtimeProgramID_def runtimeProgramID_memo_def
      split: option.splits sum.splits)

subsection \<open>ensureBalance\<close>

lemma ensureBalance_returns: "fst (ensureBalance env m) = Inr ()"
  by (simp add: ensureBalance_def fst_try_catch fst_andThen split: sum.splits)

lemma ensureBalance_memo_returns: "fst (ensureBalance_memo env m) = Inr ()"
  by (simp add: ensureBalance_memo_def fst_try_catch fst_andThen split: sum.splits)

lemma ensureBalance_trace:
  "snd (ensureBalance env m) =
     (case getBalance env 0 of
        Inl e \<Rightarrow> [GetBalance, ConsoleWarn]
      | Inr b \<Rightarrow>
          if b < m then
            (case requestAirdrop env of
               Inl e \<Rightarrow> [GetBalance, RequestAirdrop m, ConsoleWarn]
             | Inr sig \<Rightarrow>
                 (case confirmTransaction env 0 of
                    Inl e \<Rightarrow> [GetBalance, RequestAirdrop m, ConfirmTransaction, ConsoleWarn]
                  | Inr u \<Rightarrow>
                      (case getBalance env 1 of
                         Inl e \<Rightarrow> [GetBalance, RequestAirdrop m, ConfirmTransaction, Timeout 1000, GetBalance, ConsoleWarn]
                       | Inr b' \<Rightarrow> [GetBalance, RequestAirdrop m, ConfirmTransaction, Timeout 1000, GetBalance])))
          else [GetBalance])"
  by (simp add: ensureBalance_def snd_try_catch fst_andThen snd_andThen split: sum.splits)

lemma ensureBalance_memo_trace:
  "snd (ensureBalance_memo env m) =
     (case getBalance env 0 of
        Inl e \<Rightarrow> [GetBalance, ConsoleWarn]
      | Inr b \<Rightarrow>
          if b < m then
            (case requestAirdrop env of
               Inl e \<Rightarrow> [GetBalance, RequestAirdrop m, ConsoleWarn]
             | Inr sig \<Rightarrow>
                 (case confirmTransaction env 0 of
                    Inl e \<Rightarrow> [GetBalance, RequestAirdrop m, ConfirmTransaction, ConsoleWarn]
                  | Inr u \<Rightarrow> [GetBalance, RequestAirdrop m, ConfirmTransaction, Timeout 1000]))
          else [GetBalance])"
  by (simp add: ensureBalance_memo_def snd_try_catch fst_andThen snd_andThen split: sum.splits)

lemma ensureBalance_no_attempts [simp]: "attempts (snd (ensureBalance env m)) = 0"
  by (simp add: ensureBalance_trace split: sum.splits)

lemma thresholdLamports_eq: "thresholdLamports = 100000000"
  by (simp add: thresholdLamports_def LAMPORTS_PER_SOL_def)

text \<open>
  C4. For every threshold \<open>minLamports\<close>, \<open>ensureBalance\<close> requests an airdrop (of
  \<open>minLamports\<close>) exactly when the balance request returned a balance strictly below
  \<open>minLamports\<close>; when the balance is at least \<open>minLamports\<close> the balance request is the only
  call it makes. The same holds for \<open>ensureBalance\<close> of the memoized iteration.
\<close>

theorem ensureBalance_airdrop_iff:
  "(\<exists>n. RequestAirdrop n \<in> set (snd (ensureBalance env minLamports)))
     = (\<exists>b. getBalance env 0 = Inr b \<and> b < minLamports)
   \<and> (RequestAirdrop n \<in> set (snd (ensureBalance env minLamports)) \<longrightarrow> n = minLamports)
   \<and> (getBalance env 0 = Inr b \<and> minLamports \<le> b \<longrightarrow>
        snd (ensureBalance env minLamports) = [GetBalance])
   \<and> (\<exists>n. RequestAirdrop n \<in> set (snd (ensureBalance_memo env minLamports)))
     = (\<exists>b. getBalance env 0 = Inr b \<and> b < minLamports)
   \<and> (RequestAirdrop n \<in> set (snd (ensureBalance_memo env minLamports)) \<longrightarrow> n = minLamports)
   \<and> (getBalance env 0 = Inr b \<and> minLamports \<le> b \<longrightarrow>
        snd (ensureBalance_memo env minLamports) = [GetBalance])"
proof (intro conjI)
  show "(\<exists>n. RequestAirdrop n \<in> set (snd (ensureBalance env minLamports)))
     = (\<exists>b. getBalance env 0 = Inr b \<and> b < minLamports)"
    by (auto simp: ensureBalance_trace split: sum.splits)
  show "RequestAirdrop n \<in> set (snd (ensureBalance env minLamports)) \<longrightarrow> n = minLamports"
    by (auto simp: ensureBalance_trace split: sum.splits if_splits)
  show "getBalance env 0 = Inr b \<and> minLamports \<le> b \<longrightarrow>
        snd (ensureBalance env minLamports) = [GetBalance]"
    by (simp add: ensureBalance_trace)
  show "(\<exists>n. RequestAirdrop n \<in> set (snd (ensureBalance_memo env minLamports)))
     = (\<exists>b. getBalance env 0 = Inr b \<and> b < minLamports)"
    by (auto simp: ensureBalance_memo_trace split: sum.splits)
  show "RequestAirdrop n \<in> set (snd (ensureBalance_memo env minLamports)) \<longrightarrow> n = minLamports"
    by (auto simp: ensureBalance_memo_trace split: sum.splits if_splits)
  show "getBalance env 0 = Inr b \<and> minLamports \<le> b \<longrightarrow>
        snd (ensureBalance_memo env minLamports) = [GetBalance]"
    by (simp add: ensureBalance_memo_trace)
qed

text \<open>
  Witness for C4: a balance of 0.5 SOL against the threshold of 0.1 SOL, and an empty wallet.
\<close>

theorem ensureBalance_airdrop_iff_witness:
  "getBalance sample_env 0 = Inr 500000000 \<and> thresholdLamports \<le> 500000000
   \<and> snd (ensureBalance sample_env thresholdLamports) = [GetBalance]
   \<and> snd (ensureBalance_memo sample_env thresholdLamports) = [GetBalance]
   \<and> getBalance faucet_down_env 0 = Inr 0 \<and> 0 < thresholdLamports
   \<and> (\<exists>n. RequestAirdrop n \<in> set (snd (ensureBalance faucet_down_env thresholdLamports)))
   \<and> (\<exists>n. RequestAirdrop n \<in> set (snd (ensureBalance_memo faucet_down_env thresholdLamports)))"
proof -
  have a: "getBalance sample_env 0 = Inr 500000000 \<and> thresholdLamports \<le> 500000000"
    by (simp add: sample_env_def thresholdLamports_eq)
  have b: "getBalance faucet_down_env 0 = Inr 0 \<and> 0 < thresholdLamports"
    by (simp add: faucet_down_env_def sample_env_def thresholdLamports_eq)
  from ensureBalance_airdrop_iff [of sample_env thresholdLamports 0 500000000] a
    ensureBalance_airdrop_iff [of faucet_down_env thresholdLamports 0 0] b
  show ?thesis by auto
qed

lemma createCampaign_prepared:
  assumes "create_prepared env r"
  shows "createCampaign env r =
     try_finally
       (try_catch
          (prepend [SetCreatingCampaign True, NewProgram (projr (resolveProgramID env)),
                    FindProgramAddress (projr (resolveProgramID env)), FetchNullable]
             (andThen (ensureBalance env thresholdLamports) (\<lambda>_. create_submit env r)))
          create_catch)
       [SetCreatingCampaign False]"
proof -
  from assms obtain p where "getProvider env = Inr p"
    unfolding create_prepared_def by (blast dest: not_isl_Inr)
  moreover from assms obtain rid where "resolveProgramID env = Inr rid"
    unfolding create_prepared_def by (blast dest: not_isl_Inr)
  moreover from assms have "new_Program env = Inr ()"
    unfolding create_prepared_def by (cases "new_Program env") simp_all
  moreover from assms obtain c where "findProgramAddress env = Inr c"
    unfolding create_prepared_def by (blast dest: not_isl_Inr)
  moreover from assms have "fetchNullable env = Inr None"
    unfolding create_prepared_def by simp
  moreover from assms have "isWalletConnected r" "truthy_str (publicKey r)"
    "trim (campaignName r) \<noteq> []" "idl_valid (idl_file env)"
    unfolding create_prepared_def by simp_all
  ultimately show ?thesis by (simp add: createCampaign_def)
qed

lemma createCampaign_it1_prepared:
  assumes "create_prepared_it1 env r"
  shows "createCampaign_it1 env r =
     try_catch
       (prepend [NewProgram (projr (resolveProgramID env)),
                 FindProgramAddress (projr (resolveProgramID env))]
          (andThen (ensureBalance env thresholdLamports)
             (\<lambda>_. create_submit_it1 env (projr (resolveProgramID env))
                    (projr (findProgramAddress env)))))
       (create_catch_it1 env)"
proof -
  from assms obtain p where "getProvider env = Inr p"
    unfolding create_prepared_it1_def by (blast dest: not_isl_Inr)
  moreover from assms obtain rid where "resolveProgramID env = Inr rid"
    unfolding create_prepared_it1_def by (blast dest: not_isl_Inr)
  moreover from assms have "new_Program env = Inr ()"
    unfolding create_prepared_it1_def by (cases "new_Program env") simp_all
  moreover from assms obtain c where "findProgramAddress env = Inr c"
    unfolding create_prepared_it1_def by (blast dest: not_isl_Inr)
  moreover from assms have "isWalletConnected r" "truthy_str (publicKey r)" "idl_valid (idl_file env)"
    unfolding create_prepared_it1_def by simp_all
  ultimately show ?thesis by (simp add: createCampaign_it1_def)
qed

lemma create_submit_starts: "\<exists>u. snd (create_submit env r) = BuildInstruction # u"
  by (simp add: create_submit_def snd_andThen)

lemma create_submit_it1_starts:
  "\<exists>u. snd (create_submit_it1 env rid c) = GetAccountInfo rid # u"
  by (simp add: create_submit_it1_def diagnostics_it1_def snd_andThen snd_try_catch)

text \<open>
  C9. \<open>ensureBalance\<close> never propagates an error: in every iteration it returns
  normally whatever the balance request, the airdrop request, the confirmation and the
  second balance request do, and a failure of a call it reached is logged by
  \<open>console.warn\<close>. So a run of
  \<open>createCampaign\<close> that reaches the \<open>ensureBalance\<close> call goes on with the step after it:
  building the instruction in \<open>page.tsx\<close>, the diagnostics in the first iteration.
\<close>

theorem ensureBalance_never_propagates:
  "fst (ensureBalance env minLamports) = Inr ()
   \<and> fst (ensureBalance_memo env minLamports) = Inr ()
   \<and> (ConsoleWarn \<in> set (snd (ensureBalance env minLamports))) = ensure_failed env minLamports
   \<and> (create_prepared env r \<longrightarrow>
        (\<exists>u. snd (createCampaign env r) =
           [SetCreatingCampaign True, NewProgram (projr (resolveProgramID env)),
            FindProgramAddress (projr (resolveProgramID env)), FetchNullable]
           @ snd (ensureBalance env thresholdLamports) @ BuildInstruction # u))
   \<and> (create_prepared_it1 env r \<longrightarrow>
        (\<exists>u. snd (createCampaign_it1 env r) =
           [NewProgram (projr (resolveProgramID env)),
            FindProgramAddress (projr (resolveProgramID env))]
           @ snd (ensureBalance env thresholdLamports)
           @ GetAccountInfo (projr (resolveProgramID env)) # u))"
proof (intro conjI impI)
  show "fst (ensureBalance env minLamports) = Inr ()"
    by (rule ensureBalance_returns)
  show "fst (ensureBalance_memo env minLamports) = Inr ()"
    by (rule ensureBalance_memo_returns)
  show "(ConsoleWarn \<in> set (snd (ensureBalance env minLamports))) = ensure_failed env minLamports"
    by (auto simp: ensureBalance_trace ensure_failed_def split: sum.splits)
next
  assume "create_prepared env r"
  moreover obtain u where "snd (create_submit env r) = BuildInstruction # u"
    using create_submit_starts by blast
  ultimately show "\<exists>u. snd (createCampaign env r) =
           [SetCreatingCampaign True, NewProgram (projr (resolveProgramID env)),
            FindProgramAddress (projr (resolveProgramID env)), FetchNullable]
           @ snd (ensureBalance env thresholdLamports) @ BuildInstruction # u"
    by (simp add: createCampaign_prepared snd_try_catch snd_andThen ensureBalance_returns)
next
  assume "create_prepared_it1 env r"
  then have c: "createCampaign_it1 env r =
     try_catch
       (prepend [NewProgram (projr (resolveProgramID env)),
                 FindProgramAddress (projr (resolveProgramID env))]
          (andThen (ensureBalance env thresholdLamports)
             (\<lambda>_. create_submit_it1 env (projr (resolveProgramID env))
                    (projr (findProgramAddress env)))))
       (create_catch_it1 env)"
    by (rule createCampaign_it1_prepared)
  obtain u where "snd (create_submit_it1 env (projr (resolveProgramID env))
                         (projr (findProgramAddress env)))
                  = GetAccountInfo (projr (resolveProgramID env)) # u"
    using create_submit_it1_starts by blast
  then show "\<exists>u. snd (createCampaign_it1 env r) =
           [NewProgram (projr (resolveProgramID env)),
            FindProgramAddress (projr (resolveProgramID env))]
           @ snd (ensureBalance env thresholdLamports)
           @ GetAccountInfo (projr (resolveProgramID env)) # u"
    by (simp add: c snd_try_catch snd_andThen ensureBalance_returns)
qed

text \<open>
  Witness for C9: an empty wallet and a faucet that refuses the airdrop.
\<close>

theorem ensureBalance_never_propagates_witness:
  "create_prepared faucet_down_env sample_state
   \<and> create_prepared_it1 faucet_down_env sample_state
   \<and> ensure_failed faucet_down_env thresholdLamports
   \<and> fst (ensureBalance faucet_down_env thresholdLamports) = Inr ()
   \<and> ConsoleWarn \<in> set (snd (ensureBalance faucet_down_env thresholdLamports))
   \<and> (\<exists>u. snd (createCampaign faucet_down_env sample_state) =
          [SetCreatingCampaign True, NewProgram ''ProgramKey'',
           FindProgramAddress ''ProgramKey'', FetchNullable]
          @ [GetBalance, RequestAirdrop 100000000, ConsoleWarn] @ BuildInstruction # u)
   \<and> (\<exists>u. snd (createCampaign_it1 faucet_down_env sample_state) =
          [NewProgram ''ProgramKey'', FindProgramAddress ''ProgramKey'']
          @ [GetBalance, RequestAirdrop 100000000, ConsoleWarn]
          @ GetAccountInfo ''ProgramKey'' # u)"
proof -
  have i: "resolveProgramID faucet_down_env = Inr ''ProgramKey''"
    by (simp add: faucet_down_env_def sample_env_def sample_idl_def
        resolveProgramID_def runtimeProgramID_def programID_def)
  have p: "create_prepared faucet_down_env sample_state"
    by (simp add: create_prepared_def trim_Park faucet_down_env_def sample_env_def
        sample_state_def sample_idl_def sample_wallet_def truthy_str_def idl_valid_def
        getProvider_def truthy_def resolveProgramID_def runtimeProgramID_def programID_def)
  have q: "create_prepared_it1 faucet_down_env sample_state"
    using p by (simp add: create_prepared_def create_prepared_it1_def)
  have f: "ensure_failed faucet_down_env thresholdLamports"
    by (simp add: ensure_failed_def faucet_down_env_def sample_env_def thresholdLamports_eq)
  have t: "snd (ensureBalance faucet_down_env thresholdLamports)
             = [GetBalance, RequestAirdrop 100000000, ConsoleWarn]"
    by (simp add: ensureBalance_trace faucet_down_env_def sample_env_def thresholdLamports_eq)
  from ensureBalance_never_propagates [of faucet_down_env thresholdLamports sample_state] p q f t
  show ?thesis by (simp add: i)
qed

subsection \<open>getCampaigns\<close>

text \<open>
  C8. When \<open>isWalletConnected\<close> is false, \<open>getCampaigns\<close> returns at once: it calls no
  setter, so the state (campaigns, loading and walletStatus included) is unchanged, and it
  makes no network request. This holds in \<open>page.tsx\<close> and in the memoized iteration.
\<close>

theorem getCampaigns_disconnected_unchanged:
  "\<not> isWalletConnected r \<Longrightarrow>
     getCampaigns env r = (Inr (), []) \<and> getCampaigns_memo env r = (Inr (), [])
     \<and> commit (snd (getCampaigns env r)) s = s \<and> commit (snd (getCampaigns_memo env r)) s = s
     \<and> filter is_network (snd (getCampaigns env r)) = []
     \<and> filter is_network (snd (getCampaigns_memo env r)) = []"
  by (simp add: getCampaigns_def getCampaigns_memo_def emit_def commit_def)

text \<open>
  Witness for C8: the state of the first render, where no wallet is connected yet.
\<close>

theorem getCampaigns_disconnected_unchanged_witness:
  "\<not> isWalletConnected initialState
   \<and> getCampaigns sample_env initialState = (Inr (), [])
   \<and> getCampaigns_memo sample_env initialState = (Inr (), [])
   \<and> commit (snd (getCampaigns sample_env initialState)) sample_state = sample_state
   \<and> commit (snd (getCampaigns_memo sample_env initialState)) sample_state = sample_state"
proof -
  have a: "\<not> isWalletConnected initialState" by (simp add: initialState_def)
  from getCampaigns_disconnected_unchanged [OF a, of sample_env sample_state] a
  show ?thesis by blast
qed

lemma fetch_loop_result:
  "fst (fetch_loop env accs acc) = Inr (acc @ fetched_campaigns env accs)"
  by (induction accs arbitrary: acc) (simp_all add: fetched_campaigns_def split: sum.splits)

lemma fetch_loop_trace: "snd (fetch_loop env accs acc) = fetch_trace env accs"
  by (induction accs arbitrary: acc) (simp_all add: fetch_trace_def split: sum.splits)

lemma Promise_all_results:
  "filter_Boolean (map (fetch_or_null env) accs) = fetched_campaigns env accs"
  by (induction accs) (simp_all add: fetched_campaigns_def fetch_or_null_def split: sum.splits)

lemma fetches_append [simp]: "fetches (t @ u) = fetches t @ fetches u"
  by (induction t rule: fetches.induct) simp_all

lemma fetches_map_FetchCampaign [simp]: "fetches (map FetchCampaign accs) = accs"
  by (induction accs) simp_all

lemma fetches_warnings [simp]: "fetches (map (\<lambda>pk. ConsoleWarn) accs) = []"
  by (induction accs) simp_all

lemma fetches_fetch_trace [simp]: "fetches (fetch_trace env accs) = accs"
  by (induction accs) (simp_all add: fetch_trace_def)

lemma commit_fetch_trace [simp]: "commit (fetch_trace env accs) s = s"
  by (induction accs) (simp_all add: fetch_trace_def)

lemma commit_fetches [simp]: "commit (map FetchCampaign accs) s = s"
  by (induction accs) simp_all

lemma commit_warnings [simp]: "commit (map (\<lambda>pk. ConsoleWarn) accs) s = s"
  by (induction accs) simp_all

lemma fetch_trace_fetches: "pk \<in> set accs \<Longrightarrow> FetchCampaign pk \<in> set (fetch_trace env accs)"
  by (induction accs) (auto simp: fetch_trace_def)

lemma fetch_trace_warns:
  "length (filter (\<lambda>x. x = ConsoleWarn) (fetch_trace env accs))
     = length (filter (\<lambda>pk. isl (fetch env pk)) accs)"
  by (induction accs) (simp_all add: fetch_trace_def)

lemma Promise_all_warns:
  "length (filter (\<lambda>x. x = ConsoleWarn) (snd (Promise_all env accs)))
     = length (filter (\<lambda>pk. isl (fetch env pk)) accs)"
proof -
  have "filter (\<lambda>x. x = ConsoleWarn) (map FetchCampaign accs) = []"
    by (induction accs) simp_all
  moreover have "\<And>xs. filter (\<lambda>x. x = ConsoleWarn) (map (\<lambda>pk. ConsoleWarn) xs)
                        = map (\<lambda>pk. ConsoleWarn) xs"
    by (induct_tac xs) simp_all
  ultimately show ?thesis by (simp add: Promise_all_def)
qed

lemma getCampaigns_listing:
  assumes "listing_reached env r" "getProgramAccounts env = Inr accs"
  shows "getCampaigns env r =
           (Inr (), [SetLoading True, NewProgram (projr (resolveProgramID env)),
                     GetProgramAccounts (projr (resolveProgramID env))]
                    @ fetch_trace env accs
                    @ [SetCampaigns (fetched_campaigns env accs), SetLoading False])"
proof -
  from assms(1) obtain p where "getProvider env = Inr p"
    unfolding listing_reached_def by (blast dest: not_isl_Inr)
  moreover from assms(1) obtain rid where "resolveProgramID env = Inr rid"
    unfolding listing_reached_def by (blast dest: not_isl_Inr)
  moreover from assms(1) have "new_Program env = Inr ()"
    unfolding listing_reached_def by (cases "new_Program env") simp_all
  moreover from assms(1) have "isWalletConnected r"
    unfolding listing_reached_def by simp
  ultimately show ?thesis
    using assms(2)
    by (simp add: getCampaigns_def prod_eq_iff fst_try_catch snd_try_catch fst_andThen snd_andThen
        fetch_loop_result fetch_loop_trace)
qed

lemma getCampaigns_memo_listing:
  assumes "listing_reached env r" "getProgramAccounts env = Inr accs"
  shows "getCampaigns_memo env r =
           (Inr (), [SetLoading True, NewProgram (projr (resolveProgramID env)),
                     GetProgramAccounts (projr (resolveProgramID env))]
                    @ snd (Promise_all env accs)
                    @ [SetCampaigns (fetched_campaigns env accs), SetLoading False])"
proof -
  from assms(1) obtain p where "getProvider env = Inr p"
    unfolding listing_reached_def by (blast dest: not_isl_Inr)
  moreover from assms(1) obtain rid where "resolveProgramID env = Inr rid"
    unfolding listing_reached_def by (blast dest: not_isl_Inr)
  moreover from this have "runtimeProgramID_memo env = Inr rid"
    by (simp add: resolveProgramID_memo)
  moreover from assms(1) have "new_Program env = Inr ()"
    unfolding listing_reached_def by (cases "new_Program env") simp_all
  moreover from assms(1) have "isWalletConnected r"
    unfolding listing_reached_def by simp
  moreover have "fst (Promise_all env accs) = Inr (map (fetch_or_null env) accs)"
    by (simp add: Promise_all_def)
  ultimately show ?thesis
    using assms(2)
    by (simp add: getCampaigns_memo_def prod_eq_iff fst_try_catch snd_try_catch fst_andThen
        snd_andThen Promise_all_results)
qed

text \<open>
  C5. When the listing reaches the program accounts \<open>accs\<close>, \<open>getCampaigns\<close> sets
  \<open>campaigns\<close> to exactly the accounts of \<open>accs\<close> whose fetch succeeded (in their order,
  each with its data). Every account is fetched, once and in the order of \<open>accs\<close>; a failed
  fetch is logged with \<open>console.warn\<close> and skipped, and it does not abort the listing: the
  call returns normally, \<open>loading\<close> ends false and no error status is set. This holds for
  the loop of \<open>page.tsx\<close> and for the \<open>Promise.all\<close> of the memoized iteration.
\<close>

theorem getCampaigns_lists_fetched:
  "listing_reached env r \<and> getProgramAccounts env = Inr accs \<longrightarrow>
     fst (getCampaigns env r) = Inr ()
     \<and> campaigns (commit (snd (getCampaigns env r)) s) = fetched_campaigns env accs
     \<and> loading (commit (snd (getCampaigns env r)) s) = False
     \<and> walletStatus (commit (snd (getCampaigns env r)) s) = walletStatus s
     \<and> (\<forall>pk \<in> set accs. FetchCampaign pk \<in> set (snd (getCampaigns env r)))
     \<and> fetches (snd (getCampaigns env r)) = accs
     \<and> length (filter (\<lambda>x. x = ConsoleWarn) (snd (getCampaigns env r)))
         = length (filter (\<lambda>pk. isl (fetch env pk)) accs)
     \<and> fst (getCampaigns_memo env r) = Inr ()
     \<and> campaigns (commit (snd (getCampaigns_memo env r)) s) = fetched_campaigns env accs
     \<and> loading (commit (snd (getCampaigns_memo env r)) s) = False
     \<and> walletStatus (commit (snd (getCampaigns_memo env r)) s) = walletStatus s
     \<and> (\<forall>pk \<in> set accs. FetchCampaign pk \<in> set (snd (getCampaigns_memo env r)))
     \<and> fetches (snd (getCampaigns_memo env r)) = accs
     \<and> length (filter (\<lambda>x. x = ConsoleWarn) (snd (getCampaigns_memo env r)))
         = length (filter (\<lambda>pk. isl (fetch env pk)) accs)"
proof (intro impI)
  assume "listing_reached env r \<and> getProgramAccounts env = Inr accs"
  then have a: "listing_reached env r" and b: "getProgramAccounts env = Inr accs" by simp_all
  note g = getCampaigns_listing [OF a b] and m = getCampaigns_memo_listing [OF a b]
  have p: "fst (getCampaigns env r) = Inr ()
     \<and> campaigns (commit (snd (getCampaigns env r)) s) = fetched_campaigns env accs
     \<and> loading (commit (snd (getCampaigns env r)) s) = False
     \<and> walletStatus (commit (snd (getCampaigns env r)) s) = walletStatus s
     \<and> (\<forall>pk \<in> set accs. FetchCampaign pk \<in> set (snd (getCampaigns env r)))
     \<and> fetches (snd (getCampaigns env r)) = accs
     \<and> length (filter (\<lambda>x. x = ConsoleWarn) (snd (getCampaigns env r)))
         = length (filter (\<lambda>pk. isl (fetch env pk)) accs)"
    by (simp add: g fetch_trace_fetches fetch_trace_warns)
  have w: "length (filter (\<lambda>x. x = ConsoleWarn) (snd (getCampaigns_memo env r)))
         = length (filter (\<lambda>pk. isl (fetch env pk)) accs)"
    using Promise_all_warns [of env accs] by (simp add: m)
  have q: "fst (getCampaigns_memo env r) = Inr ()
     \<and> campaigns (commit (snd (getCampaigns_memo env r)) s) = fetched_campaigns env accs
     \<and> loading (commit (snd (getCampaigns_memo env r)) s) = False
     \<and> walletStatus (commit (snd (getCampaigns_memo env r)) s) = walletStatus s
     \<and> (\<forall>pk \<in> set accs. FetchCampaign pk \<in> set (snd (getCampaigns_memo env r)))
     \<and> fetches (snd (getCampaigns_memo env r)) = accs"
    by (simp add: m Promise_all_def)
  from p q w show "fst (getCampaigns env r) = Inr ()
     \<and> campaigns (commit (snd (getCampaigns env r)) s) = fetched_campaigns env accs
     \<and> loading (commit (snd (getCampaigns env r)) s) = False
     \<and> walletStatus (commit (snd (getCampaigns env r)) s) = walletStatus s
     \<and> (\<forall>pk \<in> set accs. FetchCampaign pk \<in> set (snd (getCampaigns env r)))
     \<and> fetches (snd (getCampaigns env r)) = accs
     \<and> length (filter (\<lambda>x. x = ConsoleWarn) (snd (getCampaigns env r)))
         = length (filter (\<lambda>pk. isl (fetch env pk)) accs)
     \<and> fst (getCampaigns_memo env r) = Inr ()
     \<and> campaigns (commit (snd (getCampaigns_memo env r)) s) = fetched_campaigns env accs
     \<and> loading (commit (snd (getCampaigns_memo env r)) s) = False
     \<and> walletStatus (commit (snd (getCampaigns_memo env r)) s) = walletStatus s
     \<and> (\<forall>pk \<in> set accs. FetchCampaign pk \<in> set (snd (getCampaigns_memo env r)))
     \<and> fetches (snd (getCampaigns_memo env r)) = accs
     \<and> length (filter (\<lambda>x. x = ConsoleWarn) (snd (getCampaigns_memo env r)))
         = length (filter (\<lambda>pk. isl (fetch env pk)) accs)"
    by blast
qed

text \<open>
  Witness for C5: three program accounts, the fetch of the second one fails; the first
  and the third are listed, by the loop and by \<open>Promise.all\<close>.
\<close>

theorem getCampaigns_lists_fetched_witness:
  "campaigns (commit (snd (getCampaigns sample_env sample_state)) sample_state)
     = [\<lparr>account_publicKey = ''A'', account = sample_data\<rparr>,
        \<lparr>account_publicKey = ''C'', account = sample_data\<rparr>]
   \<and> loading (commit (snd (getCampaigns sample_env sample_state)) sample_state) = False
   \<and> walletStatus (commit (snd (getCampaigns sample_env sample_state)) sample_state) = None
   \<and> fetches (snd (getCampaigns sample_env sample_state)) = [''A'', ''B'', ''C'']
   \<and> length (filter (\<lambda>x. x = ConsoleWarn) (snd (getCampaigns sample_env sample_state))) = 1
   \<and> campaigns (commit (snd (getCampaigns_memo sample_env sample_state)) sample_state)
     = [\<lparr>account_publicKey = ''A'', account = sample_data\<rparr>,
        \<lparr>account_publicKey = ''C'', account = sample_data\<rparr>]
   \<and> loading (commit (snd (getCampaigns_memo sample_env sample_state)) sample_state) = False
   \<and> walletStatus (commit (snd (getCampaigns_memo sample_env sample_state)) sample_state) = None
   \<and> fetches (snd (getCampaigns_memo sample_env sample_state)) = [''A'', ''B'', ''C'']
   \<and> length (filter (\<lambda>x. x = ConsoleWarn) (snd (getCampaigns_memo sample_env sample_state))) = 1"
proof -
  have a: "listing_reached sample_env sample_state"
    by (simp add: listing_reached_def sample_env_def sample_state_def sample_idl_def
        sample_wallet_def getProvider_def truthy_def resolveProgramID_def runtimeProgramID_def
        programID_def)
  have b: "getProgramAccounts sample_env = Inr [''A'', ''B'', ''C'']"
    by (simp add: sample_env_def)
  have c: "fetched_campaigns sample_env [''A'', ''B'', ''C'']
     = [\<lparr>account_publicKey = ''A'', account = sample_data\<rparr>,
        \<lparr>account_publicKey = ''C'', account = sample_data\<rparr>]"
    by (simp add: fetched_campaigns_def sample_env_def)
  have d: "length (filter (\<lambda>pk. isl (fetch sample_env pk)) [''A'', ''B'', ''C'']) = 1"
    by (simp add: sample_env_def)
  have e: "walletStatus sample_state = None"
    by (simp add: sample_state_def)
  from getCampaigns_lists_fetched [of sample_env sample_state "[''A'', ''B'', ''C'']" sample_state] a b
  show ?thesis unfolding c d e by blast
qed

lemma fetch_loop_no_attempts [simp]: "attempts (snd (fetch_loop env accs acc)) = 0"
  by (induction accs arbitrary: acc) (simp_all split: sum.splits)

lemma getCampaigns_no_attempts [simp]: "attempts (snd (getCampaigns env r)) = 0"
  by (simp add: getCampaigns_def snd_try_catch snd_andThen fst_andThen split: sum.splits)

subsection \<open>The retry loop of page.tsx\<close>

declare send_loop.simps [simp del] rpc_loop.simps [simp del]

lemma maxAttempts_pos: "0 < maxAttempts"
  by (simp add: maxAttempts_def)

lemma send_loop_unfold:
  "attempt < maxAttempts \<Longrightarrow>
   send_loop env attempt lastErr bh =
     (case sendAndConfirm env (attempt + 1) of
        Inr signature \<Rightarrow> (Inr None, [SendAndConfirm bh])
      | Inl e \<Rightarrow>
          if retriable e then
            (case getLatestBlockhash env (attempt + 1) of
               Inl e' \<Rightarrow> (Inl e', [SendAndConfirm bh, ConsoleWarn, GetLatestBlockhash])
             | Inr latest \<Rightarrow>
                 prepend [SendAndConfirm bh, ConsoleWarn, GetLatestBlockhash,
                          Timeout (800 * (attempt + 1))]
                   (send_loop env (attempt + 1) (Some e) latest))
          else (Inr (Some e), [SendAndConfirm bh, ConsoleWarn]))"
  by (subst send_loop.simps) simp

lemma send_loop_exit:
  "\<not> attempt < maxAttempts \<Longrightarrow> send_loop env attempt lastErr bh = (Inr lastErr, [])"
  by (subst send_loop.simps) simp

lemma send_loop_attempts_le: "attempts (snd (send_loop env a l bh)) \<le> maxAttempts - a"
proof (induction env a l bh rule: send_loop.induct)
  case (1 env attempt lastErr bh)
  show ?case
  proof (cases "attempt < maxAttempts")
    case False
    then show ?thesis by (simp add: send_loop_exit)
  next
    case lt: True
    show ?thesis
    proof (cases "sendAndConfirm env (attempt + 1)")
      case (Inr sg)
      with lt show ?thesis by (simp add: send_loop_unfold)
    next
      case (Inl e1)
      show ?thesis
      proof (cases "getLatestBlockhash env (attempt + 1)")
        case bad: (Inl e2)
        with lt Inl show ?thesis by (simp add: send_loop_unfold)
      next
        case ok: (Inr latest)
        show ?thesis
        proof (cases "retriable e1")
          case False
          with lt Inl show ?thesis by (simp add: send_loop_unfold)
        next
          case True
          from "1.IH" [OF lt Inl True ok] lt Inl True ok show ?thesis
            by (simp add: send_loop_unfold)
        qed
      qed
    qed
  qed
qed

lemma send_loop_attempts_pos:
  "(0 < attempts (snd (send_loop env a l bh))) = (a < maxAttempts)"
  by (cases "a < maxAttempts") (auto simp: send_loop_unfold send_loop_exit split: sum.splits)

lemma send_loop_result:
  "a < maxAttempts \<Longrightarrow>
   fst (send_loop env a l bh) =
     (case sendAndConfirm env (a + attempts (snd (send_loop env a l bh))) of
        Inr sg \<Rightarrow> Inr None
      | Inl e \<Rightarrow>
          if retriable e then
            (case getLatestBlockhash env (a + attempts (snd (send_loop env a l bh))) of
               Inl e' \<Rightarrow> Inl e'
             | Inr latest \<Rightarrow> Inr (Some e))
          else Inr (Some e))"
proof (induction env a l bh rule: send_loop.induct)
  case (1 env attempt lastErr bh)
  note lt = "1.prems"
  show ?case
  proof (cases "sendAndConfirm env (attempt + 1)")
    case (Inr sg)
    with lt show ?thesis by (simp add: send_loop_unfold)
  next
    case (Inl e1)
    show ?thesis
    proof (cases "retriable e1")
      case False
      with lt Inl show ?thesis by (simp add: send_loop_unfold)
    next
      case True
      show ?thesis
      proof (cases "getLatestBlockhash env (attempt + 1)")
        case bad: (Inl e2)
        with lt Inl True show ?thesis by (simp add: send_loop_unfold)
      next
        case ok: (Inr latest)
        have step: "send_loop env attempt lastErr bh =
            prepend [SendAndConfirm bh, ConsoleWarn, GetLatestBlockhash, Timeout (800 * (attempt + 1))]
              (send_loop env (attempt + 1) (Some e1) latest)"
          using lt Inl True ok by (simp add: send_loop_unfold)
        show ?thesis
        proof (cases "attempt + 1 < maxAttempts")
          case more: True
          have nn: "attempt + attempts (snd (send_loop env attempt lastErr bh))
                      = attempt + 1 + attempts (snd (send_loop env (attempt + 1) (Some e1) latest))"
            by (simp add: step)
          have "fst (send_loop env attempt lastErr bh)
                  = fst (send_loop env (attempt + 1) (Some e1) latest)"
            by (simp add: step)
          with "1.IH" [OF lt Inl True ok more] show ?thesis
            unfolding nn by simp
        next
          case False
          then show ?thesis using Inl True ok
            by (simp add: step send_loop_exit)
        qed
      qed
    qed
  qed
qed

lemma send_loop_delays_ex:
  "\<exists>n. delays (snd (send_loop env a l bh)) = map (\<lambda>k. 800 * k) [a + 1 ..< a + 1 + n]"
proof (induction env a l bh rule: send_loop.induct)
  case (1 env attempt lastErr bh)
  have none: "delays (snd (send_loop env attempt lastErr bh)) = [] \<Longrightarrow> ?case"
    by (rule exI [of _ 0]) simp
  show ?case
  proof (cases "attempt < maxAttempts")
    case False
    then show ?thesis by (intro none) (simp add: send_loop_exit)
  next
    case lt: True
    show ?thesis
    proof (cases "sendAndConfirm env (attempt + 1)")
      case (Inr sg)
      with lt show ?thesis by (intro none) (simp add: send_loop_unfold)
    next
      case (Inl e1)
      show ?thesis
      proof (cases "retriable e1")
        case False
        with lt Inl show ?thesis by (intro none) (simp add: send_loop_unfold)
      next
        case True
        show ?thesis
        proof (cases "getLatestBlockhash env (attempt + 1)")
          case bad: (Inl e2)
          with lt Inl True show ?thesis by (intro none) (simp add: send_loop_unfold)
        next
          case ok: (Inr latest)
          have step: "delays (snd (send_loop env attempt lastErr bh)) =
              800 * (attempt + 1) # delays (snd (send_loop env (attempt + 1) (Some e1) latest))"
            using lt Inl True ok by (simp add: send_loop_unfold)
          from "1.IH" [OF lt Inl True ok] obtain n where
            "delays (snd (send_loop env (attempt + 1) (Some e1) latest))
               = map (\<lambda>k. 800 * k) [attempt + 1 + 1 ..< attempt + 1 + 1 + n]"
            by blast
          then have "delays (snd (send_loop env attempt lastErr bh))
               = map (\<lambda>k. 800 * k) [attempt + 1 ..< attempt + 1 + Suc n]"
            by (simp add: step upt_conv_Cons)
          then show ?thesis by blast
        qed
      qed
    qed
  qed
qed

lemma send_loop_delays:
  "delays (snd (send_loop env a l bh)) =
     map (\<lambda>k. 800 * k) [a + 1 ..< a + 1 + length (delays (snd (send_loop env a l bh)))]"
proof -
  obtain n where n: "delays (snd (send_loop env a l bh)) = map (\<lambda>k. 800 * k) [a + 1 ..< a + 1 + n]"
    using send_loop_delays_ex by blast
  then have "length (delays (snd (send_loop env a l bh))) = n" by simp
  with n show ?thesis by simp
qed

lemma send_loop_delays_le: "length (delays (snd (send_loop env a l bh))) \<le> attempts (snd (send_loop env a l bh))"
proof (induction env a l bh rule: send_loop.induct)
  case (1 env attempt lastErr bh)
  show ?case
  proof (cases "attempt < maxAttempts")
    case False
    then show ?thesis by (simp add: send_loop_exit)
  next
    case lt: True
    show ?thesis
    proof (cases "sendAndConfirm env (attempt + 1)")
      case (Inr sg)
      with lt show ?thesis by (simp add: send_loop_unfold)
    next
      case (Inl e1)
      show ?thesis
      proof (cases "getLatestBlockhash env (attempt + 1)")
        case bad: (Inl e2)
        with lt Inl show ?thesis by (simp add: send_loop_unfold)
      next
        case ok: (Inr latest)
        show ?thesis
        proof (cases "retriable e1")
          case False
          with lt Inl show ?thesis by (simp add: send_loop_unfold)
        next
          case True
          from "1.IH" [OF lt Inl True ok] lt Inl True ok show ?thesis
            by (simp add: send_loop_unfold)
        qed
      qed
    qed
  qed
qed

lemma send_loop_head:
  "takeWhile (\<lambda>y. \<not> is_attempt y) (snd (send_loop env a l bh)) = []"
  by (cases "a < maxAttempts") (auto simp: send_loop_unfold send_loop_exit split: sum.splits)

lemma send_loop_waits:
  "waits_after (snd (send_loop env a l bh)) =
     map (\<lambda>k. if stale_failure env k \<and> \<not> isl (getLatestBlockhash env k) then [800 * k] else [])
       [a + 1 ..< a + 1 + attempts (snd (send_loop env a l bh))]"
proof (induction env a l bh rule: send_loop.induct)
  case (1 env attempt lastErr bh)
  show ?case
  proof (cases "attempt < maxAttempts")
    case False
    then show ?thesis by (simp add: send_loop_exit)
  next
    case lt: True
    show ?thesis
    proof (cases "sendAndConfirm env (attempt + 1)")
      case (Inr sg)
      with lt show ?thesis by (simp add: send_loop_unfold stale_failure_def)
    next
      case (Inl e1)
      show ?thesis
      proof (cases "retriable e1")
        case False
        with lt Inl show ?thesis by (simp add: send_loop_unfold stale_failure_def)
      next
        case True
        show ?thesis
        proof (cases "getLatestBlockhash env (attempt + 1)")
          case bad: (Inl e2)
          with lt Inl True show ?thesis by (simp add: send_loop_unfold stale_failure_def)
        next
          case ok: (Inr latest)
          have step: "snd (send_loop env attempt lastErr bh) =
              [SendAndConfirm bh, ConsoleWarn, GetLatestBlockhash, Timeout (800 * (attempt + 1))]
              @ snd (send_loop env (attempt + 1) (Some e1) latest)"
            using lt Inl True ok by (simp add: send_loop_unfold)
          have w: "waits_after (snd (send_loop env attempt lastErr bh)) =
              [800 * (attempt + 1)] # waits_after (snd (send_loop env (attempt + 1) (Some e1) latest))"
            by (simp add: step send_loop_head)
          have n: "attempts (snd (send_loop env attempt lastErr bh))
                     = Suc (attempts (snd (send_loop env (attempt + 1) (Some e1) latest)))"
            by (simp add: step)
          have s: "stale_failure env (attempt + 1) \<and> \<not> isl (getLatestBlockhash env (attempt + 1))"
            using Inl True ok by (simp add: stale_failure_def)
          have u: "[attempt + 1 ..< attempt + 1 + Suc m] = (attempt + 1) # [attempt + 1 + 1 ..< attempt + 1 + 1 + m]"
            for m by (simp add: upt_conv_Cons)
          show ?thesis
            unfolding w n "1.IH" [OF lt Inl True ok] u using s
            by (simp only: list.map if_True simp_thms)
        qed
      qed
    qed
  qed
qed

lemma fst_throw_if_truthy:
  "fst (throw_if_truthy l) =
     (case l of Some e \<Rightarrow> if truthy_value e then Inl e else Inr () | None \<Rightarrow> Inr ())"
  by (simp add: throw_if_truthy_def split: option.splits)

lemma snd_throw_if_truthy [simp]: "snd (throw_if_truthy l) = []"
  by (simp add: throw_if_truthy_def split: option.splits)

lemma send_with_retry_trace: "snd (send_with_retry env bh) = snd (send_loop env 0 None bh)"
  by (simp add: send_with_retry_def snd_andThen split: sum.splits option.splits)

lemma send_with_retry_result:
  "fst (send_with_retry env bh) =
     (case fst (send_loop env 0 None bh) of
        Inl e \<Rightarrow> Inl e
      | Inr None \<Rightarrow> Inr ()
      | Inr (Some e) \<Rightarrow> if truthy_value e then Inl e else Inr ())"
  by (simp add: send_with_retry_def fst_andThen fst_throw_if_truthy split: sum.splits option.splits)

lemma send_loop_first_hash:
  "a < maxAttempts \<Longrightarrow> \<exists>t. sent_hashes (snd (send_loop env a l bh)) = bh # t"
  by (auto simp: send_loop_unfold split: sum.splits)

lemma send_loop_refreshed_hash:
  "a < k \<Longrightarrow> k < a + attempts (snd (send_loop env a l bh)) \<Longrightarrow>
     getLatestBlockhash env k = Inr (sent_hashes (snd (send_loop env a l bh)) ! (k - a))"
proof (induction env a l bh rule: send_loop.induct)
  case (1 env attempt lastErr bh)
  show ?case
  proof (cases "attempt < maxAttempts")
    case False
    with "1.prems" show ?thesis by (simp add: send_loop_exit)
  next
    case lt: True
    show ?thesis
    proof (cases "sendAndConfirm env (attempt + 1)")
      case (Inr sg)
      with lt "1.prems" show ?thesis by (simp add: send_loop_unfold)
    next
      case (Inl e1)
      show ?thesis
      proof (cases "retriable e1 \<and> \<not> isl (getLatestBlockhash env (attempt + 1))")
        case False
        with lt Inl have "attempts (snd (send_loop env attempt lastErr bh)) = 1"
          by (auto simp: send_loop_unfold split: sum.splits)
        with "1.prems" show ?thesis by simp
      next
        case True
        then obtain latest where lb: "getLatestBlockhash env (attempt + 1) = Inr latest"
          by (cases "getLatestBlockhash env (attempt + 1)") auto
        have n: "attempts (snd (send_loop env attempt lastErr bh))
                   = 1 + attempts (snd (send_loop env (attempt + 1) (Some e1) latest))"
          and h: "sent_hashes (snd (send_loop env attempt lastErr bh))
                   = bh # sent_hashes (snd (send_loop env (attempt + 1) (Some e1) latest))"
          using lt Inl True lb by (simp_all add: send_loop_unfold)
        show ?thesis
        proof (cases "k = attempt + 1")
          case k: True
          with "1.prems"(2) n have "0 < attempts (snd (send_loop env (attempt + 1) (Some e1) latest))"
            by simp
          then have "attempt + 1 < maxAttempts" by (simp add: send_loop_attempts_pos)
          then obtain t where "sent_hashes (snd (send_loop env (attempt + 1) (Some e1) latest)) = latest # t"
            using send_loop_first_hash by blast
          with k lb h show ?thesis by simp
        next
          case False
          with "1.prems" n have a: "attempt + 1 < k"
            and b: "k < (attempt + 1) + attempts (snd (send_loop env (attempt + 1) (Some e1) latest))"
            by auto
          from a have "k - attempt = Suc (k - (attempt + 1))" by simp
          with "1.IH" [OF lt Inl _ lb a b] True h show ?thesis by simp
        qed
      qed
    qed
  qed
qed

lemma send_refreshed_hash:
  assumes "1 \<le> k" "k < attempts (snd (send_with_retry env bh))"
  shows "getLatestBlockhash env k = Inr (sent_hashes (snd (send_with_retry env bh)) ! k)"
  using send_loop_refreshed_hash [of 0 k env None bh] assms by (simp add: send_with_retry_trace)

lemma send_first_hash: "\<exists>t. sent_hashes (snd (send_with_retry env bh)) = bh # t"
  using send_loop_first_hash [OF maxAttempts_pos] by (simp add: send_with_retry_trace)

subsection \<open>The retry loop of the first iteration\<close>

lemma refresh_it1_quiet [simp]:
  "attempts (snd (refresh_it1 env k)) = 0" "delays (snd (refresh_it1 env k)) = []"
  by (simp_all add: refresh_it1_def snd_try_catch snd_andThen split: sum.splits)

lemma rpc_loop_unfold:
  "attempt < maxAttempts \<Longrightarrow>
   rpc_loop env attempt lastErr =
     (case rpc_create env (attempt + 1) of
        Inr signature \<Rightarrow> (Inr None, [RpcCreate])
      | Inl e \<Rightarrow>
          if retriable e then
            prepend ([RpcCreate, ConsoleWarn] @ snd (refresh_it1 env (attempt + 1))
                     @ [Timeout (800 * (attempt + 1))])
              (rpc_loop env (attempt + 1) (Some e))
          else (Inr (Some e), [RpcCreate, ConsoleWarn]))"
  by (subst rpc_loop.simps) simp

lemma rpc_loop_exit:
  "\<not> attempt < maxAttempts \<Longrightarrow> rpc_loop env attempt lastErr = (Inr lastErr, [])"
  by (subst rpc_loop.simps) simp

lemma rpc_loop_attempts_le: "attempts (snd (rpc_loop env a l)) \<le> maxAttempts - a"
proof (induction env a l rule: rpc_loop.induct)
  case (1 env attempt lastErr)
  show ?case
  proof (cases "attempt < maxAttempts")
    case False
    then show ?thesis by (simp add: rpc_loop_exit)
  next
    case lt: True
    show ?thesis
    proof (cases "rpc_create env (attempt + 1)")
      case (Inr sg)
      with lt show ?thesis by (simp add: rpc_loop_unfold)
    next
      case (Inl e1)
      show ?thesis
      proof (cases "retriable e1")
        case False
        with lt Inl show ?thesis by (simp add: rpc_loop_unfold)
      next
        case True
        from "1.IH" [OF lt Inl True] lt Inl True show ?thesis
          by (simp add: rpc_loop_unfold)
      qed
    qed
  qed
qed

lemma rpc_loop_attempts_pos:
  "(0 < attempts (snd (rpc_loop env a l))) = (a < maxAttempts)"
  by (cases "a < maxAttempts") (auto simp: rpc_loop_unfold rpc_loop_exit split: sum.splits)

lemma rpc_loop_result:
  "a < maxAttempts \<Longrightarrow>
   fst (rpc_loop env a l) =
     (case rpc_create env (a + attempts (snd (rpc_loop env a l))) of
        Inr sg \<Rightarrow> Inr None
      | Inl e \<Rightarrow> Inr (Some e))"
proof (induction env a l rule: rpc_loop.induct)
  case (1 env attempt lastErr)
  note lt = "1.prems"
  show ?case
  proof (cases "rpc_create env (attempt + 1)")
    case (Inr sg)
    with lt show ?thesis by (simp add: rpc_loop_unfold)
  next
    case (Inl e1)
    show ?thesis
    proof (cases "retriable e1")
      case False
      with lt Inl show ?thesis by (simp add: rpc_loop_unfold)
    next
      case True
      have step: "rpc_loop env attempt lastErr =
          prepend ([RpcCreate, ConsoleWarn] @ snd (refresh_it1 env (attempt + 1))
                   @ [Timeout (800 * (attempt + 1))])
            (rpc_loop env (attempt + 1) (Some e1))"
        using lt Inl True by (simp add: rpc_loop_unfold)
      show ?thesis
      proof (cases "attempt + 1 < maxAttempts")
        case more: True
        have nn: "attempt + attempts (snd (rpc_loop env attempt lastErr))
                    = attempt + 1 + attempts (snd (rpc_loop env (attempt + 1) (Some e1)))"
          by (simp add: step)
        have "fst (rpc_loop env attempt lastErr) = fst (rpc_loop env (attempt + 1) (Some e1))"
          by (simp add: step)
        with "1.IH" [OF lt Inl True more] show ?thesis
          unfolding nn by simp
      next
        case False
        then show ?thesis using Inl True
          by (simp add: step rpc_loop_exit)
      qed
    qed
  qed
qed

lemma rpc_loop_delays_ex:
  "\<exists>n. delays (snd (rpc_loop env a l)) = map (\<lambda>k. 800 * k) [a + 1 ..< a + 1 + n]"
proof (induction env a l rule: rpc_loop.induct)
  case (1 env attempt lastErr)
  have none: "delays (snd (rpc_loop env attempt lastErr)) = [] \<Longrightarrow> ?case"
    by (rule exI [of _ 0]) simp
  show ?case
  proof (cases "attempt < maxAttempts")
    case False
    then show ?thesis by (intro none) (simp add: rpc_loop_exit)
  next
    case lt: True
    show ?thesis
    proof (cases "rpc_create env (attempt + 1)")
      case (Inr sg)
      with lt show ?thesis by (intro none) (simp add: rpc_loop_unfold)
    next
      case (Inl e1)
      show ?thesis
      proof (cases "retriable e1")
        case False
        with lt Inl show ?thesis by (intro none) (simp add: rpc_loop_unfold)
      next
        case True
        have step: "delays (snd (rpc_loop env attempt lastErr)) =
            800 * (attempt + 1) # delays (snd (rpc_loop env (attempt + 1) (Some e1)))"
          using lt Inl True by (simp add: rpc_loop_unfold)
        from "1.IH" [OF lt Inl True] obtain n where
          "delays (snd (rpc_loop env (attempt + 1) (Some e1)))
             = map (\<lambda>k. 800 * k) [attempt + 1 + 1 ..< attempt + 1 + 1 + n]"
          by blast
        then have "delays (snd (rpc_loop env attempt lastErr))
             = map (\<lambda>k. 800 * k) [attempt + 1 ..< attempt + 1 + Suc n]"
          by (simp add: step upt_conv_Cons)
        then show ?thesis by blast
      qed
    qed
  qed
qed

lemma rpc_loop_delays:
  "delays (snd (rpc_loop env a l)) =
     map (\<lambda>k. 800 * k) [a + 1 ..< a + 1 + length (delays (snd (rpc_loop env a l)))]"
proof -
  obtain n where n: "delays (snd (rpc_loop env a l)) = map (\<lambda>k. 800 * k) [a + 1 ..< a + 1 + n]"
    using rpc_loop_delays_ex by blast
  then have "length (delays (snd (rpc_loop env a l))) = n" by simp
  with n show ?thesis by simp
qed

lemma rpc_loop_delays_le: "length (delays (snd (rpc_loop env a l))) \<le> attempts (snd (rpc_loop env a l))"
proof (induction env a l rule: rpc_loop.induct)
  case (1 env attempt lastErr)
  show ?case
  proof (cases "attempt < maxAttempts")
    case False
    then show ?thesis by (simp add: rpc_loop_exit)
  next
    case lt: True
    show ?thesis
    proof (cases "rpc_create env (attempt + 1)")
      case (Inr sg)
      with lt show ?thesis by (simp add: rpc_loop_unfold)
    next
      case (Inl e1)
      show ?thesis
      proof (cases "retriable e1")
        case False
        with lt Inl show ?thesis by (simp add: rpc_loop_unfold)
      next
        case True
        from "1.IH" [OF lt Inl True] lt Inl True show ?thesis
          by (simp add: rpc_loop_unfold)
      qed
    qed
  qed
qed

lemma rpc_loop_head:
  "takeWhile (\<lambda>y. \<not> is_attempt y) (snd (rpc_loop env a l)) = []"
  by (cases "a < maxAttempts") (auto simp: rpc_loop_unfold rpc_loop_exit split: sum.splits)

lemma rpc_loop_waits:
  "waits_after (snd (rpc_loop env a l)) =
     map (\<lambda>k. if stale_failure_it1 env k then [800 * k] else [])
       [a + 1 ..< a + 1 + attempts (snd (rpc_loop env a l))]"
proof (induction env a l rule: rpc_loop.induct)
  case (1 env attempt lastErr)
  show ?case
  proof (cases "attempt < maxAttempts")
    case False
    then show ?thesis by (simp add: rpc_loop_exit)
  next
    case lt: True
    show ?thesis
    proof (cases "rpc_create env (attempt + 1)")
      case (Inr sg)
      with lt show ?thesis by (simp add: rpc_loop_unfold stale_failure_it1_def)
    next
      case (Inl e1)
      show ?thesis
      proof (cases "retriable e1")
        case False
        with lt Inl show ?thesis by (simp add: rpc_loop_unfold stale_failure_it1_def)
      next
        case True
        have step: "snd (rpc_loop env attempt lastErr) =
            RpcCreate # (ConsoleWarn # snd (refresh_it1 env (attempt + 1)))
            @ Timeout (800 * (attempt + 1)) # snd (rpc_loop env (attempt + 1) (Some e1))"
          using lt Inl True by (simp add: rpc_loop_unfold)
        have q: "attempts (ConsoleWarn # snd (refresh_it1 env (attempt + 1))) = 0"
          by simp
        have w: "waits_after (snd (rpc_loop env attempt lastErr)) =
            [800 * (attempt + 1)] # waits_after (snd (rpc_loop env (attempt + 1) (Some e1)))"
          unfolding step
          by (simp only: waits_after.simps is_attempt.simps if_True takeWhile_quiet_append [OF q]
                waits_after_quiet_append [OF q])
             (simp add: rpc_loop_head)
        have n: "attempts (snd (rpc_loop env attempt lastErr))
                   = Suc (attempts (snd (rpc_loop env (attempt + 1) (Some e1))))"
          by (simp add: step)
        have s: "stale_failure_it1 env (attempt + 1)"
          using Inl True by (simp add: stale_failure_it1_def)
        have u: "[attempt + 1 ..< attempt + 1 + Suc m] = (attempt + 1) # [attempt + 1 + 1 ..< attempt + 1 + 1 + m]"
          for m by (simp add: upt_conv_Cons)
        show ?thesis
          unfolding w n "1.IH" [OF lt Inl True] u using s
          by (simp only: list.map if_True simp_thms)
      qed
    qed
  qed
qed

lemma rpc_with_retry_trace: "snd (rpc_with_retry env) = snd (rpc_loop env 0 None)"
  by (simp add: rpc_with_retry_def snd_andThen split: sum.splits option.splits)

lemma rpc_with_retry_result:
  "fst (rpc_with_retry env) =
     (case fst (rpc_loop env 0 None) of
        Inl e \<Rightarrow> Inl e
      | Inr None \<Rightarrow> Inr ()
      | Inr (Some e) \<Rightarrow> if truthy_value e then Inl e else Inr ())"
  by (simp add: rpc_with_retry_def fst_andThen fst_throw_if_truthy split: sum.splits option.splits)

subsection \<open>createCampaign around the retry loop\<close>

lemma andThen_returns: "fst m = Inr x \<Longrightarrow> andThen m f = prepend (snd m) (f x)"
  by (simp add: andThen_def prepend_def)

lemma ensureBalance_quiet [simp]:
  "statuses (snd (ensureBalance env m)) = []" "program_ids (snd (ensureBalance env m)) = []"
  by (simp_all add: ensureBalance_trace split: sum.splits)

lemma send_loop_quiet [simp]:
  "statuses (snd (send_loop env a l bh)) = []" "program_ids (snd (send_loop env a l bh)) = []"
proof (induction env a l bh rule: send_loop.induct)
  case (1 env attempt lastErr bh)
  {
    case 1
    show ?case
    proof (cases "attempt < maxAttempts")
      case False
      then show ?thesis by (simp add: send_loop_exit)
    next
      case True
      with "1.IH"(1) show ?thesis by (auto simp: send_loop_unfold split: sum.splits)
    qed
  next
    case 2
    show ?case
    proof (cases "attempt < maxAttempts")
      case False
      then show ?thesis by (simp add: send_loop_exit)
    next
      case True
      with "1.IH"(2) show ?thesis by (auto simp: send_loop_unfold split: sum.splits)
    qed
  }
qed

lemma refresh_it1_silent [simp]:
  "statuses (snd (refresh_it1 env k)) = []" "program_ids (snd (refresh_it1 env k)) = []"
  by (simp_all add: refresh_it1_def snd_try_catch snd_andThen split: sum.splits)

lemma rpc_loop_quiet [simp]:
  "statuses (snd (rpc_loop env a l)) = []" "program_ids (snd (rpc_loop env a l)) = []"
proof (induction env a l rule: rpc_loop.induct)
  case (1 env attempt lastErr)
  {
    case 1
    show ?case
    proof (cases "attempt < maxAttempts")
      case False
      then show ?thesis by (simp add: rpc_loop_exit)
    next
      case True
      with "1.IH"(1) show ?thesis by (auto simp: rpc_loop_unfold split: sum.splits)
    qed
  next
    case 2
    show ?case
    proof (cases "attempt < maxAttempts")
      case False
      then show ?thesis by (simp add: rpc_loop_exit)
    next
      case True
      with "1.IH"(2) show ?thesis by (auto simp: rpc_loop_unfold split: sum.splits)
    qed
  }
qed

lemma fetch_loop_no_delays [simp]: "delays (snd (fetch_loop env accs acc)) = []"
  by (induction accs arbitrary: acc) (simp_all split: sum.splits)

lemma getCampaigns_no_delays [simp]: "delays (snd (getCampaigns env r)) = []"
  by (simp add: getCampaigns_def snd_try_catch snd_andThen fst_andThen split: sum.splits)

lemma createCampaign_reaches_send:
  assumes "create_reaches_send env r bh"
  shows "\<exists>pre. attempts pre = 0 \<and> statuses pre = [] \<and>
     createCampaign env r =
       try_finally
         (try_catch
            (prepend pre
               (andThen (send_with_retry env bh) (\<lambda>_.
                  prepend [SetWalletStatus ''Campaign created successfully!'',
                           SetCampaignName [], SetCampaignDescription []]
                    (getCampaigns env r))))
            create_catch)
         [SetCreatingCampaign False]"
proof -
  from assms have p: "create_prepared env r" and q: "instruction env = Inr ()"
    "getLatestBlockhash env 0 = Inr bh" "simulateTransaction env = Inr ()"
    by (simp_all add: create_reaches_send_def)
  have s: "create_submit env r =
      prepend [BuildInstruction, GetLatestBlockhash, SimulateTransaction]
        (andThen (send_with_retry env bh) (\<lambda>_.
           prepend [SetWalletStatus ''Campaign created successfully!'',
                    SetCampaignName [], SetCampaignDescription []]
             (getCampaigns env r)))"
    using q by (simp add: create_submit_def)
  show ?thesis
    by (rule exI [of _ "[SetCreatingCampaign True, NewProgram (projr (resolveProgramID env)),
                         FindProgramAddress (projr (resolveProgramID env)), FetchNullable]
                        @ snd (ensureBalance env thresholdLamports)
                        @ [BuildInstruction, GetLatestBlockhash, SimulateTransaction]"])
       (simp add: createCampaign_prepared [OF p] andThen_returns [OF ensureBalance_returns] s)
qed

lemma createCampaign_trace_throw:
  assumes "create_reaches_send env r bh" "fst (send_with_retry env bh) = Inl e"
  shows "\<exists>pre. attempts pre = 0 \<and> statuses pre = [] \<and>
           snd (createCampaign env r) =
             pre @ snd (send_with_retry env bh) @ snd (create_catch e) @ [SetCreatingCampaign False]"
proof -
  from createCampaign_reaches_send [OF assms(1)] obtain pre where
    "attempts pre = 0" "statuses pre = []"
    and c: "createCampaign env r =
       try_finally
         (try_catch
            (prepend pre
               (andThen (send_with_retry env bh) (\<lambda>_.
                  prepend [SetWalletStatus ''Campaign created successfully!'',
                           SetCampaignName [], SetCampaignDescription []]
                    (getCampaigns env r))))
            create_catch)
         [SetCreatingCampaign False]"
    by blast
  moreover have "snd (createCampaign env r) =
             pre @ snd (send_with_retry env bh) @ snd (create_catch e) @ [SetCreatingCampaign False]"
    using assms(2) by (simp add: c snd_try_catch snd_andThen fst_andThen)
  ultimately show ?thesis by blast
qed

lemma createCampaign_trace_return:
  assumes "create_reaches_send env r bh" "fst (send_with_retry env bh) = Inr ()"
  shows "\<exists>pre post. attempts pre = 0 \<and> statuses pre = [] \<and> attempts post = 0 \<and> delays post = [] \<and>
           snd (createCampaign env r) =
             pre @ snd (send_with_retry env bh)
             @ SetWalletStatus ''Campaign created successfully!'' # post"
proof -
  from createCampaign_reaches_send [OF assms(1)] obtain pre where
    "attempts pre = 0" "statuses pre = []"
    and c: "createCampaign env r =
       try_finally
         (try_catch
            (prepend pre
               (andThen (send_with_retry env bh) (\<lambda>_.
                  prepend [SetWalletStatus ''Campaign created successfully!'',
                           SetCampaignName [], SetCampaignDescription []]
                    (getCampaigns env r))))
            create_catch)
         [SetCreatingCampaign False]"
    by blast
  moreover define post where "post =
      [SetCampaignName [], SetCampaignDescription []] @ snd (getCampaigns env r)
      @ (case fst (getCampaigns env r) of Inl e \<Rightarrow> snd (create_catch e) | Inr x \<Rightarrow> [])
      @ [SetCreatingCampaign False]"
  moreover have "attempts post = 0" "delays post = []"
    by (simp_all add: post_def split: sum.splits)
  moreover have "snd (createCampaign env r) =
             pre @ snd (send_with_retry env bh)
             @ SetWalletStatus ''Campaign created successfully!'' # post"
    using assms(2)
    by (simp add: c post_def snd_try_catch snd_andThen fst_andThen split: sum.splits)
  ultimately show ?thesis by blast
qed

lemma createCampaign_around_loop:
  assumes "create_reaches_send env r bh"
  shows "\<exists>pre post. attempts pre = 0 \<and> attempts post = 0 \<and> delays post = [] \<and>
           snd (createCampaign env r) = pre @ snd (send_with_retry env bh) @ post"
proof (cases "fst (send_with_retry env bh)")
  case (Inl e)
  from createCampaign_trace_throw [OF assms Inl] obtain pre where
    "attempts pre = 0"
    "snd (createCampaign env r) =
       pre @ snd (send_with_retry env bh) @ snd (create_catch e) @ [SetCreatingCampaign False]"
    by blast
  moreover have "attempts (snd (create_catch e) @ [SetCreatingCampaign False]) = 0"
    "delays (snd (create_catch e) @ [SetCreatingCampaign False]) = []"
    by simp_all
  ultimately show ?thesis by blast
next
  case (Inr u)
  then have "fst (send_with_retry env bh) = Inr ()" by simp
  from createCampaign_trace_return [OF assms this] obtain pre post where
    "attempts pre = 0" "attempts post = 0" "delays post = []"
    "snd (createCampaign env r) =
       pre @ snd (send_with_retry env bh) @ SetWalletStatus ''Campaign created successfully!'' # post"
    by blast
  moreover from this have
    "attempts (SetWalletStatus ''Campaign created successfully!'' # post) = 0"
    "delays (SetWalletStatus ''Campaign created successfully!'' # post) = []"
    by simp_all
  ultimately show ?thesis by blast
qed

lemma createCampaign_loop_observations:
  assumes "create_reaches_send env r bh"
  shows "attempts (snd (createCampaign env r)) = attempts (snd (send_with_retry env bh))"
    and "waits_after (snd (createCampaign env r)) = waits_after (snd (send_with_retry env bh))"
    and "sent_hashes (snd (createCampaign env r)) = sent_hashes (snd (send_with_retry env bh))"
proof -
  from createCampaign_around_loop [OF assms] obtain pre post where
    a: "attempts pre = 0" and b: "attempts post = 0" and c: "delays post = []"
    and t: "snd (createCampaign env r) = pre @ snd (send_with_retry env bh) @ post"
    by blast
  show "attempts (snd (createCampaign env r)) = attempts (snd (send_with_retry env bh))"
    by (simp add: t a b)
  show "waits_after (snd (createCampaign env r)) = waits_after (snd (send_with_retry env bh))"
    by (simp add: t waits_after_quiet_append [OF a] waits_after_append_quiet [OF b c])
  show "sent_hashes (snd (createCampaign env r)) = sent_hashes (snd (send_with_retry env bh))"
    by (simp add: t sent_hashes_quiet [OF a] sent_hashes_quiet [OF b])
qed

lemma send_with_retry_silent [simp]: "statuses (snd (send_with_retry env bh)) = []"
  by (simp add: send_with_retry_trace)

lemma rpc_with_retry_silent [simp]: "statuses (snd (rpc_with_retry env)) = []"
  by (simp add: rpc_with_retry_trace)

lemma createCampaign_status_throw:
  assumes "create_reaches_send env r bh" "fst (send_with_retry env bh) = Inl e" "e \<noteq> Nullish"
  shows "statuses (snd (createCampaign env r)) = [create_error_status e]"
proof -
  from createCampaign_trace_throw [OF assms(1,2)] obtain pre where
    "statuses pre = []"
    "snd (createCampaign env r) =
       pre @ snd (send_with_retry env bh) @ snd (create_catch e) @ [SetCreatingCampaign False]"
    by blast
  then show ?thesis by (simp add: create_catch_other [OF assms(3)])
qed

lemma createCampaign_status_return:
  assumes "create_reaches_send env r bh" "fst (send_with_retry env bh) = Inr ()"
  shows "\<exists>t. statuses (snd (createCampaign env r)) = ''Campaign created successfully!'' # t"
proof -
  from createCampaign_trace_return [OF assms] obtain pre post where
    "statuses pre = []"
    "snd (createCampaign env r) =
       pre @ snd (send_with_retry env bh) @ SetWalletStatus ''Campaign created successfully!'' # post"
    by blast
  then show ?thesis by simp
qed

text \<open>The same for the first iteration, whose diagnostics never stop the run.\<close>

lemma diagnostics_it1_returns: "fst (diagnostics_it1 env rid) = Inr ()"
  by (simp add: diagnostics_it1_def fst_try_catch fst_andThen split: sum.splits)

lemma diagnostics_it1_quiet [simp]:
  "attempts (snd (diagnostics_it1 env rid)) = 0" "statuses (snd (diagnostics_it1 env rid)) = []"
  "delays (snd (diagnostics_it1 env rid)) = []"
  by (simp_all add: diagnostics_it1_def snd_try_catch snd_andThen split: sum.splits)

lemma createCampaign_it1_reaches_loop:
  assumes "create_prepared_it1 env r"
  shows "\<exists>pre. attempts pre = 0 \<and> statuses pre = [] \<and>
     createCampaign_it1 env r =
       try_catch
         (prepend pre
            (andThen (rpc_with_retry env) (\<lambda>_.
               emit [SetWalletStatus (''Campaign created successfully! Address: ''
                                       @ projr (findProgramAddress env))])))
         (create_catch_it1 env)"
  by (rule exI [of _ "[NewProgram (projr (resolveProgramID env)),
                       FindProgramAddress (projr (resolveProgramID env))]
                      @ snd (ensureBalance env thresholdLamports)
                      @ snd (diagnostics_it1 env (projr (resolveProgramID env)))"])
     (simp add: createCampaign_it1_prepared [OF assms] andThen_returns [OF ensureBalance_returns]
        create_submit_it1_def andThen_returns [OF diagnostics_it1_returns])

lemma create_catch_it1_other:
  assumes "\<not> isl (resolveProgramID env)" "e \<noteq> Nullish"
  shows "create_catch_it1 env e =
           (Inr (), ConsoleError # (if isDeclaredMismatch e then [ConsoleError] else [])
                    @ [SetWalletStatus (create_error_status e)])"
proof -
  from assms(1) obtain p where "runtimeProgramID env = Inr p"
    by (cases "runtimeProgramID env") (simp_all add: resolveProgramID_def)
  with assms(2) show ?thesis
    by (simp add: create_catch_it1_def create_error_status_def prod_eq_iff)
qed

lemma createCampaign_it1_trace_throw:
  assumes "create_prepared_it1 env r" "fst (rpc_with_retry env) = Inl e"
  shows "\<exists>pre. attempts pre = 0 \<and> statuses pre = [] \<and>
           snd (createCampaign_it1 env r) =
             pre @ snd (rpc_with_retry env) @ snd (create_catch_it1 env e)"
proof -
  from createCampaign_it1_reaches_loop [OF assms(1)] obtain pre where
    "attempts pre = 0" "statuses pre = []"
    and c: "createCampaign_it1 env r =
       try_catch
         (prepend pre
            (andThen (rpc_with_retry env) (\<lambda>_.
               emit [SetWalletStatus (''Campaign created successfully! Address: ''
                                       @ projr (findProgramAddress env))])))
         (create_catch_it1 env)"
    by blast
  moreover have "snd (createCampaign_it1 env r) =
             pre @ snd (rpc_with_retry env) @ snd (create_catch_it1 env e)"
    using assms(2) by (simp add: c snd_try_catch snd_andThen fst_andThen)
  ultimately show ?thesis by blast
qed

lemma createCampaign_it1_trace_return:
  assumes "create_prepared_it1 env r" "fst (rpc_with_retry env) = Inr ()"
  shows "\<exists>pre. attempts pre = 0 \<and> statuses pre = [] \<and>
           snd (createCampaign_it1 env r) =
             pre @ snd (rpc_with_retry env)
             @ [SetWalletStatus (''Campaign created successfully! Address: ''
                                  @ projr (findProgramAddress env))]"
proof -
  from createCampaign_it1_reaches_loop [OF assms(1)] obtain pre where
    "attempts pre = 0" "statuses pre = []"
    and c: "createCampaign_it1 env r =
       try_catch
         (prepend pre
            (andThen (rpc_with_retry env) (\<lambda>_.
               emit [SetWalletStatus (''Campaign created successfully! Address: ''
                                       @ projr (findProgramAddress env))])))
         (create_catch_it1 env)"
    by blast
  moreover have "snd (createCampaign_it1 env r) =
             pre @ snd (rpc_with_retry env)
             @ [SetWalletStatus (''Campaign created successfully! Address: ''
                                  @ projr (findProgramAddress env))]"
    using assms(2) by (simp add: c snd_try_catch snd_andThen fst_andThen)
  ultimately show ?thesis by blast
qed

lemma createCampaign_it1_around_loop:
  assumes "create_prepared_it1 env r"
  shows "\<exists>pre post. attempts pre = 0 \<and> attempts post = 0 \<and> delays post = [] \<and>
           snd (createCampaign_it1 env r) = pre @ snd (rpc_with_retry env) @ post"
proof (cases "fst (rpc_with_retry env)")
  case (Inl e)
  from createCampaign_it1_trace_throw [OF assms Inl] obtain pre where
    "attempts pre = 0"
    "snd (createCampaign_it1 env r) = pre @ snd (rpc_with_retry env) @ snd (create_catch_it1 env e)"
    by blast
  moreover have "attempts (snd (create_catch_it1 env e)) = 0"
    "delays (snd (create_catch_it1 env e)) = []"
    by simp_all
  ultimately show ?thesis by blast
next
  case (Inr u)
  then have "fst (rpc_with_retry env) = Inr ()" by simp
  from createCampaign_it1_trace_return [OF assms this] obtain pre where
    "attempts pre = 0"
    "snd (createCampaign_it1 env r) =
       pre @ snd (rpc_with_retry env)
       @ [SetWalletStatus (''Campaign created successfully! Address: ''
                            @ projr (findProgramAddress env))]"
    by blast
  moreover have
    "attempts [SetWalletStatus (''Campaign created successfully! Address: ''
                                 @ projr (findProgramAddress env))] = 0"
    "delays [SetWalletStatus (''Campaign created successfully! Address: ''
                               @ projr (findProgramAddress env))] = []"
    by simp_all
  ultimately show ?thesis by blast
qed

lemma createCampaign_it1_loop_observations:
  assumes "create_prepared_it1 env r"
  shows "attempts (snd (createCampaign_it1 env r)) = attempts (snd (rpc_with_retry env))"
    and "waits_after (snd (createCampaign_it1 env r)) = waits_after (snd (rpc_with_retry env))"
proof -
  from createCampaign_it1_around_loop [OF assms] obtain pre post where
    a: "attempts pre = 0" and b: "attempts post = 0" and c: "delays post = []"
    and t: "snd (createCampaign_it1 env r) = pre @ snd (rpc_with_retry env) @ post"
    by blast
  show "attempts (snd (createCampaign_it1 env r)) = attempts (snd (rpc_with_retry env))"
    by (simp add: t a b)
  show "waits_after (snd (createCampaign_it1 env r)) = waits_after (snd (rpc_with_retry env))"
    by (simp add: t waits_after_quiet_append [OF a] waits_after_append_quiet [OF b c])
qed

lemma createCampaign_it1_status_throw:
  assumes "create_prepared_it1 env r" "fst (rpc_with_retry env) = Inl e" "e \<noteq> Nullish"
  shows "statuses (snd (createCampaign_it1 env r)) = [create_error_status e]"
proof -
  from assms(1) have res: "\<not> isl (resolveProgramID env)"
    by (simp add: create_prepared_it1_def)
  from createCampaign_it1_trace_throw [OF assms(1,2)] obtain pre where
    "statuses pre = []"
    "snd (createCampaign_it1 env r) = pre @ snd (rpc_with_retry env) @ snd (create_catch_it1 env e)"
    by blast
  then show ?thesis by (simp add: create_catch_it1_other [OF res assms(3)])
qed

lemma createCampaign_it1_status_return:
  assumes "create_prepared_it1 env r" "fst (rpc_with_retry env) = Inr ()"
  shows "statuses (snd (createCampaign_it1 env r)) =
           [''Campaign created successfully! Address: '' @ projr (findProgramAddress env)]"
proof -
  from createCampaign_it1_trace_return [OF assms] obtain pre where
    "statuses pre = []"
    "snd (createCampaign_it1 env r) =
       pre @ snd (rpc_with_retry env)
       @ [SetWalletStatus (''Campaign created successfully! Address: ''
                            @ projr (findProgramAddress env))]"
    by blast
  then show ?thesis by simp
qed

subsection \<open>The attempts of the loop\<close>

lemma send_loop_next_iff:
  "a < k \<Longrightarrow> k \<le> a + attempts (snd (send_loop env a l bh)) \<Longrightarrow>
     (k < a + attempts (snd (send_loop env a l bh)))
       = (k < maxAttempts \<and> stale_failure env k \<and> \<not> isl (getLatestBlockhash env k))"
proof (induction env a l bh rule: send_loop.induct)
  case (1 env attempt lastErr bh)
  show ?case
  proof (cases "attempt < maxAttempts")
    case False
    with "1.prems" show ?thesis by (simp add: send_loop_exit)
  next
    case lt: True
    show ?thesis
    proof (cases "stale_failure env (attempt + 1) \<and> \<not> isl (getLatestBlockhash env (attempt + 1))")
      case False
      with lt have "attempts (snd (send_loop env attempt lastErr bh)) = 1"
        by (auto simp: send_loop_unfold stale_failure_def split: sum.splits)
      moreover from this "1.prems" have "k = attempt + 1" by simp
      ultimately show ?thesis using False by auto
    next
      case True
      then obtain e1 where Inl: "sendAndConfirm env (attempt + 1) = Inl e1" and r: "retriable e1"
        by (cases "sendAndConfirm env (attempt + 1)") (simp_all add: stale_failure_def)
      from True obtain latest where lb: "getLatestBlockhash env (attempt + 1) = Inr latest"
        by (cases "getLatestBlockhash env (attempt + 1)") auto
      have n: "attempts (snd (send_loop env attempt lastErr bh))
                 = 1 + attempts (snd (send_loop env (attempt + 1) (Some e1) latest))"
        using lt Inl r lb by (simp add: send_loop_unfold)
      show ?thesis
      proof (cases "k = attempt + 1")
        case k: True
        with n True "1.prems" send_loop_attempts_pos [of env "attempt + 1" "Some e1" latest]
        show ?thesis by auto
      next
        case False
        with "1.prems" n have "attempt + 1 < k"
          and "k \<le> (attempt + 1) + attempts (snd (send_loop env (attempt + 1) (Some e1) latest))"
          by auto
        from "1.IH" [OF lt Inl r lb this] n show ?thesis by simp
      qed
    qed
  qed
qed

lemma rpc_loop_next_iff:
  "a < k \<Longrightarrow> k \<le> a + attempts (snd (rpc_loop env a l)) \<Longrightarrow>
     (k < a + attempts (snd (rpc_loop env a l))) = (k < maxAttempts \<and> stale_failure_it1 env k)"
proof (induction env a l rule: rpc_loop.induct)
  case (1 env attempt lastErr)
  show ?case
  proof (cases "attempt < maxAttempts")
    case False
    with "1.prems" show ?thesis by (simp add: rpc_loop_exit)
  next
    case lt: True
    show ?thesis
    proof (cases "stale_failure_it1 env (attempt + 1)")
      case False
      with lt have "attempts (snd (rpc_loop env attempt lastErr)) = 1"
        by (auto simp: rpc_loop_unfold stale_failure_it1_def split: sum.splits)
      moreover from this "1.prems" have "k = attempt + 1" by simp
      ultimately show ?thesis using False by auto
    next
      case True
      then obtain e1 where Inl: "rpc_create env (attempt + 1) = Inl e1" and r: "retriable e1"
        by (cases "rpc_create env (attempt + 1)") (simp_all add: stale_failure_it1_def)
      have n: "attempts (snd (rpc_loop env attempt lastErr))
                 = 1 + attempts (snd (rpc_loop env (attempt + 1) (Some e1)))"
        using lt Inl r by (simp add: rpc_loop_unfold)
      show ?thesis
      proof (cases "k = attempt + 1")
        case k: True
        with n True "1.prems" rpc_loop_attempts_pos [of env "attempt + 1" "Some e1"]
        show ?thesis by auto
      next
        case False
        with "1.prems" n have "attempt + 1 < k"
          and "k \<le> (attempt + 1) + attempts (snd (rpc_loop env (attempt + 1) (Some e1)))"
          by auto
        from "1.IH" [OF lt Inl r this] n show ?thesis by simp
      qed
    qed
  qed
qed

lemma send_attempts_bounds:
  "1 \<le> attempts (snd (send_with_retry env bh))" "attempts (snd (send_with_retry env bh)) \<le> maxAttempts"
  using send_loop_attempts_pos [of env 0 None bh] send_loop_attempts_le [of env 0 None bh]
  by (simp_all add: send_with_retry_trace maxAttempts_pos Suc_le_eq)

lemma rpc_attempts_bounds:
  "1 \<le> attempts (snd (rpc_with_retry env))" "attempts (snd (rpc_with_retry env)) \<le> maxAttempts"
  using rpc_loop_attempts_pos [of env 0 None] rpc_loop_attempts_le [of env 0 None]
  by (simp_all add: rpc_with_retry_trace maxAttempts_pos Suc_le_eq)

lemma send_next_iff:
  assumes "1 \<le> k" "k \<le> attempts (snd (send_with_retry env bh))"
  shows "(k < attempts (snd (send_with_retry env bh)))
           = (k < maxAttempts \<and> stale_failure env k \<and> \<not> isl (getLatestBlockhash env k))"
  using send_loop_next_iff [of 0 k env None bh] assms by (simp add: send_with_retry_trace)

lemma rpc_next_iff:
  assumes "1 \<le> k" "k \<le> attempts (snd (rpc_with_retry env))"
  shows "(k < attempts (snd (rpc_with_retry env))) = (k < maxAttempts \<and> stale_failure_it1 env k)"
  using rpc_loop_next_iff [of 0 k env None] assms by (simp add: rpc_with_retry_trace)

text \<open>What the loop and the statement after it do with the error of the last attempt.\<close>

lemma send_last_outcome:
  assumes "sendAndConfirm env (attempts (snd (send_with_retry env bh))) = Inl e"
  shows "fst (send_with_retry env bh) =
           (if retriable e then
              (case getLatestBlockhash env (attempts (snd (send_with_retry env bh))) of
                 Inl e' \<Rightarrow> Inl e'
               | Inr latest \<Rightarrow> Inl e)
            else if truthy_value e then Inl e else Inr ())"
proof -
  have "fst (send_loop env 0 None bh) =
      (if retriable e then
         (case getLatestBlockhash env (attempts (snd (send_loop env 0 None bh))) of
            Inl e' \<Rightarrow> Inl e'
          | Inr latest \<Rightarrow> Inr (Some e))
       else Inr (Some e))"
    using send_loop_result [OF maxAttempts_pos, of env None bh] assms
    by (simp add: send_with_retry_trace)
  then show ?thesis
    using retriable_truthy [of e]
    by (simp add: send_with_retry_result send_with_retry_trace split: sum.splits)
qed

lemma rpc_last_outcome:
  assumes "rpc_create env (attempts (snd (rpc_with_retry env))) = Inl e"
  shows "fst (rpc_with_retry env) = (if truthy_value e then Inl e else Inr ())"
  using rpc_loop_result [OF maxAttempts_pos, of env None] assms
  by (simp add: rpc_with_retry_result rpc_with_retry_trace)

lemma create_submit_attempts: "attempts (snd (create_submit env r)) \<le> maxAttempts"
  using send_loop_attempts_le [of env 0 None]
  by (simp add: create_submit_def snd_andThen fst_andThen send_with_retry_trace split: sum.splits)

lemma create_submit_it1_attempts: "attempts (snd (create_submit_it1 env rid c)) \<le> maxAttempts"
  using rpc_loop_attempts_le [of env 0 None]
  by (simp add: create_submit_it1_def snd_andThen fst_andThen rpc_with_retry_trace
      split: sum.splits)

lemma createCampaign_attempts: "attempts (snd (createCampaign env r)) \<le> maxAttempts"
  using create_submit_attempts [of env r]
  by (simp add: createCampaign_def snd_try_catch snd_andThen fst_andThen ensureBalance_returns
      split: sum.splits option.splits)

lemma createCampaign_it1_attempts: "attempts (snd (createCampaign_it1 env r)) \<le> maxAttempts"
proof -
  have "attempts (snd (create_submit_it1 env rid c)) \<le> maxAttempts" for rid c
    by (rule create_submit_it1_attempts)
  then show ?thesis
    by (simp add: createCampaign_it1_def snd_try_catch snd_andThen fst_andThen ensureBalance_returns
      split: sum.splits option.splits)
qed

text \<open>
  A run of \<open>createCampaign\<close> that reaches the loop makes the attempts of the loop; what
  follows from the outcome of the last one.
\<close>

lemma create_last_attempt:
  assumes "create_reaches_send env r bh" "n = attempts (snd (createCampaign env r))"
  shows "n = attempts (snd (send_with_retry env bh))" and "1 \<le> n" and "n \<le> maxAttempts"
    and "\<And>k. 1 \<le> k \<Longrightarrow> k \<le> n \<Longrightarrow>
           (k < n) = (k < maxAttempts \<and> stale_failure env k \<and> \<not> isl (getLatestBlockhash env k))"
    and "\<And>e. sendAndConfirm env n = Inl e \<Longrightarrow> truthy_value e \<Longrightarrow>
           \<not> (retriable e \<and> isl (getLatestBlockhash env n)) \<Longrightarrow>
           fst (send_with_retry env bh) = Inl e
           \<and> statuses (snd (createCampaign env r)) = [create_error_status e]"
    and "\<And>e e'. sendAndConfirm env n = Inl e \<Longrightarrow> retriable e \<Longrightarrow>
           getLatestBlockhash env n = Inl e' \<Longrightarrow>
           fst (send_with_retry env bh) = Inl e'
           \<and> (e' \<noteq> Nullish \<longrightarrow> statuses (snd (createCampaign env r)) = [create_error_status e'])"
    and "\<And>e. sendAndConfirm env n = Inl e \<Longrightarrow> \<not> truthy_value e \<Longrightarrow>
           fst (send_with_retry env bh) = Inr ()
           \<and> (\<exists>t. statuses (snd (createCampaign env r)) = ''Campaign created successfully!'' # t)"
proof -
  show n: "n = attempts (snd (send_with_retry env bh))"
    by (simp add: assms(2) createCampaign_loop_observations(1) [OF assms(1)])
  show "1 \<le> n" and "n \<le> maxAttempts"
    using send_attempts_bounds [of env bh] by (simp_all add: n)
  show "(k < n) = (k < maxAttempts \<and> stale_failure env k \<and> \<not> isl (getLatestBlockhash env k))"
    if "1 \<le> k" "k \<le> n" for k
    using send_next_iff [of k env bh] that by (simp add: n)
  show "fst (send_with_retry env bh) = Inl e
        \<and> statuses (snd (createCampaign env r)) = [create_error_status e]"
    if "sendAndConfirm env n = Inl e" "truthy_value e"
      "\<not> (retriable e \<and> isl (getLatestBlockhash env n))" for e
  proof -
    from that have "fst (send_with_retry env bh) = Inl e"
      using send_last_outcome [of env bh e]
      by (cases "getLatestBlockhash env n") (auto simp: n)
    with createCampaign_status_throw [OF assms(1) _ truthy_value_not_Nullish [OF that(2)]]
    show ?thesis by simp
  qed
  show "fst (send_with_retry env bh) = Inl e'
        \<and> (e' \<noteq> Nullish \<longrightarrow> statuses (snd (createCampaign env r)) = [create_error_status e'])"
    if "sendAndConfirm env n = Inl e" "retriable e" "getLatestBlockhash env n = Inl e'" for e e'
  proof -
    from that have "fst (send_with_retry env bh) = Inl e'"
      using send_last_outcome [of env bh e] by (simp add: n)
    with createCampaign_status_throw [OF assms(1), of e'] show ?thesis by simp
  qed
  show "fst (send_with_retry env bh) = Inr ()
        \<and> (\<exists>t. statuses (snd (createCampaign env r)) = ''Campaign created successfully!'' # t)"
    if "sendAndConfirm env n = Inl e" "\<not> truthy_value e" for e
  proof -
    from that have "fst (send_with_retry env bh) = Inr ()"
      using send_last_outcome [of env bh e] retriable_truthy [of e] by (auto simp: n)
    with createCampaign_status_return [OF assms(1)] show ?thesis by simp
  qed
qed

lemma create_last_attempt_it1:
  assumes "create_prepared_it1 env r" "m = attempts (snd (createCampaign_it1 env r))"
  shows "m = attempts (snd (rpc_with_retry env))" and "1 \<le> m" and "m \<le> maxAttempts"
    and "\<And>k. 1 \<le> k \<Longrightarrow> k \<le> m \<Longrightarrow> (k < m) = (k < maxAttempts \<and> stale_failure_it1 env k)"
    and "\<And>e. rpc_create env m = Inl e \<Longrightarrow> truthy_value e \<Longrightarrow>
           fst (rpc_with_retry env) = Inl e
           \<and> statuses (snd (createCampaign_it1 env r)) = [create_error_status e]"
    and "\<And>e. rpc_create env m = Inl e \<Longrightarrow> \<not> truthy_value e \<Longrightarrow>
           fst (rpc_with_retry env) = Inr ()
           \<and> statuses (snd (createCampaign_it1 env r))
               = [''Campaign created successfully! Address: '' @ projr (findProgramAddress env)]"
proof -
  show m: "m = attempts (snd (rpc_with_retry env))"
    by (simp add: assms(2) createCampaign_it1_loop_observations(1) [OF assms(1)])
  show "1 \<le> m" and "m \<le> maxAttempts"
    using rpc_attempts_bounds [of env] by (simp_all add: m)
  show "(k < m) = (k < maxAttempts \<and> stale_failure_it1 env k)" if "1 \<le> k" "k \<le> m" for k
    using rpc_next_iff [of k env] that by (simp add: m)
  show "fst (rpc_with_retry env) = Inl e
        \<and> statuses (snd (createCampaign_it1 env r)) = [create_error_status e]"
    if "rpc_create env m = Inl e" "truthy_value e" for e
  proof -
    from that have "fst (rpc_with_retry env) = Inl e"
      using rpc_last_outcome [of env e] by (simp add: m)
    with createCampaign_it1_status_throw [OF assms(1) _ truthy_value_not_Nullish [OF that(2)]]
    show ?thesis by simp
  qed
  show "fst (rpc_with_retry env) = Inr ()
        \<and> statuses (snd (createCampaign_it1 env r))
            = [''Campaign created successfully! Address: '' @ projr (findProgramAddress env)]"
    if "rpc_create env m = Inl e" "\<not> truthy_value e" for e
  proof -
    from that have "fst (rpc_with_retry env) = Inr ()"
      using rpc_last_outcome [of env e] by (simp add: m)
    with createCampaign_it1_status_return [OF assms(1)] show ?thesis by simp
  qed
qed

subsection \<open>Sample runs\<close>

lemma sample_prepared:
  "create_prepared sample_env sample_state"
  by (simp add: create_prepared_def trim_Park sample_env_def sample_state_def sample_idl_def
      sample_wallet_def truthy_str_def idl_valid_def getProvider_def truthy_def
      resolveProgramID_def runtimeProgramID_def programID_def)

lemma sample_reaches_send:
  "create_reaches_send all_fail_env sample_state ''hash''"
  "create_reaches_send two_fail_env sample_state ''hash''"
  "create_reaches_send refresh_fail_env sample_state ''hash''"
  "create_reaches_send rejected_env sample_state ''hash''"
  "create_reaches_send undefined_rejection_env sample_state ''hash''"
  by (simp_all add: create_reaches_send_def create_prepared_def trim_Park all_fail_env_def
      two_fail_env_def refresh_fail_env_def rejected_env_def undefined_rejection_env_def
      sample_env_def sample_state_def sample_idl_def sample_wallet_def truthy_str_def
      idl_valid_def getProvider_def truthy_def resolveProgramID_def runtimeProgramID_def
      programID_def)

lemma sample_prepared_it1:
  "create_prepared_it1 all_fail_env sample_state"
  "create_prepared_it1 two_fail_env sample_state"
  "create_prepared_it1 refresh_fail_env sample_state"
  "create_prepared_it1 rejected_env sample_state"
  "create_prepared_it1 undefined_rejection_env sample_state"
  using sample_reaches_send
  by (simp_all add: create_reaches_send_def create_prepared_def create_prepared_it1_def)

lemma blockhash_error_retriable: "retriable blockhash_error" "truthy_value blockhash_error"
  by (simp_all add: retriable_def blockhash_error_def Error_def message_or_empty_def
      truthy_value_def)

lemma rejected_error_other: "\<not> retriable rejected_error" "truthy_value rejected_error"
  by (simp_all add: retriable_def rejected_error_def Error_def message_or_empty_def
      truthy_value_def)

lemma all_fail_send_run:
  "send_with_retry all_fail_env ''hash'' =
     (Inl blockhash_error,
      [SendAndConfirm ''hash'', ConsoleWarn, GetLatestBlockhash, Timeout 800,
       SendAndConfirm ''hash+'', ConsoleWarn, GetLatestBlockhash, Timeout 1600,
       SendAndConfirm ''hash++'', ConsoleWarn, GetLatestBlockhash, Timeout 2400,
       SendAndConfirm ''hash+++'', ConsoleWarn, GetLatestBlockhash, Timeout 3200])"
  using blockhash_error_retriable
  by (simp add: send_with_retry_def send_loop.simps all_fail_env_def sample_env_def maxAttempts_def
      prepend_def andThen_def throw_if_truthy_def throw_def numeral_eq_Suc)

lemma all_fail_rpc_run:
  "rpc_with_retry all_fail_env =
     (Inl blockhash_error,
      [RpcCreate, ConsoleWarn, GetLatestBlockhash, ConfirmTransaction, Timeout 800,
       RpcCreate, ConsoleWarn, GetLatestBlockhash, ConfirmTransaction, Timeout 1600,
       RpcCreate, ConsoleWarn, GetLatestBlockhash, ConfirmTransaction, Timeout 2400,
       RpcCreate, ConsoleWarn, GetLatestBlockhash, ConfirmTransaction, Timeout 3200])"
  using blockhash_error_retriable
  by (simp add: rpc_with_retry_def rpc_loop.simps all_fail_env_def sample_env_def maxAttempts_def
      prepend_def andThen_def throw_if_truthy_def throw_def refresh_it1_def try_catch_def
      call_def emit_def)

lemma two_fail_send_run:
  "send_with_retry two_fail_env ''hash'' =
     (Inr (),
      [SendAndConfirm ''hash'', ConsoleWarn, GetLatestBlockhash, Timeout 800,
       SendAndConfirm ''hash+'', ConsoleWarn, GetLatestBlockhash, Timeout 1600,
       SendAndConfirm ''hash++''])"
  using blockhash_error_retriable
  by (simp add: send_with_retry_def send_loop.simps two_fail_env_def sample_env_def maxAttempts_def
      prepend_def andThen_def throw_if_truthy_def emit_def numeral_eq_Suc)

lemma two_fail_rpc_run:
  "rpc_with_retry two_fail_env =
     (Inr (),
      [RpcCreate, ConsoleWarn, GetLatestBlockhash, ConfirmTransaction, Timeout 800,
       RpcCreate, ConsoleWarn, GetLatestBlockhash, ConfirmTransaction, Timeout 1600,
       RpcCreate])"
  using blockhash_error_retriable
  by (simp add: rpc_with_retry_def rpc_loop.simps two_fail_env_def sample_env_def maxAttempts_def
      prepend_def andThen_def throw_if_truthy_def refresh_it1_def try_catch_def
      call_def emit_def)

lemma refresh_fail_send_run:
  "send_with_retry refresh_fail_env ''hash'' =
     (Inl (Error ''429 Too Many Requests''),
      [SendAndConfirm ''hash'', ConsoleWarn, GetLatestBlockhash])"
  using blockhash_error_retriable
  by (simp add: send_with_retry_def send_loop.simps refresh_fail_env_def all_fail_env_def
      sample_env_def maxAttempts_def andThen_def)

lemma refresh_fail_rpc_run:
  "rpc_with_retry refresh_fail_env =
     (Inl blockhash_error,
      [RpcCreate, ConsoleWarn, GetLatestBlockhash, Timeout 800,
       RpcCreate, ConsoleWarn, GetLatestBlockhash, Timeout 1600,
       RpcCreate, ConsoleWarn, GetLatestBlockhash, Timeout 2400,
       RpcCreate, ConsoleWarn, GetLatestBlockhash, Timeout 3200])"
  using blockhash_error_retriable
  by (simp add: rpc_with_retry_def rpc_loop.simps refresh_fail_env_def all_fail_env_def
      sample_env_def maxAttempts_def prepend_def andThen_def throw_if_truthy_def throw_def
      refresh_it1_def try_catch_def call_def emit_def)

lemma rejected_send_run:
  "send_with_retry rejected_env ''hash'' = (Inl rejected_error, [SendAndConfirm ''hash'', ConsoleWarn])"
  using rejected_error_other
  by (simp add: send_with_retry_def send_loop.simps rejected_env_def sample_env_def maxAttempts_def
      andThen_def throw_if_truthy_def throw_def)

lemma rejected_rpc_run:
  "rpc_with_retry rejected_env = (Inl rejected_error, [RpcCreate, ConsoleWarn])"
  using rejected_error_other
  by (simp add: rpc_with_retry_def rpc_loop.simps rejected_env_def sample_env_def maxAttempts_def
      andThen_def throw_if_truthy_def throw_def)

lemma undefined_rejection_send_run:
  "send_with_retry undefined_rejection_env ''hash'' = (Inr (), [SendAndConfirm ''hash'', ConsoleWarn])"
  by (simp add: send_with_retry_def send_loop.simps undefined_rejection_env_def sample_env_def
      maxAttempts_def andThen_def throw_if_truthy_def emit_def retriable_def message_or_empty_def
      truthy_value_def)

lemma undefined_rejection_rpc_run:
  "rpc_with_retry undefined_rejection_env = (Inr (), [RpcCreate, ConsoleWarn])"
  by (simp add: rpc_with_retry_def rpc_loop.simps undefined_rejection_env_def sample_env_def
      maxAttempts_def andThen_def throw_if_truthy_def emit_def retriable_def message_or_empty_def
      truthy_value_def)

lemma sample_statuses:
  "create_error_status blockhash_error = ''Error creating campaign: Blockhash not found''"
  "create_error_status (Error ''429 Too Many Requests'')
     = ''Error creating campaign: 429 Too Many Requests''"
  "create_error_status rejected_error
     = ''Transaction cancelled by user. Please approve the transaction in your wallet.''"
  by (simp_all add: create_error_status_def isDeclaredMismatch_def userRejected_def
      blockhash_error_def rejected_error_def Error_def message_or_empty_def message_text_def)

subsection \<open>The bound on the attempts and the error that is thrown\<close>

text \<open>
  C1, as stated, is false in its second half. In \<open>page.tsx\<close> the blockhash refresh stands in
  the \<open>catch\<close> block of the loop with no handler of its own: when the only attempt made
  fails with "Blockhash not found" and the refresh fails as well, every attempt has failed,
  but what is thrown is the error of the refresh, not the error of the last attempt, and
  the status message reports the refresh error.
\<close>

theorem createCampaign_last_error_counterexample:
  "\<not> (\<forall>env bh.
         (\<forall>k. 1 \<le> k \<and> k \<le> attempts (snd (send_with_retry env bh)) \<longrightarrow> isl (sendAndConfirm env k))
         \<longrightarrow> (\<exists>e. sendAndConfirm env (attempts (snd (send_with_retry env bh))) = Inl e
                  \<and> fst (send_with_retry env bh) = Inl e))
   \<and> create_reaches_send refresh_fail_env sample_state ''hash''
   \<and> attempts (snd (createCampaign refresh_fail_env sample_state)) = 1
   \<and> sendAndConfirm refresh_fail_env 1 = Inl blockhash_error
   \<and> fst (send_with_retry refresh_fail_env ''hash'') = Inl (Error ''429 Too Many Requests'')
   \<and> statuses (snd (createCampaign refresh_fail_env sample_state))
       = [''Error creating campaign: 429 Too Many Requests'']"
proof (intro conjI notI)
  have n: "attempts (snd (send_with_retry refresh_fail_env ''hash'')) = 1"
    by (simp add: refresh_fail_send_run)
  have s: "sendAndConfirm refresh_fail_env k = Inl blockhash_error" for k
    by (simp add: refresh_fail_env_def all_fail_env_def sample_env_def)
  have d: "Error ''429 Too Many Requests'' \<noteq> blockhash_error"
    by (simp add: Error_def blockhash_error_def)
  {
    assume "\<forall>env bh.
         (\<forall>k. 1 \<le> k \<and> k \<le> attempts (snd (send_with_retry env bh)) \<longrightarrow> isl (sendAndConfirm env k))
         \<longrightarrow> (\<exists>e. sendAndConfirm env (attempts (snd (send_with_retry env bh))) = Inl e
                  \<and> fst (send_with_retry env bh) = Inl e)"
    then have "(\<forall>k. 1 \<le> k \<and> k \<le> attempts (snd (send_with_retry refresh_fail_env ''hash''))
                  \<longrightarrow> isl (sendAndConfirm refresh_fail_env k))
         \<longrightarrow> (\<exists>e. sendAndConfirm refresh_fail_env
                      (attempts (snd (send_with_retry refresh_fail_env ''hash''))) = Inl e
                  \<and> fst (send_with_retry refresh_fail_env ''hash'') = Inl e)"
      by blast
    then show False using d by (simp add: n s refresh_fail_send_run)
  }
  show "create_reaches_send refresh_fail_env sample_state ''hash''"
    by (rule sample_reaches_send)
  show "attempts (snd (createCampaign refresh_fail_env sample_state)) = 1"
    by (simp add: createCampaign_loop_observations(1) [OF sample_reaches_send(3)] n)
  show "sendAndConfirm refresh_fail_env 1 = Inl blockhash_error"
    by (rule s)
  show "fst (send_with_retry refresh_fail_env ''hash'') = Inl (Error ''429 Too Many Requests'')"
    by (simp add: refresh_fail_send_run)
  show "statuses (snd (createCampaign refresh_fail_env sample_state))
       = [''Error creating campaign: 429 Too Many Requests'']"
    using createCampaign_status_throw [OF sample_reaches_send(3), of "Error ''429 Too Many Requests''"]
    by (simp add: refresh_fail_send_run sample_statuses) (simp add: Error_def)
qed

text \<open>
  C1, amended. Every run of \<open>createCampaign\<close> makes at most \<open>maxAttempts = 4\<close> send attempts,
  in \<open>page.tsx\<close> and in the first iteration (the loop is a total function: it ends). A run
  that reaches the loop makes \<open>n \<ge> 1\<close> attempts, the attempts of the loop, and all but the
  last of them failed with a stale-blockhash message. When the last attempt fails too,
  nothing is retried further, and:
  \<^item> its error is thrown by \<open>if (lastErr) throw lastErr\<close> and reported in the status message
    when it is a truthy value, unless (in \<open>page.tsx\<close>) it is a stale-blockhash error whose
    blockhash refresh failed;
  \<^item> in that case the error of the refresh is thrown out of the loop instead, and reported
    (when it is not \<open>null\<close> or \<open>undefined\<close>);
  \<^item> a falsy rejection value is not thrown, and the run reports success.
\<close>

theorem createCampaign_retry_bounded:
  "maxAttempts = 4
   \<and> attempts (snd (createCampaign env r)) \<le> maxAttempts
   \<and> attempts (snd (createCampaign_it1 env r)) \<le> maxAttempts
   \<and> (create_reaches_send env r bh \<and> n = attempts (snd (createCampaign env r)) \<longrightarrow>
        1 \<le> n \<and> n = attempts (snd (send_with_retry env bh))
        \<and> (\<forall>k. 1 \<le> k \<and> k < n \<longrightarrow> stale_failure env k)
        \<and> (\<forall>e. sendAndConfirm env n = Inl e \<and> truthy_value e
                 \<and> \<not> (retriable e \<and> isl (getLatestBlockhash env n)) \<longrightarrow>
               fst (send_with_retry env bh) = Inl e
               \<and> statuses (snd (createCampaign env r)) = [create_error_status e])
        \<and> (\<forall>e e'. sendAndConfirm env n = Inl e \<and> retriable e
                 \<and> getLatestBlockhash env n = Inl e' \<longrightarrow>
               fst (send_with_retry env bh) = Inl e'
               \<and> (e' \<noteq> Nullish \<longrightarrow>
                    statuses (snd (createCampaign env r)) = [create_error_status e']))
        \<and> (\<forall>e. sendAndConfirm env n = Inl e \<and> \<not> truthy_value e \<longrightarrow>
               fst (send_with_retry env bh) = Inr ()
               \<and> (\<exists>t. statuses (snd (createCampaign env r))
                         = ''Campaign created successfully!'' # t)))
   \<and> (create_prepared_it1 env r \<and> m = attempts (snd (createCampaign_it1 env r)) \<longrightarrow>
        1 \<le> m \<and> m = attempts (snd (rpc_with_retry env))
        \<and> (\<forall>k. 1 \<le> k \<and> k < m \<longrightarrow> stale_failure_it1 env k)
        \<and> (\<forall>e. rpc_create env m = Inl e \<and> truthy_value e \<longrightarrow>
               fst (rpc_with_retry env) = Inl e
               \<and> statuses (snd (createCampaign_it1 env r)) = [create_error_status e])
        \<and> (\<forall>e. rpc_create env m = Inl e \<and> \<not> truthy_value e \<longrightarrow>
               fst (rpc_with_retry env) = Inr ()
               \<and> statuses (snd (createCampaign_it1 env r))
                   = [''Campaign created successfully! Address: ''
                      @ projr (findProgramAddress env)]))"
proof (intro conjI)
  show "maxAttempts = 4" by (simp add: maxAttempts_def)
  show "attempts (snd (createCampaign env r)) \<le> maxAttempts"
    by (rule createCampaign_attempts)
  show "attempts (snd (createCampaign_it1 env r)) \<le> maxAttempts"
    by (rule createCampaign_it1_attempts)
  show "create_reaches_send env r bh \<and> n = attempts (snd (createCampaign env r)) \<longrightarrow>
        1 \<le> n \<and> n = attempts (snd (send_with_retry env bh))
        \<and> (\<forall>k. 1 \<le> k \<and> k < n \<longrightarrow> stale_failure env k)
        \<and> (\<forall>e. sendAndConfirm env n = Inl e \<and> truthy_value e
                 \<and> \<not> (retriable e \<and> isl (getLatestBlockhash env n)) \<longrightarrow>
               fst (send_with_retry env bh) = Inl e
               \<and> statuses (snd (createCampaign env r)) = [create_error_status e])
        \<and> (\<forall>e e'. sendAndConfirm env n = Inl e \<and> retriable e
                 \<and> getLatestBlockhash env n = Inl e' \<longrightarrow>
               fst (send_with_retry env bh) = Inl e'
               \<and> (e' \<noteq> Nullish \<longrightarrow>
                    statuses (snd (createCampaign env r)) = [create_error_status e']))
        \<and> (\<forall>e. sendAndConfirm env n = Inl e \<and> \<not> truthy_value e \<longrightarrow>
               fst (send_with_retry env bh) = Inr ()
               \<and> (\<exists>t. statuses (snd (createCampaign env r))
                         = ''Campaign created successfully!'' # t))"
  proof (intro impI, elim conjE, intro conjI allI impI; (elim conjE)?)
    assume a: "create_reaches_send env r bh" "n = attempts (snd (createCampaign env r))"
    note l = create_last_attempt [OF a]
    show "1 \<le> n" by (rule l(2))
    show "n = attempts (snd (send_with_retry env bh))" by (rule l(1))
    show "stale_failure env k" if "1 \<le> k" "k < n" for k
      using l(4) [of k] that by simp
    show "fst (send_with_retry env bh) = Inl e"
      and "statuses (snd (createCampaign env r)) = [create_error_status e]"
      if "sendAndConfirm env n = Inl e" "truthy_value e"
        "\<not> (retriable e \<and> isl (getLatestBlockhash env n))" for e
      using l(5) [OF that] by simp_all
    show "fst (send_with_retry env bh) = Inl e'"
      if "sendAndConfirm env n = Inl e" "retriable e" "getLatestBlockhash env n = Inl e'" for e e'
      using l(6) [OF that] by simp
    show "statuses (snd (createCampaign env r)) = [create_error_status e']"
      if "sendAndConfirm env n = Inl e" "retriable e" "getLatestBlockhash env n = Inl e'"
        "e' \<noteq> Nullish" for e e'
      using l(6) [OF that(1-3)] that(4) by simp
    show "fst (send_with_retry env bh) = Inr ()"
      and "\<exists>t. statuses (snd (createCampaign env r)) = ''Campaign created successfully!'' # t"
      if "sendAndConfirm env n = Inl e" "\<not> truthy_value e" for e
      using l(7) [OF that] by simp_all
  qed
  show "create_prepared_it1 env r \<and> m = attempts (snd (createCampaign_it1 env r)) \<longrightarrow>
        1 \<le> m \<and> m = attempts (snd (rpc_with_retry env))
        \<and> (\<forall>k. 1 \<le> k \<and> k < m \<longrightarrow> stale_failure_it1 env k)
        \<and> (\<forall>e. rpc_create env m = Inl e \<and> truthy_value e \<longrightarrow>
               fst (rpc_with_retry env) = Inl e
               \<and> statuses (snd (createCampaign_it1 env r)) = [create_error_status e])
        \<and> (\<forall>e. rpc_create env m = Inl e \<and> \<not> truthy_value e \<longrightarrow>
               fst (rpc_with_retry env) = Inr ()
               \<and> statuses (snd (createCampaign_it1 env r))
                   = [''Campaign created successfully! Address: ''
                      @ projr (findProgramAddress env)])"
  proof (intro impI, elim conjE, intro conjI allI impI; (elim conjE)?)
    assume a: "create_prepared_it1 env r" "m = attempts (snd (createCampaign_it1 env r))"
    note l = create_last_attempt_it1 [OF a]
    show "1 \<le> m" by (rule l(2))
    show "m = attempts (snd (rpc_with_retry env))" by (rule l(1))
    show "stale_failure_it1 env k" if "1 \<le> k" "k < m" for k
      using l(4) [of k] that by simp
    show "fst (rpc_with_retry env) = Inl e"
      and "statuses (snd (createCampaign_it1 env r)) = [create_error_status e]"
      if "rpc_create env m = Inl e" "truthy_value e" for e
      using l(5) [OF that] by simp_all
    show "fst (rpc_with_retry env) = Inr ()"
      and "statuses (snd (createCampaign_it1 env r))
             = [''Campaign created successfully! Address: '' @ projr (findProgramAddress env)]"
      if "rpc_create env m = Inl e" "\<not> truthy_value e" for e
      using l(6) [OF that] by simp_all
  qed
qed

text \<open>
  Witness for the amended C1: four sends that fail with "Blockhash not found" (the last
  error is thrown and reported), a first send whose blockhash refresh fails (the refresh
  error is reported), and a send rejected with \<open>undefined\<close> (success is reported).
\<close>

theorem createCampaign_retry_bounded_witness:
  "attempts (snd (createCampaign all_fail_env sample_state)) = 4
   \<and> sendAndConfirm all_fail_env 4 = Inl blockhash_error
   \<and> fst (send_with_retry all_fail_env ''hash'') = Inl blockhash_error
   \<and> statuses (snd (createCampaign all_fail_env sample_state))
       = [''Error creating campaign: Blockhash not found'']
   \<and> attempts (snd (createCampaign refresh_fail_env sample_state)) = 1
   \<and> statuses (snd (createCampaign refresh_fail_env sample_state))
       = [''Error creating campaign: 429 Too Many Requests'']
   \<and> attempts (snd (createCampaign undefined_rejection_env sample_state)) = 1
   \<and> (\<exists>t. statuses (snd (createCampaign undefined_rejection_env sample_state))
             = ''Campaign created successfully!'' # t)
   \<and> attempts (snd (createCampaign_it1 all_fail_env sample_state)) = 4
   \<and> statuses (snd (createCampaign_it1 all_fail_env sample_state))
       = [''Error creating campaign: Blockhash not found'']
   \<and> attempts (snd (createCampaign_it1 undefined_rejection_env sample_state)) = 1
   \<and> statuses (snd (createCampaign_it1 undefined_rejection_env sample_state))
       = [''Campaign created successfully! Address: CampaignKey'']"
proof -
  note a = sample_reaches_send(1) and b = sample_reaches_send(3) and c = sample_reaches_send(5)
    and d = sample_prepared_it1(1) and d' = sample_prepared_it1(5)
  have "attempts (snd (createCampaign all_fail_env sample_state))
          = attempts (snd (send_with_retry all_fail_env ''hash''))"
    using createCampaign_retry_bounded [of all_fail_env sample_state "''hash''"
        "attempts (snd (createCampaign all_fail_env sample_state))"] a
    by simp
  then have n1: "attempts (snd (createCampaign all_fail_env sample_state)) = 4"
    by (simp add: all_fail_send_run)
  have s1: "sendAndConfirm all_fail_env 4 = Inl blockhash_error"
    and g1: "\<not> isl (getLatestBlockhash all_fail_env 4)"
    by (simp_all add: all_fail_env_def sample_env_def)
  have r1: "fst (send_with_retry all_fail_env ''hash'') = Inl blockhash_error
            \<and> statuses (snd (createCampaign all_fail_env sample_state))
                = [create_error_status blockhash_error]"
    using createCampaign_retry_bounded [of all_fail_env sample_state "''hash''" 4]
      a n1  s1 g1 blockhash_error_retriable(2)
    by simp
  have "attempts (snd (createCampaign refresh_fail_env sample_state))
          = attempts (snd (send_with_retry refresh_fail_env ''hash''))"
    using createCampaign_retry_bounded [of refresh_fail_env sample_state "''hash''"
        "attempts (snd (createCampaign refresh_fail_env sample_state))"] b
    by simp
  then have n2: "attempts (snd (createCampaign refresh_fail_env sample_state)) = 1"
    by (simp add: refresh_fail_send_run)
  have s2: "sendAndConfirm refresh_fail_env 1 = Inl blockhash_error"
    and g2: "getLatestBlockhash refresh_fail_env 1 = Inl (Error ''429 Too Many Requests'')"
    and t2: "Error ''429 Too Many Requests'' \<noteq> Nullish"
    by (simp_all add: refresh_fail_env_def all_fail_env_def sample_env_def Error_def)
  have r2: "statuses (snd (createCampaign refresh_fail_env sample_state))
                = [create_error_status (Error ''429 Too Many Requests'')]"
    using createCampaign_retry_bounded [of refresh_fail_env sample_state "''hash''" 1]
      b n2  s2 g2 t2 blockhash_error_retriable(1)
    by simp
  have "attempts (snd (createCampaign undefined_rejection_env sample_state))
          = attempts (snd (send_with_retry undefined_rejection_env ''hash''))"
    using createCampaign_retry_bounded [of undefined_rejection_env sample_state "''hash''"
        "attempts (snd (createCampaign undefined_rejection_env sample_state))"] c
    by simp
  then have n3: "attempts (snd (createCampaign undefined_rejection_env sample_state)) = 1"
    by (simp add: undefined_rejection_send_run)
  have s3: "sendAndConfirm undefined_rejection_env 1 = Inl Nullish"
    and t3: "\<not> truthy_value Nullish"
    by (simp_all add: undefined_rejection_env_def sample_env_def truthy_value_def)
  have r3: "\<exists>t. statuses (snd (createCampaign undefined_rejection_env sample_state))
             = ''Campaign created successfully!'' # t"
    using createCampaign_retry_bounded [of undefined_rejection_env sample_state "''hash''" 1]
      c n3  s3 t3
    by simp
  have "attempts (snd (createCampaign_it1 all_fail_env sample_state))
          = attempts (snd (rpc_with_retry all_fail_env))"
    using createCampaign_retry_bounded [of all_fail_env sample_state _ _
        "attempts (snd (createCampaign_it1 all_fail_env sample_state))"] d
    by simp
  then have n4: "attempts (snd (createCampaign_it1 all_fail_env sample_state)) = 4"
    by (simp add: all_fail_rpc_run)
  have s4: "rpc_create all_fail_env 4 = Inl blockhash_error"
    by (simp add: all_fail_env_def sample_env_def)
  have r4: "statuses (snd (createCampaign_it1 all_fail_env sample_state))
                = [create_error_status blockhash_error]"
    using createCampaign_retry_bounded [of all_fail_env sample_state _ _ 4]
      d n4  s4 blockhash_error_retriable(2)
    by simp
  have "attempts (snd (createCampaign_it1 undefined_rejection_env sample_state))
          = attempts (snd (rpc_with_retry undefined_rejection_env))"
    using createCampaign_retry_bounded [of undefined_rejection_env sample_state _ _
        "attempts (snd (createCampaign_it1 undefined_rejection_env sample_state))"] d'
    by simp
  then have n5: "attempts (snd (createCampaign_it1 undefined_rejection_env sample_state)) = 1"
    by (simp add: undefined_rejection_rpc_run)
  have s5: "rpc_create undefined_rejection_env 1 = Inl Nullish"
    and f5: "projr (findProgramAddress undefined_rejection_env) = ''CampaignKey''"
    by (simp_all add: undefined_rejection_env_def sample_env_def)
  have r5: "statuses (snd (createCampaign_it1 undefined_rejection_env sample_state))
              = [''Campaign created successfully! Address: ''
                 @ projr (findProgramAddress undefined_rejection_env)]"
    using createCampaign_retry_bounded [of undefined_rejection_env sample_state _ _ 1]
      d' n5 s5 t3
    by simp
  from n1 s1 r1 n2 r2 n3 r3 n4 r4 n5 r5 show ?thesis
    by (simp add: sample_statuses f5)
qed

subsection \<open>The wait before a retry\<close>

text \<open>
  C2, as stated, is false: the wait before a retry is not one constant. After a first and a
  second failed attempt the loop waits 800 ms and then 1600 ms, in \<open>page.tsx\<close> and in the
  first iteration.
\<close>

theorem retry_delay_not_constant:
  "\<not> (\<exists>c. \<forall>env bh. \<forall>d \<in> set (delays (snd (send_with_retry env bh))). d = c)
   \<and> \<not> (\<exists>c. \<forall>env. \<forall>d \<in> set (delays (snd (rpc_with_retry env))). d = c)"
proof (intro conjI notI)
  assume "\<exists>c. \<forall>env bh. \<forall>d \<in> set (delays (snd (send_with_retry env bh))). d = c"
  then obtain c where c: "\<forall>d \<in> set (delays (snd (send_with_retry two_fail_env ''hash''))). d = c"
    by blast
  then show False by (auto simp: two_fail_send_run)
next
  assume "\<exists>c. \<forall>env. \<forall>d \<in> set (delays (snd (rpc_with_retry env))). d = c"
  then obtain c where c: "\<forall>d \<in> set (delays (snd (rpc_with_retry two_fail_env))). d = c"
    by blast
  then show False by (auto simp: two_fail_rpc_run)
qed

text \<open>
  C2, amended. The wait grows with the attempt number. In a run of \<open>createCampaign\<close> that
  reaches the loop, the \<open>k\<close>-th attempt is followed by a wait exactly when it failed with a
  stale-blockhash message and, in \<open>page.tsx\<close>, the blockhash refresh after it succeeded;
  the wait is then one timer of \<open>800 * k\<close> ms, set before the next attempt (or before the
  loop ends, after the fourth attempt). No other attempt is followed by a wait. So the
  waits of the loop are 800, 1600, ... in this order, at most one per attempt.
\<close>

theorem retry_delay_linear:
  "(create_reaches_send env r bh \<longrightarrow>
      1 \<le> attempts (snd (createCampaign env r))
      \<and> waits_after (snd (createCampaign env r)) =
          map (\<lambda>k. if stale_failure env k \<and> \<not> isl (getLatestBlockhash env k)
                    then [800 * k] else [])
            [1 ..< 1 + attempts (snd (createCampaign env r))])
   \<and> (create_prepared_it1 env r \<longrightarrow>
      1 \<le> attempts (snd (createCampaign_it1 env r))
      \<and> waits_after (snd (createCampaign_it1 env r)) =
          map (\<lambda>k. if stale_failure_it1 env k then [800 * k] else [])
            [1 ..< 1 + attempts (snd (createCampaign_it1 env r))])
   \<and> delays (snd (send_with_retry env bh))
     = map (\<lambda>k. 800 * k) [1 ..< 1 + length (delays (snd (send_with_retry env bh)))]
   \<and> length (delays (snd (send_with_retry env bh))) \<le> maxAttempts
   \<and> delays (snd (rpc_with_retry env))
     = map (\<lambda>k. 800 * k) [1 ..< 1 + length (delays (snd (rpc_with_retry env)))]
   \<and> length (delays (snd (rpc_with_retry env))) \<le> maxAttempts"
proof (intro conjI impI)
  assume a: "create_reaches_send env r bh"
  note o = createCampaign_loop_observations [OF a]
  show "1 \<le> attempts (snd (createCampaign env r))"
    using send_attempts_bounds(1) [of env bh] by (simp add: o(1))
  show "waits_after (snd (createCampaign env r)) =
          map (\<lambda>k. if stale_failure env k \<and> \<not> isl (getLatestBlockhash env k)
                    then [800 * k] else [])
            [1 ..< 1 + attempts (snd (createCampaign env r))]"
    using send_loop_waits [of env 0 None bh] by (simp add: o(1,2) send_with_retry_trace)
next
  assume a: "create_prepared_it1 env r"
  note o = createCampaign_it1_loop_observations [OF a]
  show "1 \<le> attempts (snd (createCampaign_it1 env r))"
    using rpc_attempts_bounds(1) [of env] by (simp add: o(1))
  show "waits_after (snd (createCampaign_it1 env r)) =
          map (\<lambda>k. if stale_failure_it1 env k then [800 * k] else [])
            [1 ..< 1 + attempts (snd (createCampaign_it1 env r))]"
    using rpc_loop_waits [of env 0 None] by (simp add: o(1,2) rpc_with_retry_trace)
next
  show "delays (snd (send_with_retry env bh))
     = map (\<lambda>k. 800 * k) [1 ..< 1 + length (delays (snd (send_with_retry env bh)))]"
    using send_loop_delays [of env 0 None bh] by (simp add: send_with_retry_trace)
  show "length (delays (snd (send_with_retry env bh))) \<le> maxAttempts"
    using send_loop_delays_le [of env 0 None bh] send_loop_attempts_le [of env 0 None bh]
    by (simp add: send_with_retry_trace)
  show "delays (snd (rpc_with_retry env))
     = map (\<lambda>k. 800 * k) [1 ..< 1 + length (delays (snd (rpc_with_retry env)))]"
    using rpc_loop_delays [of env 0 None] by (simp add: rpc_with_retry_trace)
  show "length (delays (snd (rpc_with_retry env))) \<le> maxAttempts"
    using rpc_loop_delays_le [of env 0 None] rpc_loop_attempts_le [of env 0 None]
    by (simp add: rpc_with_retry_trace)
qed

text \<open>
  Witness for the amended C2: two failed attempts and then a send that succeeds; four
  failed attempts; and, in \<open>page.tsx\<close>, a first attempt whose blockhash refresh fails.
\<close>

theorem retry_delay_linear_witness:
  "waits_after (snd (createCampaign two_fail_env sample_state)) = [[800], [1600], []]
   \<and> waits_after (snd (createCampaign all_fail_env sample_state))
       = [[800], [1600], [2400], [3200]]
   \<and> waits_after (snd (createCampaign refresh_fail_env sample_state)) = [[]]
   \<and> waits_after (snd (createCampaign_it1 two_fail_env sample_state)) = [[800], [1600], []]
   \<and> waits_after (snd (createCampaign_it1 refresh_fail_env sample_state))
       = [[800], [1600], [2400], [3200]]
   \<and> delays (snd (send_with_retry two_fail_env ''hash'')) = [800, 1600]
   \<and> delays (snd (rpc_with_retry two_fail_env)) = [800, 1600]"
proof -
  have n: "attempts (snd (createCampaign two_fail_env sample_state)) = 3"
    "attempts (snd (createCampaign all_fail_env sample_state)) = 4"
    "attempts (snd (createCampaign refresh_fail_env sample_state)) = 1"
    by (simp_all add: createCampaign_loop_observations(1) [OF sample_reaches_send(1)]
        createCampaign_loop_observations(1) [OF sample_reaches_send(2)]
        createCampaign_loop_observations(1) [OF sample_reaches_send(3)]
        two_fail_send_run all_fail_send_run refresh_fail_send_run)
  have m: "attempts (snd (createCampaign_it1 two_fail_env sample_state)) = 3"
    "attempts (snd (createCampaign_it1 refresh_fail_env sample_state)) = 4"
    by (simp_all add: createCampaign_it1_loop_observations(1) [OF sample_prepared_it1(2)]
        createCampaign_it1_loop_observations(1) [OF sample_prepared_it1(3)]
        two_fail_rpc_run refresh_fail_rpc_run)
  have u: "[Suc 0 ..< 4] = [1, 2, 3]" "[Suc 0 ..< 5] = [1, 2, 3, 4]" "[Suc 0 ..< 2] = [1]"
    by (simp_all add: upt_rec)
  have s: "stale_failure two_fail_env k = (k \<le> 2)" "stale_failure all_fail_env k"
    "stale_failure refresh_fail_env k" "stale_failure_it1 two_fail_env k = (k \<le> 2)"
    "stale_failure_it1 refresh_fail_env k" for k
    using blockhash_error_retriable(1)
    by (simp_all add: stale_failure_def stale_failure_it1_def two_fail_env_def all_fail_env_def
        refresh_fail_env_def sample_env_def)
  have g: "\<not> isl (getLatestBlockhash two_fail_env k)" "\<not> isl (getLatestBlockhash all_fail_env k)"
    "isl (getLatestBlockhash refresh_fail_env (Suc k))" for k
    by (simp_all add: two_fail_env_def all_fail_env_def refresh_fail_env_def sample_env_def)
  have w1: "waits_after (snd (createCampaign two_fail_env sample_state)) = [[800], [1600], []]"
    using retry_delay_linear [of two_fail_env sample_state "''hash''"] sample_reaches_send(2)
    by (simp add: n u s g)
  have w2: "waits_after (snd (createCampaign all_fail_env sample_state))
       = [[800], [1600], [2400], [3200]]"
    using retry_delay_linear [of all_fail_env sample_state "''hash''"] sample_reaches_send(1)
    by (simp add: n u s g)
  have w3: "waits_after (snd (createCampaign refresh_fail_env sample_state)) = [[]]"
    using retry_delay_linear [of refresh_fail_env sample_state "''hash''"] sample_reaches_send(3)
      g(3) [of 0]
    by (simp add: n u s)
  have w4: "waits_after (snd (createCampaign_it1 two_fail_env sample_state)) = [[800], [1600], []]"
    using retry_delay_linear [of two_fail_env sample_state "''hash''"] sample_prepared_it1(2)
    by (simp add: m u s)
  have w5: "waits_after (snd (createCampaign_it1 refresh_fail_env sample_state))
       = [[800], [1600], [2400], [3200]]"
    using retry_delay_linear [of refresh_fail_env sample_state "''hash''"] sample_prepared_it1(3)
    by (simp add: m u s)
  from w1 w2 w3 w4 w5 show ?thesis
    by (simp add: two_fail_send_run two_fail_rpc_run)
qed

subsection \<open>Which failures are retried\<close>

text \<open>
  C3, as stated, is false for \<open>page.tsx\<close>: the message test is not the only condition for a
  retry. A first send that failed with "Blockhash not found" is not followed by another
  attempt when the blockhash refresh in the \<open>catch\<close> block fails, although fewer than
  \<open>maxAttempts\<close> attempts have been made; the run ends after this one attempt.
\<close>

theorem retry_iff_message_counterexample:
  "\<not> (\<forall>env bh k e.
         1 \<le> k \<and> k \<le> attempts (snd (send_with_retry env bh)) \<and> k < maxAttempts
         \<and> sendAndConfirm env k = Inl e
         \<longrightarrow> (k < attempts (snd (send_with_retry env bh))) = retriable e)
   \<and> create_reaches_send refresh_fail_env sample_state ''hash''
   \<and> sendAndConfirm refresh_fail_env 1 = Inl blockhash_error
   \<and> retriable blockhash_error
   \<and> attempts (snd (createCampaign refresh_fail_env sample_state)) = 1"
proof (intro conjI notI)
  have n: "attempts (snd (send_with_retry refresh_fail_env ''hash'')) = 1"
    by (simp add: refresh_fail_send_run)
  show s: "sendAndConfirm refresh_fail_env 1 = Inl blockhash_error"
    by (simp add: refresh_fail_env_def all_fail_env_def sample_env_def)
  show r: "retriable blockhash_error"
    by (rule blockhash_error_retriable)
  show "create_reaches_send refresh_fail_env sample_state ''hash''"
    by (rule sample_reaches_send)
  show "attempts (snd (createCampaign refresh_fail_env sample_state)) = 1"
    by (simp add: createCampaign_loop_observations(1) [OF sample_reaches_send(3)] n)
  assume a: "\<forall>env bh k e.
         1 \<le> k \<and> k \<le> attempts (snd (send_with_retry env bh)) \<and> k < maxAttempts
         \<and> sendAndConfirm env k = Inl e
         \<longrightarrow> (k < attempts (snd (send_with_retry env bh))) = retriable e"
  show False
    using a [rule_format, of 1 refresh_fail_env "''hash''" blockhash_error] s r
    by (simp add: n maxAttempts_def)
qed

text \<open>
  C3, amended. In a run of \<open>createCampaign\<close> that reaches the loop and makes \<open>n\<close> attempts,
  the \<open>k\<close>-th attempt is followed by another one exactly when it failed with a message
  that contains "Blockhash not found" or "blockhash expired", fewer than \<open>maxAttempts\<close>
  attempts have been made and, in \<open>page.tsx\<close>, the blockhash refresh after it succeeded; the
  next attempt of \<open>page.tsx\<close> then sends the transaction with the refreshed blockhash. The
  first iteration ignores a failed refresh. In \<open>page.tsx\<close> a failing refresh leaves the loop
  with the refresh error, which the status message reports. After any other failed send
  no further attempt is made: its error is thrown and reported in the status message when
  it is a truthy value, while a falsy rejection value is not thrown and the run reports
  success.
\<close>

theorem retry_iff_stale_blockhash:
  "(create_reaches_send env r bh \<and> n = attempts (snd (createCampaign env r)) \<longrightarrow>
      1 \<le> n \<and> n \<le> maxAttempts
      \<and> (\<forall>k. 1 \<le> k \<and> k \<le> n \<longrightarrow>
           (k < n) = (k < maxAttempts \<and> stale_failure env k
                      \<and> \<not> isl (getLatestBlockhash env k)))
      \<and> (\<forall>k e. 1 \<le> k \<and> k \<le> n \<and> sendAndConfirm env k = Inl e \<and> \<not> retriable e \<longrightarrow> k = n)
      \<and> sent_hashes (snd (createCampaign env r)) ! 0 = bh
      \<and> (\<forall>k. 1 \<le> k \<and> k < n \<longrightarrow>
           getLatestBlockhash env k = Inr (sent_hashes (snd (createCampaign env r)) ! k))
      \<and> (\<forall>e e'. sendAndConfirm env n = Inl e \<and> retriable e
               \<and> getLatestBlockhash env n = Inl e' \<longrightarrow>
           fst (send_with_retry env bh) = Inl e'
           \<and> (e' \<noteq> Nullish \<longrightarrow>
                statuses (snd (createCampaign env r)) = [create_error_status e']))
      \<and> (\<forall>e. sendAndConfirm env n = Inl e \<and> \<not> retriable e \<and> truthy_value e \<longrightarrow>
           fst (send_with_retry env bh) = Inl e
           \<and> statuses (snd (createCampaign env r)) = [create_error_status e])
      \<and> (\<forall>e. sendAndConfirm env n = Inl e \<and> \<not> truthy_value e \<longrightarrow>
           fst (send_with_retry env bh) = Inr ()
           \<and> (\<exists>t. statuses (snd (createCampaign env r))
                     = ''Campaign created successfully!'' # t)))
   \<and> (create_prepared_it1 env r \<and> m = attempts (snd (createCampaign_it1 env r)) \<longrightarrow>
      1 \<le> m \<and> m \<le> maxAttempts
      \<and> (\<forall>k. 1 \<le> k \<and> k \<le> m \<longrightarrow> (k < m) = (k < maxAttempts \<and> stale_failure_it1 env k))
      \<and> (\<forall>k e. 1 \<le> k \<and> k \<le> m \<and> rpc_create env k = Inl e \<and> \<not> retriable e \<longrightarrow> k = m)
      \<and> (\<forall>e. rpc_create env m = Inl e \<and> \<not> retriable e \<and> truthy_value e \<longrightarrow>
           fst (rpc_with_retry env) = Inl e
           \<and> statuses (snd (createCampaign_it1 env r)) = [create_error_status e])
      \<and> (\<forall>e. rpc_create env m = Inl e \<and> \<not> truthy_value e \<longrightarrow>
           fst (rpc_with_retry env) = Inr ()
           \<and> statuses (snd (createCampaign_it1 env r))
               = [''Campaign created successfully! Address: ''
                  @ projr (findProgramAddress env)]))"
proof (intro conjI)
  show "create_reaches_send env r bh \<and> n = attempts (snd (createCampaign env r)) \<longrightarrow>
      1 \<le> n \<and> n \<le> maxAttempts
      \<and> (\<forall>k. 1 \<le> k \<and> k \<le> n \<longrightarrow>
           (k < n) = (k < maxAttempts \<and> stale_failure env k
                      \<and> \<not> isl (getLatestBlockhash env k)))
      \<and> (\<forall>k e. 1 \<le> k \<and> k \<le> n \<and> sendAndConfirm env k = Inl e \<and> \<not> retriable e \<longrightarrow> k = n)
      \<and> sent_hashes (snd (createCampaign env r)) ! 0 = bh
      \<and> (\<forall>k. 1 \<le> k \<and> k < n \<longrightarrow>
           getLatestBlockhash env k = Inr (sent_hashes (snd (createCampaign env r)) ! k))
      \<and> (\<forall>e e'. sendAndConfirm env n = Inl e \<and> retriable e
               \<and> getLatestBlockhash env n = Inl e' \<longrightarrow>
           fst (send_with_retry env bh) = Inl e'
           \<and> (e' \<noteq> Nullish \<longrightarrow>
                statuses (snd (createCampaign env r)) = [create_error_status e']))
      \<and> (\<forall>e. sendAndConfirm env n = Inl e \<and> \<not> retriable e \<and> truthy_value e \<longrightarrow>
           fst (send_with_retry env bh) = Inl e
           \<and> statuses (snd (createCampaign env r)) = [create_error_status e])
      \<and> (\<forall>e. sendAndConfirm env n = Inl e \<and> \<not> truthy_value e \<longrightarrow>
           fst (send_with_retry env bh) = Inr ()
           \<and> (\<exists>t. statuses (snd (createCampaign env r))
                     = ''Campaign created successfully!'' # t))"
  proof (intro impI, elim conjE, intro conjI allI impI; (elim conjE)?)
    assume a: "create_reaches_send env r bh" "n = attempts (snd (createCampaign env r))"
    note l = create_last_attempt [OF a]
    note h = createCampaign_loop_observations(3) [OF a(1)]
    show "1 \<le> n" by (rule l(2))
    show "n \<le> maxAttempts" by (rule l(3))
    show "(k < n) = (k < maxAttempts \<and> stale_failure env k \<and> \<not> isl (getLatestBlockhash env k))"
      if "1 \<le> k" "k \<le> n" for k
      using l(4) [OF that] .
    show "k = n" if "1 \<le> k" "k \<le> n" "sendAndConfirm env k = Inl e" "\<not> retriable e" for k e
      using l(4) [OF that(1,2)] that by (simp add: stale_failure_def)
    show "sent_hashes (snd (createCampaign env r)) ! 0 = bh"
      using send_first_hash [of env bh] by (auto simp: h)
    show "getLatestBlockhash env k = Inr (sent_hashes (snd (createCampaign env r)) ! k)"
      if "1 \<le> k" "k < n" for k
      using send_refreshed_hash [of k env bh] that by (simp add: h l(1) [symmetric])
    show "fst (send_with_retry env bh) = Inl e'"
      if "sendAndConfirm env n = Inl e" "retriable e" "getLatestBlockhash env n = Inl e'" for e e'
      using l(6) [OF that] by simp
    show "statuses (snd (createCampaign env r)) = [create_error_status e']"
      if "sendAndConfirm env n = Inl e" "retriable e" "getLatestBlockhash env n = Inl e'"
        "e' \<noteq> Nullish" for e e'
      using l(6) [OF that(1-3)] that(4) by simp
    show "fst (send_with_retry env bh) = Inl e"
      and "statuses (snd (createCampaign env r)) = [create_error_status e]"
      if "sendAndConfirm env n = Inl e" "\<not> retriable e" "truthy_value e" for e
      using l(5) [OF that(1,3)] that(2) by simp_all
    show "fst (send_with_retry env bh) = Inr ()"
      and "\<exists>t. statuses (snd (createCampaign env r)) = ''Campaign created successfully!'' # t"
      if "sendAndConfirm env n = Inl e" "\<not> truthy_value e" for e
      using l(7) [OF that] by simp_all
  qed
  show "create_prepared_it1 env r \<and> m = attempts (snd (createCampaign_it1 env r)) \<longrightarrow>
      1 \<le> m \<and> m \<le> maxAttempts
      \<and> (\<forall>k. 1 \<le> k \<and> k \<le> m \<longrightarrow> (k < m) = (k < maxAttempts \<and> stale_failure_it1 env k))
      \<and> (\<forall>k e. 1 \<le> k \<and> k \<le> m \<and> rpc_create env k = Inl e \<and> \<not> retriable e \<longrightarrow> k = m)
      \<and> (\<forall>e. rpc_create env m = Inl e \<and> \<not> retriable e \<and> truthy_value e \<longrightarrow>
           fst (rpc_with_retry env) = Inl e
           \<and> statuses (snd (createCampaign_it1 env r)) = [create_error_status e])
      \<and> (\<forall>e. rpc_create env m = Inl e \<and> \<not> truthy_value e \<longrightarrow>
           fst (rpc_with_retry env) = Inr ()
           \<and> statuses (snd (createCampaign_it1 env r))
               = [''Campaign created successfully! Address: ''
                  @ projr (findProgramAddress env)])"
  proof (intro impI, elim conjE, intro conjI allI impI; (elim conjE)?)
    assume a: "create_prepared_it1 env r" "m = attempts (snd (createCampaign_it1 env r))"
    note l = create_last_attempt_it1 [OF a]
    show "1 \<le> m" by (rule l(2))
    show "m \<le> maxAttempts" by (rule l(3))
    show "(k < m) = (k < maxAttempts \<and> stale_failure_it1 env k)" if "1 \<le> k" "k \<le> m" for k
      using l(4) [OF that] .
    show "k = m" if "1 \<le> k" "k \<le> m" "rpc_create env k = Inl e" "\<not> retriable e" for k e
      using l(4) [OF that(1,2)] that by (simp add: stale_failure_it1_def)
    show "fst (rpc_with_retry env) = Inl e"
      and "statuses (snd (createCampaign_it1 env r)) = [create_error_status e]"
      if "rpc_create env m = Inl e" "\<not> retriable e" "truthy_value e" for e
      using l(5) [OF that(1,3)] by simp_all
    show "fst (rpc_with_retry env) = Inr ()"
      and "statuses (snd (createCampaign_it1 env r))
             = [''Campaign created successfully! Address: '' @ projr (findProgramAddress env)]"
      if "rpc_create env m = Inl e" "\<not> truthy_value e" for e
      using l(6) [OF that] by simp_all
  qed
qed

text \<open>
  Witness for the amended C3: after two stale-blockhash failures the third attempt is sent
  with the blockhash of the second refresh; a refresh that fails ends the run of
  \<open>page.tsx\<close> after one attempt with the refresh error in the status message, while the
  first iteration goes on to four attempts; and when the wallet user rejects the
  transaction there is one attempt, and the rejection reaches the status message.
\<close>

theorem retry_iff_stale_blockhash_witness:
  "attempts (snd (createCampaign two_fail_env sample_state)) = 3
   \<and> getLatestBlockhash two_fail_env 2 = Inr ''hash++''
   \<and> sent_hashes (snd (createCampaign two_fail_env sample_state)) ! 2 = ''hash++''
   \<and> attempts (snd (createCampaign refresh_fail_env sample_state)) = 1
   \<and> fst (send_with_retry refresh_fail_env ''hash'') = Inl (Error ''429 Too Many Requests'')
   \<and> statuses (snd (createCampaign refresh_fail_env sample_state))
       = [''Error creating campaign: 429 Too Many Requests'']
   \<and> attempts (snd (createCampaign_it1 refresh_fail_env sample_state)) = 4
   \<and> attempts (snd (createCampaign rejected_env sample_state)) = 1
   \<and> fst (send_with_retry rejected_env ''hash'') = Inl rejected_error
   \<and> statuses (snd (createCampaign rejected_env sample_state))
       = [''Transaction cancelled by user. Please approve the transaction in your wallet.'']
   \<and> attempts (snd (createCampaign_it1 rejected_env sample_state)) = 1
   \<and> statuses (snd (createCampaign_it1 rejected_env sample_state))
       = [''Transaction cancelled by user. Please approve the transaction in your wallet.'']"
proof -
  note a = sample_reaches_send(2) and b = sample_reaches_send(3) and c = sample_reaches_send(4)
    and d = sample_prepared_it1(3) and e = sample_prepared_it1(4)
  have n1: "attempts (snd (createCampaign two_fail_env sample_state)) = 3"
    by (simp add: createCampaign_loop_observations(1) [OF a] two_fail_send_run)
  have h1: "sent_hashes (snd (createCampaign two_fail_env sample_state))
              = [''hash'', ''hash+'', ''hash++'']"
    by (simp add: createCampaign_loop_observations(3) [OF a] two_fail_send_run)
  have r1: "getLatestBlockhash two_fail_env 2
              = Inr (sent_hashes (snd (createCampaign two_fail_env sample_state)) ! 2)"
    using retry_iff_stale_blockhash [of two_fail_env sample_state "''hash''" 3] a n1
    by simp
  have n2: "attempts (snd (createCampaign refresh_fail_env sample_state)) = 1"
    by (simp add: createCampaign_loop_observations(1) [OF b] refresh_fail_send_run)
  have s2: "sendAndConfirm refresh_fail_env 1 = Inl blockhash_error"
    and g2: "getLatestBlockhash refresh_fail_env 1 = Inl (Error ''429 Too Many Requests'')"
    and t2: "Error ''429 Too Many Requests'' \<noteq> Nullish"
    by (simp_all add: refresh_fail_env_def all_fail_env_def sample_env_def Error_def)
  have r2: "fst (send_with_retry refresh_fail_env ''hash'') = Inl (Error ''429 Too Many Requests'')
            \<and> statuses (snd (createCampaign refresh_fail_env sample_state))
                = [create_error_status (Error ''429 Too Many Requests'')]"
    using retry_iff_stale_blockhash [of refresh_fail_env sample_state "''hash''" 1]
      b n2 s2 g2 t2 blockhash_error_retriable(1)
    by simp
  have n3: "attempts (snd (createCampaign_it1 refresh_fail_env sample_state)) = 4"
    by (simp add: createCampaign_it1_loop_observations(1) [OF d] refresh_fail_rpc_run)
  have n4: "attempts (snd (createCampaign rejected_env sample_state)) = 1"
    by (simp add: createCampaign_loop_observations(1) [OF c] rejected_send_run)
  have s4: "sendAndConfirm rejected_env 1 = Inl rejected_error"
    "rpc_create rejected_env 1 = Inl rejected_error"
    by (simp_all add: rejected_env_def sample_env_def)
  have r4: "fst (send_with_retry rejected_env ''hash'') = Inl rejected_error
            \<and> statuses (snd (createCampaign rejected_env sample_state))
                = [create_error_status rejected_error]"
    using retry_iff_stale_blockhash [of rejected_env sample_state "''hash''" 1]
      c n4 s4 rejected_error_other
    by simp
  have n5: "attempts (snd (createCampaign_it1 rejected_env sample_state)) = 1"
    by (simp add: createCampaign_it1_loop_observations(1) [OF e] rejected_rpc_run)
  have r5: "statuses (snd (createCampaign_it1 rejected_env sample_state))
                = [create_error_status rejected_error]"
    using retry_iff_stale_blockhash [of rejected_env sample_state _ _ 1]
      e n5 s4 rejected_error_other
    by simp
  from n1 h1 r1 n2 r2 n3 n4 r4 n5 r5 show ?thesis
    by (simp add: sample_statuses)
qed

subsection \<open>donateToCampaign\<close>

lemma donate_validated_run:
  assumes "donate_validated env r"
  shows "\<exists>t. snd (donateToCampaign env r campaignPubkey) =
           SetDonatingCampaign (Some campaignPubkey) # t
           @ [SetDonatingCampaign None, SetDonationAmount ''0.1'']"
    and "\<exists>t. snd (donateToCampaign_memo env r campaignPubkey) =
           SetDonatingCampaign (Some campaignPubkey) # t
           @ [SetDonatingCampaign None, SetDonationAmount ''0.1'']"
  using assms
  by (simp_all add: donateToCampaign_def donateToCampaign_memo_def donate_validated_def Let_def
      snd_try_catch)

lemma donate_turned_away:
  assumes "\<not> donate_validated env r"
  shows "\<exists>t. snd (donateToCampaign env r campaignPubkey) =
           t @ [SetDonatingCampaign None, SetDonationAmount ''0.1'']
           \<and> (\<forall>c. SetDonatingCampaign c \<notin> set t)"
    and "\<exists>m. snd (donateToCampaign_memo env r campaignPubkey) = [SetWalletStatus m]"
proof -
  show "\<exists>m. snd (donateToCampaign_memo env r campaignPubkey) = [SetWalletStatus m]"
    using assms by (auto simp: donateToCampaign_memo_def donate_validated_def Let_def)
  have "snd (donateToCampaign env r campaignPubkey) =
          snd (donate_catch (Error ''Wallet is not connected. Please connect the wallet first.''))
          @ [SetDonatingCampaign None, SetDonationAmount ''0.1'']
        \<or> snd (donateToCampaign env r campaignPubkey) =
          [SetWalletStatus ''Please enter a valid donation amount'']
          @ [SetDonatingCampaign None, SetDonationAmount ''0.1'']"
    using assms
    by (auto simp: donateToCampaign_def donate_validated_def Let_def snd_try_catch)
  then show "\<exists>t. snd (donateToCampaign env r campaignPubkey) =
           t @ [SetDonatingCampaign None, SetDonationAmount ''0.1'']
           \<and> (\<forall>c. SetDonatingCampaign c \<notin> set t)"
    using catch_traces(3) [of "Error ''Wallet is not connected. Please connect the wallet first.''"]
    by auto
qed

text \<open>
  The donation is computed in doubles: for the amount text "4.1" it is 4099999999
  lamports, one less than 4.1 * 10^9, and a balance of 4099999999 lamports is enough to
  send it.
\<close>

lemma floor_of_product: "\<lfloor>(8598323199999999 / 2097152 :: rat)\<rfloor> = 4099999999"
  by (rule floor_unique) simp_all

lemma donation_rounds_down:
  "lamports_of rounding_env (parseFloat rounding_env ''4.1'') = Finite 4099999999"
  "SendAndConfirm ''hash''
     \<in> set (snd (donateToCampaign rounding_env (sample_state\<lparr>donationAmount := ''4.1''\<rparr>) ''A''))"
  "SendAndConfirm ''hash''
     \<in> set (snd (donateToCampaign_memo rounding_env
                     (sample_state\<lparr>donationAmount := ''4.1''\<rparr>) ''A''))"
  by (simp_all add: donateToCampaign_def donateToCampaign_memo_def lamports_of_def Math_floor_def
      less_number_def isNaN_def le_zero_def Let_def rounding_env_def sample_env_def
      sample_state_def sample_wallet_def sample_idl_def truthy_str_def truthy_def getProvider_def
      resolveProgramID_def runtimeProgramID_def runtimeProgramID_memo_def programID_def
      LAMPORTS_PER_SOL_def snd_try_catch snd_andThen fst_andThen floor_of_product)

text \<open>
  C10. The in-progress marker is set exactly by the calls of \<open>donateToCampaign\<close> that pass
  the validations of the wallet and of the amount, and every such call, whether the
  donation then succeeds, is rejected by the user, lacks the balance or fails, ends with
  \<open>donatingCampaign\<close> null and \<open>donationAmount\<close> "0.1": the marker is set in front of (in
  \<open>page.tsx\<close>: inside) a \<open>try\<close> whose \<open>finally\<close> block resets both. A call that a validation
  turns away sets no marker; in \<open>page.tsx\<close> it still resets both values, in the memoized
  iteration it returns before the \<open>try\<close> and leaves both as they were. So no call leaves a
  campaign marked that was not marked before.
\<close>

theorem donate_resets_marker:
  "donatingCampaign (commit (snd (donateToCampaign env r campaignPubkey)) s) = None
   \<and> donationAmount (commit (snd (donateToCampaign env r campaignPubkey)) s) = ''0.1''
   \<and> (donate_validated env r \<longrightarrow>
        donatingCampaign (commit (snd (donateToCampaign_memo env r campaignPubkey)) s) = None
        \<and> donationAmount (commit (snd (donateToCampaign_memo env r campaignPubkey)) s) = ''0.1'')
   \<and> (\<not> donate_validated env r \<longrightarrow>
        donatingCampaign (commit (snd (donateToCampaign_memo env r campaignPubkey)) s)
          = donatingCampaign s
        \<and> donationAmount (commit (snd (donateToCampaign_memo env r campaignPubkey)) s)
          = donationAmount s)
   \<and> (\<exists>c. SetDonatingCampaign (Some c) \<in> set (snd (donateToCampaign env r campaignPubkey)))
       = donate_validated env r
   \<and> (\<exists>c. SetDonatingCampaign (Some c) \<in> set (snd (donateToCampaign_memo env r campaignPubkey)))
       = donate_validated env r
   \<and> (donate_validated env r \<longrightarrow>
        hd (snd (donateToCampaign env r campaignPubkey)) = SetDonatingCampaign (Some campaignPubkey)
        \<and> hd (snd (donateToCampaign_memo env r campaignPubkey))
            = SetDonatingCampaign (Some campaignPubkey))
   \<and> (donatingCampaign s = None \<longrightarrow>
        donatingCampaign (commit (snd (donateToCampaign_memo env r campaignPubkey)) s) = None)"
proof (intro conjI impI)
  show "donatingCampaign (commit (snd (donateToCampaign env r campaignPubkey)) s) = None"
    and "donationAmount (commit (snd (donateToCampaign env r campaignPubkey)) s) = ''0.1''"
    by (simp_all add: donateToCampaign_def)
next
  assume v: "donate_validated env r"
  from donate_validated_run(2) [OF v, of campaignPubkey] obtain t where
    "snd (donateToCampaign_memo env r campaignPubkey) =
       SetDonatingCampaign (Some campaignPubkey) # t
       @ [SetDonatingCampaign None, SetDonationAmount ''0.1'']"
    by blast
  then show "donatingCampaign (commit (snd (donateToCampaign_memo env r campaignPubkey)) s) = None"
    and "donationAmount (commit (snd (donateToCampaign_memo env r campaignPubkey)) s) = ''0.1''"
    by simp_all
next
  assume "\<not> donate_validated env r"
  from donate_turned_away(2) [OF this, of campaignPubkey] obtain m where
    "snd (donateToCampaign_memo env r campaignPubkey) = [SetWalletStatus m]"
    by blast
  then show "donatingCampaign (commit (snd (donateToCampaign_memo env r campaignPubkey)) s)
          = donatingCampaign s"
    and "donationAmount (commit (snd (donateToCampaign_memo env r campaignPubkey)) s)
          = donationAmount s"
    by simp_all
next
  show "(\<exists>c. SetDonatingCampaign (Some c) \<in> set (snd (donateToCampaign env r campaignPubkey)))
       = donate_validated env r"
  proof (cases "donate_validated env r")
    case True
    with donate_validated_run(1) [OF True, of campaignPubkey] show ?thesis by auto
  next
    case False
    with donate_turned_away(1) [OF False, of campaignPubkey] show ?thesis by auto
  qed
  show "(\<exists>c. SetDonatingCampaign (Some c) \<in> set (snd (donateToCampaign_memo env r campaignPubkey)))
       = donate_validated env r"
  proof (cases "donate_validated env r")
    case True
    with donate_validated_run(2) [OF True, of campaignPubkey] show ?thesis by auto
  next
    case False
    with donate_turned_away(2) [OF False, of campaignPubkey] show ?thesis by auto
  qed
next
  assume v: "donate_validated env r"
  show "hd (snd (donateToCampaign env r campaignPubkey)) = SetDonatingCampaign (Some campaignPubkey)"
    using donate_validated_run(1) [OF v, of campaignPubkey] by auto
  show "hd (snd (donateToCampaign_memo env r campaignPubkey))
            = SetDonatingCampaign (Some campaignPubkey)"
    using donate_validated_run(2) [OF v, of campaignPubkey] by auto
next
  assume n: "donatingCampaign s = None"
  show "donatingCampaign (commit (snd (donateToCampaign_memo env r campaignPubkey)) s) = None"
  proof (cases "donate_validated env r")
    case True
    from donate_validated_run(2) [OF True, of campaignPubkey] obtain t where
      "snd (donateToCampaign_memo env r campaignPubkey) =
         SetDonatingCampaign (Some campaignPubkey) # t
         @ [SetDonatingCampaign None, SetDonationAmount ''0.1'']"
      by blast
    then show ?thesis by simp
  next
    case False
    from donate_turned_away(2) [OF False, of campaignPubkey] obtain m where
      "snd (donateToCampaign_memo env r campaignPubkey) = [SetWalletStatus m]"
      by blast
    then show ?thesis using n by simp
  qed
qed

text \<open>
  Witness for C10: a donation of 0.25 SOL that succeeds, and one that the wallet user
  rejects, set the marker and reset both values in both iterations; with the amount text
  "0" no marker is set, and the memoized iteration leaves both values alone.
\<close>

theorem donate_resets_marker_witness:
  "donate_validated sample_env sample_state
   \<and> hd (snd (donateToCampaign sample_env sample_state ''A'')) = SetDonatingCampaign (Some ''A'')
   \<and> hd (snd (donateToCampaign_memo sample_env sample_state ''A''))
       = SetDonatingCampaign (Some ''A'')
   \<and> donatingCampaign (commit (snd (donateToCampaign sample_env sample_state ''A'')) sample_state)
       = None
   \<and> donationAmount (commit (snd (donateToCampaign sample_env sample_state ''A'')) sample_state)
       = ''0.1''
   \<and> donatingCampaign (commit (snd (donateToCampaign_memo sample_env sample_state ''A''))
         sample_state) = None
   \<and> donationAmount (commit (snd (donateToCampaign_memo sample_env sample_state ''A''))
         sample_state) = ''0.1''
   \<and> donate_validated rejected_env sample_state
   \<and> donatingCampaign (commit (snd (donateToCampaign_memo rejected_env sample_state ''A''))
         sample_state) = None
   \<and> donationAmount (commit (snd (donateToCampaign_memo rejected_env sample_state ''A''))
         sample_state) = ''0.1''
   \<and> \<not> donate_validated sample_env (sample_state\<lparr>donationAmount := ''0''\<rparr>)
   \<and> \<not> (\<exists>c. SetDonatingCampaign (Some c)
              \<in> set (snd (donateToCampaign_memo sample_env
                            (sample_state\<lparr>donationAmount := ''0''\<rparr>) ''A'')))
   \<and> donationAmount (commit (snd (donateToCampaign_memo sample_env
         (sample_state\<lparr>donationAmount := ''0''\<rparr>) ''A''))
         (sample_state\<lparr>donationAmount := ''0''\<rparr>)) = ''0''"
proof -
  have a: "donate_validated sample_env sample_state"
    and a': "donate_validated rejected_env sample_state"
    by (simp_all add: donate_validated_def rejected_env_def sample_env_def sample_state_def
        truthy_str_def isNaN_def le_zero_def)
  have b: "\<not> donate_validated sample_env (sample_state\<lparr>donationAmount := ''0''\<rparr>)"
    by (simp add: donate_validated_def sample_env_def sample_state_def truthy_str_def
        isNaN_def le_zero_def)
  have c: "donationAmount (sample_state\<lparr>donationAmount := ''0''\<rparr>) = ''0''"
    by simp
  from donate_resets_marker [of sample_env sample_state "''A''" sample_state] a
    donate_resets_marker [of rejected_env sample_state "''A''" sample_state] a'
    donate_resets_marker [of sample_env "sample_state\<lparr>donationAmount := ''0''\<rparr>" "''A''"
         "sample_state\<lparr>donationAmount := ''0''\<rparr>"] b c
  show ?thesis by simp
qed

subsection \<open>checkIfWalletIsConnected\<close>

lemma getCampaigns_initial: "getCampaigns env initialState = (Inr (), [])"
  by (simp add: getCampaigns_def initialState_def emit_def)

lemma ghost_differs: "ghost \<noteq> ghost_it1"
  by (simp add: ghost_def ghost_it1_def)

text \<open>
  The three versions of the wallet check call the setters of \<open>isWalletConnected\<close> and
  \<open>publicKey\<close> alike in every state of \<open>window.solana\<close>, and set the same status text
  whenever the Phantom flag is set.
\<close>

lemma wallet_check_flags_agree:
  "isWalletConnected (commit (snd (useEffect_mount env)) s)
     = isWalletConnected (commit (snd (checkIfWalletIsConnected_it1 env)) s)
   \<and> publicKey (commit (snd (useEffect_mount env)) s)
     = publicKey (commit (snd (checkIfWalletIsConnected_it1 env)) s)
   \<and> checkIfWalletIsConnected_memo env = useEffect_mount env"
  by (auto simp: useEffect_mount_def checkIfWalletIsConnected_def checkIfWalletIsConnected_it1_def
      checkIfWalletIsConnected_memo_def getCampaigns_initial try_catch_def emit_def
      prepend_def andThen_def split: option.splits)

lemma wallet_check_status_agree:
  "window_solana env = Some w \<Longrightarrow> truthy (isPhantom w) \<Longrightarrow>
     checkIfWalletIsConnected_it1 env = useEffect_mount env"
  by (simp add: useEffect_mount_def checkIfWalletIsConnected_def checkIfWalletIsConnected_it1_def
      getCampaigns_initial try_catch_def emit_def prepend_def andThen_def)

text \<open>
  C7 at the state "no wallet object": \<open>page.tsx\<close> and the memoized iteration end the
  status text with the ghost emoji, the first iteration with the four characters of its
  garbled literal, so the status messages differ.
\<close>

theorem wallet_status_text_differs:
  "walletStatus (commit (snd (useEffect_mount no_wallet_env)) initialState)
     = Some (''Phantom wallet not found. Please install Phantom Wallet '' @ ghost)
   \<and> walletStatus (commit (snd (checkIfWalletIsConnected_memo no_wallet_env)) initialState)
     = Some (''Phantom wallet not found. Please install Phantom Wallet '' @ ghost)
   \<and> walletStatus (commit (snd (checkIfWalletIsConnected_it1 no_wallet_env)) initialState)
     = Some (''Phantom wallet not found. Please install Phantom Wallet '' @ ghost_it1)
   \<and> walletStatus (commit (snd (checkIfWalletIsConnected_it1 no_wallet_env)) initialState)
     \<noteq> walletStatus (commit (snd (useEffect_mount no_wallet_env)) initialState)"
  by (simp add: useEffect_mount_def checkIfWalletIsConnected_def checkIfWalletIsConnected_it1_def
      checkIfWalletIsConnected_memo_def no_wallet_env_def sample_env_def try_catch_def emit_def
      ghost_def ghost_it1_def)
subsection \<open>The program identifier in the handlers\<close>

lemma fetch_loop_ids [simp]: "program_ids (snd (fetch_loop env accs acc)) = []"
  by (induction accs arbitrary: acc) (simp_all split: sum.splits)

lemma Promise_all_ids [simp]: "program_ids (snd (Promise_all env accs)) = []"
proof -
  have "program_ids (map FetchCampaign xs) = []" "program_ids (map (\<lambda>pk. ConsoleWarn) xs) = []"
    for xs :: "pubkey list"
    by (induction xs) simp_all
  then show ?thesis by (simp add: Promise_all_def)
qed

lemma getCampaigns_ids:
  "p \<in> set (program_ids (snd (getCampaigns env r))) \<Longrightarrow> resolveProgramID env = Inr p"
  by (auto simp: getCampaigns_def snd_try_catch snd_andThen fst_andThen
      split: sum.splits if_splits)

lemma getCampaigns_memo_ids:
  "p \<in> set (program_ids (snd (getCampaigns_memo env r))) \<Longrightarrow> resolveProgramID env = Inr p"
  by (auto simp: getCampaigns_memo_def resolveProgramID_memo snd_try_catch snd_andThen fst_andThen
      split: sum.splits if_splits)

lemma send_with_retry_ids [simp]: "program_ids (snd (send_with_retry env bh)) = []"
  by (simp add: send_with_retry_trace)

lemma rpc_with_retry_ids [simp]: "program_ids (snd (rpc_with_retry env)) = []"
  by (simp add: rpc_with_retry_trace)

lemma create_submit_ids:
  "p \<in> set (program_ids (snd (create_submit env r))) \<Longrightarrow> resolveProgramID env = Inr p"
  using getCampaigns_ids [of p env r]
  by (auto simp: create_submit_def snd_andThen fst_andThen split: sum.splits)

lemma create_submit_it1_ids: "program_ids (snd (create_submit_it1 env rid c)) = [rid]"
  by (simp add: create_submit_it1_def diagnostics_it1_def snd_andThen fst_andThen snd_try_catch
      fst_try_catch split: sum.splits)

lemma createCampaign_ids:
  "p \<in> set (program_ids (snd (createCampaign env r))) \<Longrightarrow> resolveProgramID env = Inr p"
  using create_submit_ids [of p env r]
  by (auto simp: createCampaign_def snd_try_catch snd_andThen fst_andThen ensureBalance_returns
      split: sum.splits option.splits if_splits)

lemma createCampaign_it1_ids:
  "p \<in> set (program_ids (snd (createCampaign_it1 env r))) \<Longrightarrow> resolveProgramID env = Inr p"
  by (auto simp: createCampaign_it1_def snd_try_catch snd_andThen fst_andThen ensureBalance_returns
      create_submit_it1_ids split: sum.splits if_splits)

lemma donateToCampaign_ids:
  "p \<in> set (program_ids (snd (donateToCampaign env r campaignPubkey))) \<Longrightarrow>
     resolveProgramID env = Inr p"
  using getCampaigns_ids [of p env r]
  by (auto simp: donateToCampaign_def Let_def snd_try_catch snd_andThen fst_andThen
      split: sum.splits if_splits)

lemma donateToCampaign_memo_ids:
  "p \<in> set (program_ids (snd (donateToCampaign_memo env r campaignPubkey))) \<Longrightarrow>
     resolveProgramID env = Inr p"
  using getCampaigns_memo_ids [of p env r]
  by (auto simp: donateToCampaign_memo_def Let_def resolveProgramID_memo snd_try_catch snd_andThen
      fst_andThen split: sum.splits if_splits)

lemma createCampaign_uses_id:
  assumes "create_prepared env r"
  shows "NewProgram (projr (resolveProgramID env)) \<in> set (snd (createCampaign env r))"
    and "FindProgramAddress (projr (resolveProgramID env)) \<in> set (snd (createCampaign env r))"
  by (simp_all add: createCampaign_prepared [OF assms] snd_try_catch)

lemma createCampaign_it1_uses_id:
  assumes "create_prepared_it1 env r"
  shows "NewProgram (projr (resolveProgramID env)) \<in> set (snd (createCampaign_it1 env r))"
    and "FindProgramAddress (projr (resolveProgramID env)) \<in> set (snd (createCampaign_it1 env r))"
    and "GetAccountInfo (projr (resolveProgramID env)) \<in> set (snd (createCampaign_it1 env r))"
proof -
  obtain u where "snd (create_submit_it1 env (projr (resolveProgramID env))
                         (projr (findProgramAddress env)))
                  = GetAccountInfo (projr (resolveProgramID env)) # u"
    using create_submit_it1_starts by blast
  then show "NewProgram (projr (resolveProgramID env)) \<in> set (snd (createCampaign_it1 env r))"
    and "FindProgramAddress (projr (resolveProgramID env)) \<in> set (snd (createCampaign_it1 env r))"
    and "GetAccountInfo (projr (resolveProgramID env)) \<in> set (snd (createCampaign_it1 env r))"
    by (simp_all add: createCampaign_it1_prepared [OF assms] snd_try_catch snd_andThen
        ensureBalance_returns)
qed

lemma getCampaigns_uses_id:
  assumes "listing_reached env r"
  shows "NewProgram (projr (resolveProgramID env)) \<in> set (snd (getCampaigns env r))"
    and "GetProgramAccounts (projr (resolveProgramID env)) \<in> set (snd (getCampaigns env r))"
    and "NewProgram (projr (resolveProgramID env)) \<in> set (snd (getCampaigns_memo env r))"
    and "GetProgramAccounts (projr (resolveProgramID env)) \<in> set (snd (getCampaigns_memo env r))"
proof -
  from assms obtain p where "getProvider env = Inr p"
    unfolding listing_reached_def by (blast dest: not_isl_Inr)
  moreover from assms obtain rid where "resolveProgramID env = Inr rid"
    unfolding listing_reached_def by (blast dest: not_isl_Inr)
  moreover from this have "runtimeProgramID_memo env = Inr rid"
    by (simp add: resolveProgramID_memo)
  moreover from assms have "new_Program env = Inr ()"
    unfolding listing_reached_def by (cases "new_Program env") simp_all
  moreover from assms have "isWalletConnected r"
    unfolding listing_reached_def by simp
  ultimately show
    "NewProgram (projr (resolveProgramID env)) \<in> set (snd (getCampaigns env r))"
    "GetProgramAccounts (projr (resolveProgramID env)) \<in> set (snd (getCampaigns env r))"
    "NewProgram (projr (resolveProgramID env)) \<in> set (snd (getCampaigns_memo env r))"
    "GetProgramAccounts (projr (resolveProgramID env)) \<in> set (snd (getCampaigns_memo env r))"
    by (simp_all add: getCampaigns_def getCampaigns_memo_def snd_try_catch snd_andThen)
qed

lemma donateToCampaign_uses_id:
  assumes "donate_validated env r" "\<not> isl (getProvider env)" "\<not> isl (resolveProgramID env)"
  shows "NewProgram (projr (resolveProgramID env))
           \<in> set (snd (donateToCampaign env r campaignPubkey))"
    and "NewProgram (projr (resolveProgramID env))
           \<in> set (snd (donateToCampaign_memo env r campaignPubkey))"
proof -
  from assms(2) obtain p where "getProvider env = Inr p"
    by (blast dest: not_isl_Inr)
  moreover from assms(3) obtain rid where "resolveProgramID env = Inr rid"
    by (blast dest: not_isl_Inr)
  moreover from this have "runtimeProgramID_memo env = Inr rid"
    by (simp add: resolveProgramID_memo)
  ultimately show "NewProgram (projr (resolveProgramID env))
           \<in> set (snd (donateToCampaign env r campaignPubkey))"
    and "NewProgram (projr (resolveProgramID env))
           \<in> set (snd (donateToCampaign_memo env r campaignPubkey))"
    using assms(1)
    by (simp_all add: donateToCampaign_def donateToCampaign_memo_def donate_validated_def Let_def
        snd_try_catch snd_andThen)
qed

text \<open>
  C6. The program identifier that \<open>createCampaign\<close>, \<open>getCampaigns\<close> and
  \<open>donateToCampaign\<close> resolve (\<open>resolveProgramID\<close>; \<open>runtimeProgramID_memo\<close> in the memoized
  iteration) is the \<open>PublicKey\<close> built from the IDL address when that address is a string
  from which the constructor builds one, and the fallback identifier otherwise. The guard
  "Program ID is not available" is never taken: the value it tests is never null. Every
  program identifier that a run of these handlers passes to the client library (to the
  \<open>Program\<close> constructor, \<open>findProgramAddress\<close>, \<open>getAccountInfo\<close>, \<open>getProgramAccounts\<close>) is
  the resolved one, and a run that gets as far as these calls does pass it. The
  \<open>PublicKey\<close> constructor belongs to the client library; the theorem assumes of it that
  it accepts the fallback text and rejects the empty text.
\<close>

theorem program_id_resolution:
  "runtimeProgramID env \<noteq> Inr None
   \<and> resolveProgramID env = runtimeProgramID_memo env
   \<and> (new_PublicKey env FALLBACK_PROGRAM_ID = Inr fb \<and> (\<forall>p. new_PublicKey env [] \<noteq> Inr p) \<longrightarrow>
        resolveProgramID env =
          Inr (case idl_address (idl_file env) of
                 JString a \<Rightarrow> (case new_PublicKey env a of Inr p \<Rightarrow> p | Inl e \<Rightarrow> fb)
               | _ \<Rightarrow> fb))
   \<and> (\<forall>p \<in> (set (program_ids (snd (createCampaign env r)))
                 \<union> set (program_ids (snd (createCampaign_it1 env r)))
                 \<union> set (program_ids (snd (getCampaigns env r)))
                 \<union> set (program_ids (snd (getCampaigns_memo env r)))
                 \<union> set (program_ids (snd (donateToCampaign env r campaignPubkey)))
                 \<union> set (program_ids (snd (donateToCampaign_memo env r campaignPubkey)))).
          resolveProgramID env = Inr p)
   \<and> (create_prepared env r \<longrightarrow>
        NewProgram (projr (resolveProgramID env)) \<in> set (snd (createCampaign env r))
        \<and> FindProgramAddress (projr (resolveProgramID env)) \<in> set (snd (createCampaign env r)))
   \<and> (create_prepared_it1 env r \<longrightarrow>
        NewProgram (projr (resolveProgramID env)) \<in> set (snd (createCampaign_it1 env r))
        \<and> FindProgramAddress (projr (resolveProgramID env)) \<in> set (snd (createCampaign_it1 env r))
        \<and> GetAccountInfo (projr (resolveProgramID env)) \<in> set (snd (createCampaign_it1 env r)))
   \<and> (listing_reached env r \<longrightarrow>
        NewProgram (projr (resolveProgramID env)) \<in> set (snd (getCampaigns env r))
        \<and> GetProgramAccounts (projr (resolveProgramID env)) \<in> set (snd (getCampaigns env r))
        \<and> NewProgram (projr (resolveProgramID env)) \<in> set (snd (getCampaigns_memo env r))
        \<and> GetProgramAccounts (projr (resolveProgramID env)) \<in> set (snd (getCampaigns_memo env r)))
   \<and> (donate_validated env r \<and> \<not> isl (getProvider env) \<and> \<not> isl (resolveProgramID env) \<longrightarrow>
        NewProgram (projr (resolveProgramID env))
          \<in> set (snd (donateToCampaign env r campaignPubkey))
        \<and> NewProgram (projr (resolveProgramID env))
          \<in> set (snd (donateToCampaign_memo env r campaignPubkey)))"
proof (intro conjI impI ballI)
  show "runtimeProgramID env \<noteq> Inr None" by (rule runtimeProgramID_not_null)
  show "resolveProgramID env = runtimeProgramID_memo env" by (rule resolveProgramID_memo)
next
  assume "new_PublicKey env FALLBACK_PROGRAM_ID = Inr fb \<and> (\<forall>p. new_PublicKey env [] \<noteq> Inr p)"
  then show "resolveProgramID env =
          Inr (case idl_address (idl_file env) of
                 JString a \<Rightarrow> (case new_PublicKey env a of Inr p \<Rightarrow> p | Inl e \<Rightarrow> fb)
               | _ \<Rightarrow> fb)"
    by (auto simp: resolveProgramID_def runtimeProgramID_def programID_def
        split: jsval.splits sum.splits)
next
  fix p
  assume "p \<in> set (program_ids (snd (createCampaign env r)))
                \<union> set (program_ids (snd (createCampaign_it1 env r)))
                \<union> set (program_ids (snd (getCampaigns env r)))
                \<union> set (program_ids (snd (getCampaigns_memo env r)))
                \<union> set (program_ids (snd (donateToCampaign env r campaignPubkey)))
                \<union> set (program_ids (snd (donateToCampaign_memo env r campaignPubkey)))"
  then show "resolveProgramID env = Inr p"
    using createCampaign_ids [of p env r] createCampaign_it1_ids [of p env r]
      getCampaigns_ids [of p env r] getCampaigns_memo_ids [of p env r]
      donateToCampaign_ids [of p env r campaignPubkey]
      donateToCampaign_memo_ids [of p env r campaignPubkey]
    by blast
next
  assume a: "create_prepared env r"
  show "NewProgram (projr (resolveProgramID env)) \<in> set (snd (createCampaign env r))"
    and "FindProgramAddress (projr (resolveProgramID env)) \<in> set (snd (createCampaign env r))"
    by (rule createCampaign_uses_id [OF a])+
next
  assume a: "create_prepared_it1 env r"
  show "NewProgram (projr (resolveProgramID env)) \<in> set (snd (createCampaign_it1 env r))"
    and "FindProgramAddress (projr (resolveProgramID env)) \<in> set (snd (createCampaign_it1 env r))"
    and "GetAccountInfo (projr (resolveProgramID env)) \<in> set (snd (createCampaign_it1 env r))"
    by (rule createCampaign_it1_uses_id [OF a])+
next
  assume a: "listing_reached env r"
  show "NewProgram (projr (resolveProgramID env)) \<in> set (snd (getCampaigns env r))"
    and "GetProgramAccounts (projr (resolveProgramID env)) \<in> set (snd (getCampaigns env r))"
    and "NewProgram (projr (resolveProgramID env)) \<in> set (snd (getCampaigns_memo env r))"
    and "GetProgramAccounts (projr (resolveProgramID env)) \<in> set (snd (getCampaigns_memo env r))"
    by (rule getCampaigns_uses_id [OF a])+
next
  assume "donate_validated env r \<and> \<not> isl (getProvider env) \<and> \<not> isl (resolveProgramID env)"
  then have a: "donate_validated env r" "\<not> isl (getProvider env)" "\<not> isl (resolveProgramID env)"
    by simp_all
  show "NewProgram (projr (resolveProgramID env))
          \<in> set (snd (donateToCampaign env r campaignPubkey))"
    and "NewProgram (projr (resolveProgramID env))
          \<in> set (snd (donateToCampaign_memo env r campaignPubkey))"
    by (rule donateToCampaign_uses_id [OF a])+
qed

text \<open>
  Witness for C6: an IDL address the constructor accepts, one it rejects, and an IDL
  without address; the handlers then work with the program of that identifier.
\<close>

theorem program_id_resolution_witness:
  "resolveProgramID sample_env = Inr ''ProgramKey''
   \<and> resolveProgramID strict_env = Inr FALLBACK_PROGRAM_ID
   \<and> resolveProgramID no_address_env = Inr FALLBACK_PROGRAM_ID
   \<and> runtimeProgramID_memo strict_env = Inr FALLBACK_PROGRAM_ID
   \<and> NewProgram ''ProgramKey'' \<in> set (snd (createCampaign sample_env sample_state))
   \<and> FindProgramAddress ''ProgramKey'' \<in> set (snd (createCampaign sample_env sample_state))
   \<and> GetProgramAccounts ''ProgramKey'' \<in> set (snd (getCampaigns sample_env sample_state))
   \<and> NewProgram ''ProgramKey'' \<in> set (snd (donateToCampaign sample_env sample_state ''A''))
   \<and> NewProgram FALLBACK_PROGRAM_ID \<in> set (snd (createCampaign strict_env sample_state))
   \<and> GetProgramAccounts FALLBACK_PROGRAM_ID \<in> set (snd (getCampaigns strict_env sample_state))
   \<and> GetProgramAccounts FALLBACK_PROGRAM_ID
       \<in> set (snd (getCampaigns_memo no_address_env sample_state))
   \<and> NewProgram FALLBACK_PROGRAM_ID
       \<in> set (snd (donateToCampaign_memo no_address_env sample_state ''A''))"
proof -
  have a: "new_PublicKey sample_env FALLBACK_PROGRAM_ID = Inr FALLBACK_PROGRAM_ID
           \<and> (\<forall>p. new_PublicKey sample_env [] \<noteq> Inr p)"
    by (simp add: sample_env_def FALLBACK_PROGRAM_ID_def)
  have b: "new_PublicKey strict_env FALLBACK_PROGRAM_ID = Inr FALLBACK_PROGRAM_ID
           \<and> (\<forall>p. new_PublicKey strict_env [] \<noteq> Inr p)"
    by (simp add: strict_env_def sample_env_def FALLBACK_PROGRAM_ID_def)
  have c: "new_PublicKey no_address_env FALLBACK_PROGRAM_ID = Inr FALLBACK_PROGRAM_ID
           \<and> (\<forall>p. new_PublicKey no_address_env [] \<noteq> Inr p)"
    by (simp add: no_address_env_def sample_env_def FALLBACK_PROGRAM_ID_def)
  note t1 = program_id_resolution [of sample_env FALLBACK_PROGRAM_ID sample_state "''A''"]
    and t2 = program_id_resolution [of strict_env FALLBACK_PROGRAM_ID sample_state "''A''"]
    and t3 = program_id_resolution [of no_address_env FALLBACK_PROGRAM_ID sample_state "''A''"]
  have r1: "resolveProgramID sample_env =
          Inr (case idl_address (idl_file sample_env) of
                 JString a \<Rightarrow> (case new_PublicKey sample_env a of Inr p \<Rightarrow> p
                                | Inl e \<Rightarrow> FALLBACK_PROGRAM_ID)
               | _ \<Rightarrow> FALLBACK_PROGRAM_ID)"
    using t1 a by blast
  have r2: "resolveProgramID strict_env =
          Inr (case idl_address (idl_file strict_env) of
                 JString a \<Rightarrow> (case new_PublicKey strict_env a of Inr p \<Rightarrow> p
                                | Inl e \<Rightarrow> FALLBACK_PROGRAM_ID)
               | _ \<Rightarrow> FALLBACK_PROGRAM_ID)"
    and m2: "resolveProgramID strict_env = runtimeProgramID_memo strict_env"
    using t2 b by blast+
  have r3: "resolveProgramID no_address_env =
          Inr (case idl_address (idl_file no_address_env) of
                 JString a \<Rightarrow> (case new_PublicKey no_address_env a of Inr p \<Rightarrow> p
                                | Inl e \<Rightarrow> FALLBACK_PROGRAM_ID)
               | _ \<Rightarrow> FALLBACK_PROGRAM_ID)"
    using t3 c by blast
  have i1: "resolveProgramID sample_env = Inr ''ProgramKey''"
    unfolding r1 by (simp add: sample_env_def sample_idl_def)
  have i2: "resolveProgramID strict_env = Inr FALLBACK_PROGRAM_ID"
    unfolding r2 by (simp add: strict_env_def sample_env_def sample_idl_def)
  have i3: "resolveProgramID no_address_env = Inr FALLBACK_PROGRAM_ID"
    unfolding r3 by (simp add: no_address_env_def sample_env_def sample_idl_def)
  have g: "\<not> isl (getProvider sample_env)" "\<not> isl (getProvider strict_env)"
    "\<not> isl (getProvider no_address_env)"
    by (simp_all add: getProvider_def strict_env_def no_address_env_def sample_env_def
        sample_wallet_def truthy_def)
  have n: "\<not> isl (new_Program sample_env)" "\<not> isl (new_Program strict_env)"
    "\<not> isl (new_Program no_address_env)"
    "\<not> isl (findProgramAddress strict_env)" "fetchNullable strict_env = Inr None"
    "idl_valid (idl_file strict_env)"
    by (simp_all add: strict_env_def no_address_env_def sample_env_def sample_idl_def
        idl_valid_def)
  have w: "isWalletConnected sample_state" "truthy_str (publicKey sample_state)"
    "trim (campaignName sample_state) \<noteq> []"
    by (simp_all add: sample_state_def truthy_str_def trim_Park)
  have p1: "create_prepared sample_env sample_state"
    by (rule sample_prepared)
  have p2: "create_prepared strict_env sample_state"
    using g n w i2 by (simp add: create_prepared_def)
  have l1: "listing_reached sample_env sample_state" "listing_reached strict_env sample_state"
    "listing_reached no_address_env sample_state"
    using g n w i1 i2 i3 by (simp_all add: listing_reached_def)
  have v: "donate_validated sample_env sample_state"
    "donate_validated no_address_env sample_state"
    by (simp_all add: donate_validated_def no_address_env_def sample_env_def sample_state_def
        truthy_str_def isNaN_def le_zero_def)
  have d1: "\<not> isl (resolveProgramID sample_env)" "\<not> isl (resolveProgramID no_address_env)"
    by (simp_all add: i1 i3)
  have e1: "NewProgram (projr (resolveProgramID sample_env))
              \<in> set (snd (createCampaign sample_env sample_state))
            \<and> FindProgramAddress (projr (resolveProgramID sample_env))
              \<in> set (snd (createCampaign sample_env sample_state))
            \<and> GetProgramAccounts (projr (resolveProgramID sample_env))
              \<in> set (snd (getCampaigns sample_env sample_state))
            \<and> NewProgram (projr (resolveProgramID sample_env))
              \<in> set (snd (donateToCampaign sample_env sample_state ''A''))"
    using t1 p1 l1(1) v(1) g(1) d1(1) by blast
  have e2: "NewProgram (projr (resolveProgramID strict_env))
              \<in> set (snd (createCampaign strict_env sample_state))
            \<and> GetProgramAccounts (projr (resolveProgramID strict_env))
              \<in> set (snd (getCampaigns strict_env sample_state))"
    using t2 p2 l1(2) by blast
  have e3: "GetProgramAccounts (projr (resolveProgramID no_address_env))
              \<in> set (snd (getCampaigns_memo no_address_env sample_state))
            \<and> NewProgram (projr (resolveProgramID no_address_env))
              \<in> set (snd (donateToCampaign_memo no_address_env sample_state ''A''))"
    using t3 l1(3) v(2) g(3) d1(2) by blast
  from e1 e2 e3 i1 i2 i3 m2 show ?thesis by simp
qed

end
